(* ===== verification/Prelude.thy ===== *)
theory Prelude
  imports Main "HOL-Library.AList" "HOL-Library.Multiset" "HOL-Library.Sublist"
    "HOL-Library.Word" "HOL-Library.Char_ord" "HOL-Library.List_Lexorder"
begin

text \<open>
  Shared vocabulary of the development: the parts of Go and of its standard library that
  several packages of cli/internal use (strings as byte lists, maps with an iteration order,
  durations, integer division, \<^verbatim>\<open>sort.Slice\<close>), and the collections of facts the
  component theories feed.
\<close>

section \<open>Fact collections\<close>

named_theorems go_simps \<open>rewrite rules for the Go library functions\<close>
named_theorems keeps \<open>preservation of component invariants by operations\<close>

section \<open>Go maps\<close>

text \<open>
  A Go map is an association list with distinct keys: reading is \<^const>\<open>map_of\<close>, the list
  order is one possible \<^verbatim>\<open>range\<close> order. Go leaves that order unspecified, so facts about a
  ranged map are stated up to permutation.
\<close>

type_synonym ('k, 'v) gomap = "('k \<times> 'v) list"

abbreviation gm_get :: "('k, 'v) gomap \<Rightarrow> 'k \<Rightarrow> 'v option" where
  "gm_get m k \<equiv> map_of m k"

definition gm_set :: "'k \<Rightarrow> 'v \<Rightarrow> ('k, 'v) gomap \<Rightarrow> ('k, 'v) gomap" where
  "gm_set k v m = AList.update k v m"

definition gm_del :: "'k \<Rightarrow> ('k, 'v) gomap \<Rightarrow> ('k, 'v) gomap" where
  "gm_del k m = filter (\<lambda>p. fst p \<noteq> k) m"

definition gm_ok :: "('k, 'v) gomap \<Rightarrow> bool" where
  "gm_ok m \<longleftrightarrow> distinct (map fst m)"

lemma gm_get_set [simp, go_simps]:
  "gm_get (gm_set k v m) k' = (if k' = k then Some v else gm_get m k')"
  by (simp add: gm_set_def update_conv')

lemma gm_get_del [simp, go_simps]:
  "gm_get (gm_del k m) k' = (if k' = k then None else gm_get m k')"
  by (induction m) (auto simp: gm_del_def)

lemma gm_ok_set [simp, keeps]: "gm_ok m \<Longrightarrow> gm_ok (gm_set k v m)"
  by (simp add: gm_ok_def gm_set_def distinct_update)

lemma gm_ok_del [simp, keeps]: "gm_ok m \<Longrightarrow> gm_ok (gm_del k m)"
  by (auto simp: gm_ok_def gm_del_def distinct_map intro: inj_on_subset)

lemma gm_ok_Nil [simp]: "gm_ok []"
  by (simp add: gm_ok_def)

lemma gm_get_in_set: "gm_ok m \<Longrightarrow> gm_get m k = Some v \<longleftrightarrow> (k, v) \<in> set m"
  by (simp add: gm_ok_def)

lemma gm_keys_set [simp]: "fst ` set (gm_set k v m) = insert k (fst ` set m)"
  by (simp add: gm_set_def dom_update)

lemma gm_keys_del [simp]: "fst ` set (gm_del k m) = fst ` set m - {k}"
  by (auto simp: gm_del_def)

lemma list_ex_key [go_simps]: "list_ex (\<lambda>x. f x = k) t \<longleftrightarrow> k \<in> f ` set t"
  by (auto simp: list_ex_iff)

lemma filter_key_snoc [go_simps]: "k \<notin> f ` set t \<Longrightarrow> filter (\<lambda>x. f x = k) t = []"
  by (force simp: filter_empty_conv)

section \<open>Strings\<close>

text \<open>\<^verbatim>\<open>strings.Index(s, p)\<close>: the first position of \<open>p\<close> in \<open>s\<close>; \<^const>\<open>None\<close> is Go's -1.\<close>

fun index_str :: "string \<Rightarrow> string \<Rightarrow> nat option" where
  "index_str p [] = (if p = [] then Some 0 else None)"
| "index_str p (c # cs) =
     (if prefix p (c # cs) then Some 0 else map_option Suc (index_str p cs))"

text \<open>\<^verbatim>\<open>strings.IndexByte(s, c)\<close> and \<^verbatim>\<open>strings.LastIndexByte(s, c)\<close>.\<close>

fun index_byte :: "char \<Rightarrow> string \<Rightarrow> nat option" where
  "index_byte c [] = None"
| "index_byte c (d # ds) = (if d = c then Some 0 else map_option Suc (index_byte c ds))"

fun last_index_byte :: "char \<Rightarrow> string \<Rightarrow> nat option" where
  "last_index_byte c [] = None"
| "last_index_byte c (d # ds) =
     (case last_index_byte c ds of
        Some i \<Rightarrow> Some (Suc i)
      | None \<Rightarrow> if d = c then Some 0 else None)"

lemma index_byte_None: "index_byte c s = None \<longleftrightarrow> c \<notin> set s"
  by (induction s) auto

lemma index_byte_append: "c \<notin> set s \<Longrightarrow> index_byte c (s @ c # t) = Some (length s)"
  by (induction s) auto

lemma last_index_byte_None: "last_index_byte c s = None \<longleftrightarrow> c \<notin> set s"
  by (induction s) (auto split: option.splits)

lemma last_index_byte_append:
  "c \<notin> set t \<Longrightarrow> last_index_byte c (s @ c # t) = Some (length s)"
  by (induction s) (auto simp: last_index_byte_None split: option.splits)

lemma index_str_here: "prefix p s \<Longrightarrow> index_str p s = Some 0"
  by (cases s) auto

text \<open>A pattern that opens with a byte the skipped text lacks is first found after it.\<close>

lemma index_str_append:
  "c \<notin> set s \<Longrightarrow> index_str (c # p) (s @ c # p @ t) = Some (length s)"
proof (induction s)
  case Nil
  then show ?case by (simp add: index_str_here)
next
  case (Cons d s)
  then have "\<not> prefix (c # p) ((d # s) @ c # p @ t)" by auto
  with Cons show ?case by simp
qed

text \<open>
  \<^verbatim>\<open>strings.TrimSpace\<close> removes leading and trailing characters with the Unicode property
  White\_Space; these are their UTF-8 encodings.
\<close>

definition white_seqs :: "string list" where
  "white_seqs =
     [[CHR 0x20], [CHR 0x09], [CHR 0x0A], [CHR 0x0B], [CHR 0x0C], [CHR 0x0D],
      [CHR 0xC2, CHR 0x85], [CHR 0xC2, CHR 0xA0], [CHR 0xE1, CHR 0x9A, CHR 0x80],
      [CHR 0xE2, CHR 0x80, CHR 0xA8], [CHR 0xE2, CHR 0x80, CHR 0xA9], [CHR 0xE2, CHR 0x80, CHR 0xAF],
      [CHR 0xE2, CHR 0x81, CHR 0x9F], [CHR 0xE3, CHR 0x80, CHR 0x80],
      [CHR 0xE2, CHR 0x80, CHR 0x80], [CHR 0xE2, CHR 0x80, CHR 0x81], [CHR 0xE2, CHR 0x80, CHR 0x82],
      [CHR 0xE2, CHR 0x80, CHR 0x83], [CHR 0xE2, CHR 0x80, CHR 0x84], [CHR 0xE2, CHR 0x80, CHR 0x85],
      [CHR 0xE2, CHR 0x80, CHR 0x86], [CHR 0xE2, CHR 0x80, CHR 0x87], [CHR 0xE2, CHR 0x80, CHR 0x88],
      [CHR 0xE2, CHR 0x80, CHR 0x89], [CHR 0xE2, CHR 0x80, CHR 0x8A]]"

definition white_len :: "string \<Rightarrow> nat" where
  "white_len s = (case find (\<lambda>w. prefix w s) white_seqs of None \<Rightarrow> 0 | Some w \<Rightarrow> length w)"

function trim_left :: "string \<Rightarrow> string" where
  "trim_left s = (if s = [] \<or> white_len s = 0 then s else trim_left (drop (white_len s) s))"
  by pat_completeness auto
termination
  by (relation "measure length") auto

declare trim_left.simps [simp del]

definition white_len_rev :: "string \<Rightarrow> nat" where
  "white_len_rev s = (case find (\<lambda>w. suffix w s) white_seqs of None \<Rightarrow> 0 | Some w \<Rightarrow> length w)"

function trim_right :: "string \<Rightarrow> string" where
  "trim_right s = (if s = [] \<or> white_len_rev s = 0 then s
                   else trim_right (take (length s - white_len_rev s) s))"
  by pat_completeness auto
termination
  by (relation "measure length") auto

declare trim_right.simps [simp del]

definition trim_space :: "string \<Rightarrow> string" where
  "trim_space s = trim_right (trim_left s)"

text \<open>Printable ASCII text without spaces is left alone, apart from one trailing newline.\<close>

definition visible :: "char \<Rightarrow> bool" where
  "visible c \<longleftrightarrow> (of_char c :: nat) > 0x20 \<and> (of_char c :: nat) < 0x7F"

section \<open>Integers, durations\<close>

text \<open>Durations and instants count nanoseconds, as \<^verbatim>\<open>time.Duration\<close> does.\<close>

type_synonym duration = int
type_synonym time = int

abbreviation second :: duration where "second \<equiv> 1000000000"
abbreviation minute :: duration where "minute \<equiv> 60000000000"
abbreviation hour :: duration where "hour \<equiv> 3600000000000"

text \<open>The zero \<^verbatim>\<open>time.Time\<close>, 1 January of year 1, on the Unix time line.\<close>

definition zero_time :: time where
  "zero_time = -62135596800 * second"

text \<open>\<^verbatim>\<open>t.Sub(u)\<close> saturates at the ends of the \<^verbatim>\<open>int64\<close> range.\<close>

definition time_sub :: "time \<Rightarrow> time \<Rightarrow> duration" where
  "time_sub t u = max (- (2 ^ 63)) (min (2 ^ 63 - 1) (t - u))"

text \<open>Integer division truncates towards zero.\<close>

definition go_div :: "int \<Rightarrow> int \<Rightarrow> int" where
  "go_div a b = sgn a * sgn b * (\<bar>a\<bar> div \<bar>b\<bar>)"

definition go_mod :: "int \<Rightarrow> int \<Rightarrow> int" where
  "go_mod a b = a - b * go_div a b"

text \<open>\<^verbatim>\<open>int(d.Seconds())\<close>: whole seconds, truncated.\<close>

definition whole_seconds :: "duration \<Rightarrow> int" where
  "whole_seconds d = go_div d second"

lemma go_div_nonneg [simp]: "0 \<le> a \<Longrightarrow> 0 < b \<Longrightarrow> go_div a b = a div b"
  by (auto simp: go_div_def sgn_if)

lemma go_mod_nonneg [simp]: "0 \<le> a \<Longrightarrow> 0 < b \<Longrightarrow> go_mod a b = a mod b"
  by (simp add: go_mod_def minus_mult_div_eq_mod)

section \<open>sort.Slice\<close>

text \<open>
  \<^verbatim>\<open>sort.Slice(xs, lt)\<close> rearranges \<open>xs\<close> so that no later element is \<open>lt\<close> than an
  earlier one; the order of equivalent elements is unspecified. A sorting routine is an
  argument of the functions that use it, and \<open>sort_slice\<close> is its documented contract.
\<close>

type_synonym 'a sorter = "('a \<Rightarrow> 'a \<Rightarrow> bool) \<Rightarrow> 'a list \<Rightarrow> 'a list"

definition weak_order :: "('a \<Rightarrow> 'a \<Rightarrow> bool) \<Rightarrow> bool" where
  "weak_order lt \<longleftrightarrow> asymp lt \<and> transp lt \<and> transp (\<lambda>a b. \<not> lt b a)"

definition sort_slice :: "'a sorter \<Rightarrow> bool" where
  "sort_slice srt \<longleftrightarrow> (\<forall>lt xs. weak_order lt \<longrightarrow>
     mset (srt lt xs) = mset xs \<and> sorted_wrt (\<lambda>a b. \<not> lt b a) (srt lt xs))"

text \<open>Go sorts slices of at most twelve elements by insertion.\<close>

fun insert_by :: "('a \<Rightarrow> 'a \<Rightarrow> bool) \<Rightarrow> 'a \<Rightarrow> 'a list \<Rightarrow> 'a list" where
  "insert_by lt x [] = [x]"
| "insert_by lt x (y # ys) = (if lt y x then y # insert_by lt x ys else x # y # ys)"

fun insertion_sort :: "'a sorter" where
  "insertion_sort lt [] = []"
| "insertion_sort lt (x # xs) = insert_by lt x (insertion_sort lt xs)"

lemma mset_insert_by [simp]: "mset (insert_by lt x xs) = add_mset x (mset xs)"
  by (induction xs) auto

lemma set_insert_by [simp]: "set (insert_by lt x xs) = insert x (set xs)"
  by (induction xs) auto

lemma weak_orderD:
  assumes "weak_order lt"
  shows "lt a b \<Longrightarrow> \<not> lt b a" and "\<not> lt b a \<Longrightarrow> \<not> lt c b \<Longrightarrow> \<not> lt c a"
  using assms unfolding weak_order_def by (blast dest: asympD, blast dest: transpD)

lemma sorted_insert_by:
  assumes w: "weak_order lt" and "sorted_wrt (\<lambda>a b. \<not> lt b a) xs"
  shows "sorted_wrt (\<lambda>a b. \<not> lt b a) (insert_by lt x xs)"
  using assms(2)
proof (induction xs)
  case (Cons y ys)
  show ?case
  proof (cases "lt y x")
    case True
    with Cons weak_orderD(1) [OF w True] show ?thesis by simp
  next
    case False
    with Cons.prems have "\<forall>z \<in> set ys. \<not> lt z x"
      using weak_orderD(2) [OF w] by (metis sorted_wrt.simps(2))
    with False Cons.prems show ?thesis by simp
  qed
qed simp

lemma sort_slice_insertion_sort: "sort_slice insertion_sort"
  unfolding sort_slice_def
proof (intro allI impI conjI)
  fix lt :: "'a \<Rightarrow> 'a \<Rightarrow> bool" and xs
  assume w: "weak_order lt"
  show "mset (insertion_sort lt xs) = mset xs" by (induction xs) auto
  show "sorted_wrt (\<lambda>a b. \<not> lt b a) (insertion_sort lt xs)"
    by (induction xs) (auto intro: sorted_insert_by [OF w])
qed

lemma weak_order_key:
  fixes key :: "'a \<Rightarrow> 'b :: linorder"
  shows "weak_order (\<lambda>a b. key a < key b)" and "weak_order (\<lambda>a b. key b < key a)"
  by (auto simp: weak_order_def transp_def intro!: asympI)

lemma sort_sliceD:
  assumes "sort_slice srt" and "weak_order lt"
  shows "mset (srt lt xs) = mset xs"
    and "sorted_wrt (\<lambda>a b. \<not> lt b a) (srt lt xs)"
    and "set (srt lt xs) = set xs"
    and "length (srt lt xs) = length xs"
  using assms unfolding sort_slice_def by (blast, blast, metis mset_eq_setD, metis size_mset)

end
