(* ===== verification/Crockford.thy ===== *)
theory Crockford
  imports Prelude
begin

text \<open>
  Package crockford (cli/internal/crockford/base32.go): Crockford Base32 on byte slices.
  The bit loops are kept as loops over the five bit positions of a group.
\<close>

unbundle bit_operations_syntax

type_synonym byte = "8 word"

datatype crock_error =
    BitsExceedSource nat nat
  | InvalidChar char nat

section \<open>Definitions\<close>

definition alphabet :: string where
  "alphabet = ''0123456789ABCDEFGHJKMNPQRSTVWXYZ''"

text \<open>\<^verbatim>\<open>1 << uint(k)\<close> on a byte.\<close>

definition shl1 :: "nat \<Rightarrow> byte" where
  "shl1 k = push_bit k 1"

text \<open>The loop of \<^verbatim>\<open>extractBits\<close> over the bits \<open>bs\<close> still to read; reaching \<open>maxBits\<close> breaks.\<close>

fun extractBits_loop :: "byte list \<Rightarrow> nat \<Rightarrow> nat \<Rightarrow> nat list \<Rightarrow> byte \<Rightarrow> byte" where
  "extractBits_loop src bitOffset maxBits [] val = val"
| "extractBits_loop src bitOffset maxBits (b # bs) val =
     (let bitPos = bitOffset + b in
      if bitPos \<ge> maxBits then val
      else
        let byteIdx = bitPos div 8; bitIdx = 7 - bitPos mod 8 in
        extractBits_loop src bitOffset maxBits bs
          (if src ! byteIdx AND shl1 bitIdx \<noteq> 0 then val OR shl1 (4 - b) else val))"

definition extractBits :: "byte list \<Rightarrow> nat \<Rightarrow> nat \<Rightarrow> byte" where
  "extractBits src bitOffset maxBits = extractBits_loop src bitOffset maxBits [0, 1, 2, 3, 4] 0"

definition EncodeBits :: "byte list \<Rightarrow> nat \<Rightarrow> crock_error + string" where
  "EncodeBits src nBits =
     (if nBits > length src * 8 then Inl (BitsExceedSource nBits (length src))
      else if nBits = 0 then Inr []
      else Inr (map (\<lambda>i. alphabet ! unat (extractBits src (i * 5) nBits))
                  [0 ..< (nBits + 4) div 5]))"

definition Encode :: "byte list \<Rightarrow> string" where
  "Encode src = (case EncodeBits src (length src * 8) of Inr s \<Rightarrow> s | Inl _ \<Rightarrow> [])"

text \<open>\<^verbatim>\<open>strings.ToLower\<close> on one ASCII character, and the table \<^verbatim>\<open>init\<close> fills.\<close>

definition to_lower :: "char \<Rightarrow> char" where
  "to_lower c = (if CHR ''A'' \<le> c \<and> c \<le> CHR ''Z'' then char_of ((of_char c :: nat) + 32) else c)"

definition decodeMap :: "char \<Rightarrow> int" where
  "decodeMap =
     (fold (\<lambda>(i, c) m. m(c := int i, to_lower c := int i)) (enumerate 0 alphabet) (\<lambda>_. -1))
       (CHR ''I'' := 1, CHR ''i'' := 1, CHR ''L'' := 1, CHR ''l'' := 1,
        CHR ''O'' := 0, CHR ''o'' := 0)"

fun setBits_loop :: "nat \<Rightarrow> byte \<Rightarrow> nat list \<Rightarrow> byte list \<Rightarrow> byte list" where
  "setBits_loop bitOffset val [] dst = dst"
| "setBits_loop bitOffset val (b # bs) dst =
     (let bitPos = bitOffset + b; byteIdx = bitPos div 8 in
      if byteIdx \<ge> length dst then dst
      else
        let bitIdx = 7 - bitPos mod 8 in
        setBits_loop bitOffset val bs
          (if val AND shl1 (4 - b) \<noteq> 0
           then dst[byteIdx := dst ! byteIdx OR shl1 bitIdx] else dst))"

definition setBits :: "byte list \<Rightarrow> nat \<Rightarrow> byte \<Rightarrow> byte list" where
  "setBits dst bitOffset val = setBits_loop bitOffset val [0, 1, 2, 3, 4] dst"

text \<open>The loop of \<^verbatim>\<open>Decode\<close> from position \<open>i\<close>; the first invalid character is the error.\<close>

fun decode_loop :: "nat \<Rightarrow> string \<Rightarrow> byte list \<Rightarrow> crock_error + byte list" where
  "decode_loop i [] out = Inr out"
| "decode_loop i (c # cs) out =
     (let val = decodeMap c in
      if val < 0 then Inl (InvalidChar c i)
      else decode_loop (Suc i) cs (setBits out (i * 5) (word_of_int val)))"

definition Decode :: "string \<Rightarrow> crock_error + byte list" where
  "Decode s0 =
     (let s = filter (\<lambda>c. c \<noteq> CHR ''-'') s0 in
      if s = [] then Inr []
      else decode_loop 0 s (replicate ((length s * 5 + 7) div 8) 0))"

section \<open>Bits\<close>

text \<open>Bit \<open>i\<close> of a byte slice, most significant first.\<close>

definition bit_at :: "byte list \<Rightarrow> nat \<Rightarrow> bool" where
  "bit_at bs i \<longleftrightarrow> bit (bs ! (i div 8)) (7 - i mod 8)"

lemma test_bit_mask: "(w :: byte) AND shl1 k \<noteq> 0 \<longleftrightarrow> bit w k"
  by (simp add: shl1_def bit_iff_and_push_bit_not_eq_0)

lemma bit_or_mask: "k < 8 \<Longrightarrow> bit ((w :: byte) OR shl1 k) n \<longleftrightarrow> bit w n \<or> n = k"
  by (auto simp: shl1_def bit_or_iff bit_exp_iff)

lemma extractBits_loop_bit:
  assumes "sorted bs" and "\<forall>b \<in> set bs. b < 5"
  shows "bit (extractBits_loop src off maxb bs val) n \<longleftrightarrow>
    bit val n \<or> (\<exists>b \<in> set bs. n = 4 - b \<and> off + b < maxb \<and> bit_at src (off + b))"
  using assms
proof (induction bs arbitrary: val)
  case (Cons b bs)
  show ?case
  proof (cases "maxb \<le> off + b")
    case True
    with Cons.prems(1) have "\<forall>c \<in> set bs. maxb \<le> off + c" by force
    with True show ?thesis by (auto simp: Let_def)
  next
    case False
    with Cons show ?thesis by (auto simp: Let_def test_bit_mask bit_or_mask bit_at_def)
  qed
qed simp

lemma five_bits: "(\<exists>b \<in> {0, 1, 2, 3, 4 :: nat}. n = 4 - b \<and> P b) \<longleftrightarrow> n < 5 \<and> P (4 - n)"
  by (auto simp: less_Suc_eq numeral_eq_Suc)

lemma extractBits_bit:
  "bit (extractBits src off maxb) n \<longleftrightarrow>
    n < 5 \<and> off + (4 - n) < maxb \<and> bit_at src (off + (4 - n))"
  unfolding extractBits_def
  by (subst extractBits_loop_bit) (simp_all only: list.set five_bits, simp_all)

lemma low_bits_less:
  assumes "\<And>n. 5 \<le> n \<Longrightarrow> \<not> bit (w :: byte) n"
  shows "unat w < 32"
proof -
  have "w = take_bit 5 w"
    using assms by (intro bit_eqI) (auto simp: bit_take_bit_iff simp flip: not_le)
  then have "unat w = take_bit 5 (unat w)" by (metis unsigned_take_bit_eq)
  then show ?thesis using take_bit_nat_less_exp [of 5 "unat w"] by simp
qed

lemma extractBits_less: "unat (extractBits src off maxb) < 32"
  by (rule low_bits_less) (simp add: extractBits_bit)

lemma length_setBits_loop [simp]: "length (setBits_loop off val bs dst) = length dst"
  by (induction bs arbitrary: dst) (auto simp: Let_def)

lemma length_setBits [simp]: "length (setBits dst off val) = length dst"
  unfolding setBits_def by (rule length_setBits_loop)

lemma same_bit_pos: "(i :: nat) div 8 = p div 8 \<Longrightarrow> 7 - i mod 8 = 7 - p mod 8 \<longleftrightarrow> i = p"
proof -
  assume "i div 8 = p div 8"
  moreover have "i mod 8 < 8" and "p mod 8 < 8" by simp_all
  ultimately show ?thesis by (metis div_mod_decomp diff_diff_cancel less_Suc_eq_le eval_nat_numeral(2,3) BitM.simps semiring_norm(26,27,28))
qed

lemma bit_at_update:
  assumes "i < 8 * length dst" and "p < 8 * length dst"
  shows "bit_at (dst[p div 8 := dst ! (p div 8) OR shl1 (7 - p mod 8)]) i \<longleftrightarrow> bit_at dst i \<or> i = p"
proof (cases "i div 8 = p div 8")
  case True
  from assms(2) have "p div 8 < length dst" by auto
  with True same_bit_pos [OF True] show ?thesis
    by (simp add: bit_at_def bit_or_mask)
next
  case False
  then show ?thesis by (auto simp: bit_at_def)
qed

lemma setBits_loop_bit:
  assumes "i < 8 * length dst" and "sorted bs" and "\<forall>b \<in> set bs. b < 5"
  shows "bit_at (setBits_loop off val bs dst) i \<longleftrightarrow>
    bit_at dst i \<or> (\<exists>b \<in> set bs. i = off + b \<and> bit val (4 - b))"
  using assms
proof (induction bs arbitrary: dst)
  case (Cons b bs)
  show ?case
  proof (cases "length dst \<le> (off + b) div 8")
    case True
    with Cons.prems have "\<forall>c \<in> set (b # bs). i \<noteq> off + c" by force
    with True show ?thesis by (auto simp: Let_def)
  next
    case False
    then have "off + b < 8 * length dst" by linarith
    with False Cons show ?thesis by (auto simp: Let_def test_bit_mask bit_at_update)
  qed
qed simp

lemma setBits_bit:
  assumes "i < 8 * length dst"
  shows "bit_at (setBits dst off val) i \<longleftrightarrow>
    bit_at dst i \<or> (off \<le> i \<and> i < off + 5 \<and> bit val (4 - (i - off)))"
proof -
  have "(\<exists>b \<in> {0, 1, 2, 3, 4}. i = off + b \<and> bit val (4 - b)) \<longleftrightarrow>
    off \<le> i \<and> i < off + 5 \<and> bit val (4 - (i - off))"
    by (auto simp: le_iff_add less_Suc_eq numeral_eq_Suc)
  with assms show ?thesis
    unfolding setBits_def by (subst setBits_loop_bit) (simp_all only: list.set, simp_all)
qed

lemma bit_at_zeros [simp]: "i < 8 * n \<Longrightarrow> \<not> bit_at (replicate n 0) i"
  by (auto simp: bit_at_def)

lemma bytes_eqI:
  assumes "length xs = length ys" and "\<And>i. i < 8 * length xs \<Longrightarrow> bit_at xs i = bit_at ys i"
  shows "xs = ys"
proof (rule nth_equalityI)
  fix k assume k: "k < length xs"
  show "xs ! k = ys ! k"
  proof (rule bit_eqI)
    fix n assume "possible_bit TYPE(8 word) n"
    then have n: "n < 8" by simp
    have "(8 * k + r) div 8 = k" and "(8 * k + r) mod 8 = r" if "r < 8" for r
      using that by simp_all
    with n have "bit_at zs (8 * k + (7 - n)) = bit (zs ! k) n" for zs
      by (simp only: bit_at_def) simp
    moreover from k n have "8 * k + (7 - n) < 8 * length xs" by linarith
    ultimately show "bit (xs ! k) n = bit (ys ! k) n" using assms(2) by metis
  qed
qed (use assms(1) in simp)

section \<open>The alphabet and the decode table\<close>

lemma length_alphabet [simp]: "length alphabet = 32"
  by (simp add: alphabet_def)

lemma to_lower_literals:
  "map to_lower ''0123456789ABCDEFGHIJKLMNOPQRSTUVWXYZ'' = ''0123456789abcdefghijklmnopqrstuvwxyz''"
  by code_simp

lemmas to_lower_simps = to_lower_literals [simplified]

text \<open>The table as an association list, searched from its front.\<close>

fun assoc_or :: "'v \<Rightarrow> ('k \<times> 'v) list \<Rightarrow> 'k \<Rightarrow> 'v" where
  "assoc_or d [] k = d"
| "assoc_or d ((k', v) # kvs) k = (if k = k' then v else assoc_or d kvs k)"

lemma decodeMap_table: "decodeMap c = assoc_or (- 1)
    [(CHR ''o'', 0), (CHR ''O'', 0), (CHR ''l'', 1), (CHR ''L'', 1), (CHR ''i'', 1),
     (CHR ''I'', 1), (CHR ''z'', 31), (CHR ''Z'', 31), (CHR ''y'', 30), (CHR ''Y'', 30),
     (CHR ''x'', 29), (CHR ''X'', 29), (CHR ''w'', 28), (CHR ''W'', 28), (CHR ''v'', 27),
     (CHR ''V'', 27), (CHR ''t'', 26), (CHR ''T'', 26), (CHR ''s'', 25), (CHR ''S'', 25),
     (CHR ''r'', 24), (CHR ''R'', 24), (CHR ''q'', 23), (CHR ''Q'', 23), (CHR ''p'', 22),
     (CHR ''P'', 22), (CHR ''n'', 21), (CHR ''N'', 21), (CHR ''m'', 20), (CHR ''M'', 20),
     (CHR ''k'', 19), (CHR ''K'', 19), (CHR ''j'', 18), (CHR ''J'', 18), (CHR ''h'', 17),
     (CHR ''H'', 17), (CHR ''g'', 16), (CHR ''G'', 16), (CHR ''f'', 15), (CHR ''F'', 15),
     (CHR ''e'', 14), (CHR ''E'', 14), (CHR ''d'', 13), (CHR ''D'', 13), (CHR ''c'', 12),
     (CHR ''C'', 12), (CHR ''b'', 11), (CHR ''B'', 11), (CHR ''a'', 10), (CHR ''A'', 10),
     (CHR ''9'', 9), (CHR ''8'', 8), (CHR ''7'', 7), (CHR ''6'', 6), (CHR ''5'', 5),
     (CHR ''4'', 4), (CHR ''3'', 3), (CHR ''2'', 2), (CHR ''1'', 1), (CHR ''0'', 0)] c"
  by (simp add: decodeMap_def alphabet_def to_lower_simps)

lemma decodeMap_alphabet: "v < 32 \<Longrightarrow> decodeMap (alphabet ! v) = int v"
proof -
  have "map (\<lambda>c. decodeMap c) alphabet = [0, 1, 2, 3, 4, 5, 6, 7, 8, 9, 10, 11, 12, 13, 14, 15, 16, 17, 18, 19, 20, 21, 22, 23, 24, 25, 26, 27, 28, 29, 30, 31]"
    by (simp add: decodeMap_table alphabet_def)
  also have "\<dots> = map int [0..<32]" by code_simp
  finally have "map decodeMap alphabet ! v = map int [0..<32] ! v" by simp
  then show "v < 32 \<Longrightarrow> decodeMap (alphabet ! v) = int v" by simp
qed

lemma assoc_or_range: "P d \<Longrightarrow> \<forall>v \<in> snd ` set kvs. P v \<Longrightarrow> P (assoc_or d kvs k)"
  by (induction kvs) auto

lemma decodeMap_range: "- 1 \<le> decodeMap c \<and> decodeMap c < 32"
  unfolding decodeMap_table by (rule assoc_or_range) simp_all

lemma upper_cases:
  assumes "CHR ''A'' \<le> c" and "c \<le> CHR ''Z''"
  shows "c \<in> set ''ABCDEFGHIJKLMNOPQRSTUVWXYZ''"
proof -
  from assms have "65 \<le> (of_char c :: nat)" and "(of_char c :: nat) \<le> 90"
    by (simp_all add: less_eq_char_def)
  then have "(of_char c :: nat) \<in> set [65..<91]" by (simp only: set_upt atLeastLessThan_iff) simp
  then have "char_of (of_char c :: nat) \<in> set (map char_of [65 ..< 91 :: nat])"
    by (metis image_eqI set_map)
  moreover have "map char_of [65 ..< 91 :: nat] = ''ABCDEFGHIJKLMNOPQRSTUVWXYZ''" by code_simp
  ultimately show ?thesis by (simp only: char_of_char)
qed

lemma decodeMap_lower: "decodeMap (to_lower c) = decodeMap c"
proof (cases "CHR ''A'' \<le> c \<and> c \<le> CHR ''Z''")
  case True
  have "\<forall>c \<in> set ''ABCDEFGHIJKLMNOPQRSTUVWXYZ''. decodeMap (to_lower c) = decodeMap c"
    by (simp add: decodeMap_table to_lower_simps)
  with True upper_cases show ?thesis by blast
qed (auto simp: to_lower_def)

lemma lower_hyphen: "to_lower c = CHR ''-'' \<longleftrightarrow> c = CHR ''-''"
proof (cases "CHR ''A'' \<le> c \<and> c \<le> CHR ''Z''")
  case True
  have "\<forall>c \<in> set ''ABCDEFGHIJKLMNOPQRSTUVWXYZ''. to_lower c \<noteq> CHR ''-'' \<and> c \<noteq> CHR ''-''"
    by (simp add: to_lower_simps)
  with True upper_cases show ?thesis by blast
qed (auto simp: to_lower_def)

text \<open>No alphabet character is a hyphen or one of the bytes NATS gives a meaning to.\<close>

lemma alphabet_plain: "c \<in> set alphabet \<Longrightarrow> c \<notin> set ''-.*> ''"
  by (auto simp: alphabet_def)

section \<open>Decoding\<close>

lemma unat_decoded: "0 \<le> decodeMap c \<Longrightarrow> unat (word_of_int (decodeMap c) :: byte) = nat (decodeMap c)"
  using decodeMap_range [of c] by (simp add: unat_eq_nat_uint uint_word_of_int)

text \<open>A loop over valid characters ORs their five-bit groups into \<open>out\<close>.\<close>

lemma decode_loop_ok:
  assumes "\<forall>c \<in> set s. 0 \<le> decodeMap c"
  shows "\<exists>res. decode_loop k s out = Inr res \<and> length res = length out \<and>
    (\<forall>i < 8 * length out. bit_at res i \<longleftrightarrow> bit_at out i \<or>
      (5 * k \<le> i \<and> i < 5 * (k + length s) \<and>
       bit (word_of_int (decodeMap (s ! (i div 5 - k))) :: byte) (4 - i mod 5)))"
  using assms
proof (induction s arbitrary: k out)
  case (Cons c s)
  let ?out = "setBits out (k * 5) (word_of_int (decodeMap c))"
  let ?grp = "\<lambda>c i. bit (word_of_int (decodeMap c) :: byte) (4 - i mod 5)"
  from Cons.prems Cons.IH [of "Suc k" ?out] obtain res where
    res: "decode_loop (Suc k) s ?out = Inr res" "length res = length out"
    and bits: "\<And>i. i < 8 * length out \<Longrightarrow> bit_at res i \<longleftrightarrow> bit_at ?out i \<or>
      (5 * Suc k \<le> i \<and> i < 5 * (Suc k + length s) \<and> ?grp (s ! (i div 5 - Suc k)) i)"
    by auto
  have "bit_at res i \<longleftrightarrow> bit_at out i \<or> (5 * k \<le> i \<and> i < 5 * (k + length (c # s)) \<and>
       ?grp ((c # s) ! (i div 5 - k)) i)" if i: "i < 8 * length out" for i
  proof -
    consider "i < 5 * k" | "5 * k \<le> i" "i < 5 * k + 5" | "5 * k + 5 \<le> i" by linarith
    then show ?thesis
    proof cases
      case 2
      then have "i div 5 = k" and "i - k * 5 = i mod 5"
        by (simp_all add: div_nat_eqI modulo_nat_def)
      with 2 show ?thesis using bits [OF i] setBits_bit [OF i] by auto
    next
      case 3
      then have "Suc k \<le> i div 5" by (simp add: less_eq_div_iff_mult_less_eq)
      then have "(c # s) ! (i div 5 - k) = s ! (i div 5 - Suc k)"
        by (simp add: nth_Cons' )
      with 3 show ?thesis using bits [OF i] setBits_bit [OF i] by auto
    qed (use bits [OF i] setBits_bit [OF i] in auto)
  qed
  with res Cons.prems show ?case by (simp add: Let_def)
qed auto

lemma decode_loop_err:
  "decode_loop k s out = Inl e \<Longrightarrow>
    \<exists>i < length s. e = InvalidChar (s ! i) (k + i) \<and> decodeMap (s ! i) < 0 \<and>
      (\<forall>j < i. 0 \<le> decodeMap (s ! j))"
proof (induction s arbitrary: k out)
  case (Cons c s)
  show ?case
  proof (cases "decodeMap c < 0")
    case True
    with Cons.prems show ?thesis by (intro exI [of _ 0]) (simp add: Let_def)
  next
    case False
    with Cons.prems have "decode_loop (Suc k) s (setBits out (k * 5) (word_of_int (decodeMap c))) = Inl e"
      by (simp add: Let_def)
    from Cons.IH [OF this] obtain i where
      "i < length s" "e = InvalidChar (s ! i) (Suc k + i)" "decodeMap (s ! i) < 0"
      "\<forall>j < i. 0 \<le> decodeMap (s ! j)" by blast
    with False show ?thesis
      by (intro exI [of _ "Suc i"]) (auto simp: less_Suc_eq_0_disj)
  qed
qed simp

section \<open>Encoding\<close>

lemma EncodeBits_ok:
  "EncodeBits src n = Inr s \<Longrightarrow> n \<le> 8 * length src \<and>
     s = map (\<lambda>i. alphabet ! unat (extractBits src (i * 5) n)) [0 ..< (n + 4) div 5]"
  by (auto simp: EncodeBits_def split: if_splits)

lemma EncodeBits_length: "EncodeBits src n = Inr s \<Longrightarrow> length s = (n + 4) div 5"
  by (auto dest: EncodeBits_ok)

lemma EncodeBits_alphabet: "EncodeBits src n = Inr s \<Longrightarrow> set s \<subseteq> set alphabet"
  by (auto dest!: EncodeBits_ok intro!: nth_mem extractBits_less)

lemma EncodeBits_total: "n \<le> 8 * length src \<Longrightarrow> \<exists>s. EncodeBits src n = Inr s"
  by (auto simp: EncodeBits_def)

lemma filter_alphabet: "set s \<subseteq> set alphabet \<Longrightarrow> filter (\<lambda>c. c \<noteq> CHR ''-'') s = s"
  by (rule filter_True) (use alphabet_plain in auto)

text \<open>Decoding an encoding gives back the encoded bits, zero-padded to whole bytes.\<close>

lemma decode_encoded:
  assumes enc: "EncodeBits src n = Inr s" and "0 < n"
  shows "\<exists>out. Decode s = Inr out \<and> length out = (length s * 5 + 7) div 8 \<and>
    (\<forall>i < 8 * length out. bit_at out i \<longleftrightarrow> i < n \<and> bit_at src i)"
proof -
  note s = EncodeBits_ok [OF enc, THEN conjunct2]
  have dec: "decodeMap (s ! j) = int (unat (extractBits src (j * 5) n))" if "j < length s" for j
    using that by (simp add: s decodeMap_alphabet extractBits_less)
  then have nonneg: "\<forall>c \<in> set s. 0 \<le> decodeMap c" by (auto simp: in_set_conv_nth)
  let ?z = "replicate ((length s * 5 + 7) div 8) (0 :: byte)"
  from decode_loop_ok [OF nonneg, of 0 ?z] obtain out where
    out: "decode_loop 0 s ?z = Inr out" "length out = (length s * 5 + 7) div 8"
    and bits: "\<And>i. i < 8 * length out \<Longrightarrow> bit_at out i \<longleftrightarrow>
       i < 5 * length s \<and> bit (word_of_int (decodeMap (s ! (i div 5))) :: byte) (4 - i mod 5)"
    by (auto simp: length_replicate)
  have "s \<noteq> []" using \<open>0 < n\<close> by (simp add: s)
  then have "Decode s = Inr out"
    using out filter_alphabet [OF EncodeBits_alphabet [OF enc]] by (simp add: Decode_def Let_def)
  moreover have "bit_at out i \<longleftrightarrow> i < n \<and> bit_at src i" if i: "i < 8 * length out" for i
  proof (cases "i < 5 * length s")
    case True
    then have j: "i div 5 < length s" by auto
    have "(i div 5) * 5 + (4 - (4 - i mod 5)) = i" by (simp add: div_mult_mod_eq)
    with bits [OF i] True show ?thesis
      by (simp add: dec [OF j] extractBits_bit less_Suc_eq_le [of _ 4, simplified])
  next
    case False
    then have "n \<le> i" using s by auto
    with bits [OF i] False show ?thesis by simp
  qed
  ultimately show ?thesis using out(2) by blast
qed

lemma Encode_EncodeBits: "EncodeBits src (length src * 8) = Inr (Encode src)"
  by (auto simp: Encode_def EncodeBits_def)

lemma Decode_lower: "Decode s = Inr out \<Longrightarrow> Decode (map to_lower s) = Inr out"
proof -
  have "decode_loop i s out0 = Inr out \<Longrightarrow> decode_loop i (map to_lower s) out0 = Inr out" for i s out0
    by (induction s arbitrary: i out0) (auto simp: Let_def decodeMap_lower split: if_splits)
  moreover have "filter (\<lambda>c. c \<noteq> CHR ''-'') (map to_lower s) = map to_lower (filter (\<lambda>c. c \<noteq> CHR ''-'') s)"
    by (simp add: filter_map o_def lower_hyphen)
  moreover assume "Decode s = Inr out"
  ultimately show ?thesis by (auto simp: Decode_def Let_def split: if_splits)
qed

section \<open>Properties\<close>

text \<open>
  C33 (roundtrip): decoding the encoding of any byte slice succeeds and gives the slice back,
  followed by at most one zero byte of padding (the output of \<^verbatim>\<open>Decode\<close> is rounded up to
  whole bytes).
\<close>

theorem crockford_roundtrip:
  "\<exists>k \<le> 1. Decode (Encode src) = Inr (src @ replicate k 0)"
proof (cases "src = []")
  case True
  then show ?thesis by (auto simp: Encode_def EncodeBits_def Decode_def)
next
  case False
  note enc = Encode_EncodeBits [of src]
  from False obtain out where out: "Decode (Encode src) = Inr out"
    and len: "length out = (length (Encode src) * 5 + 7) div 8"
    and bits: "\<And>i. i < 8 * length out \<Longrightarrow> bit_at out i \<longleftrightarrow> i < length src * 8 \<and> bit_at src i"
    using decode_encoded [OF enc] by auto
  define k where "k = length out - length src"
  have "length src \<le> length out" and "k \<le> 1"
    unfolding k_def len EncodeBits_length [OF enc] by linarith+
  moreover have "out = src @ replicate k 0"
  proof (rule bytes_eqI)
    show "length out = length (src @ replicate k 0)"
      using \<open>length src \<le> length out\<close> by (simp add: k_def)
    fix i assume i: "i < 8 * length out"
    then have "i div 8 - length src < k \<or> i div 8 < length src"
      using \<open>length src \<le> length out\<close> by (auto simp: k_def)
    then show "bit_at out i = bit_at (src @ replicate k 0) i"
      using bits [OF i] by (auto simp: bit_at_def nth_append)
  qed
  ultimately show ?thesis using out by blast
qed

text \<open>
  Two sources encode their first \<open>n\<close> bits to the same string exactly when
  those bits agree, so identifiers collide only when the random bits they are drawn from do.
\<close>

theorem encode_bits_injective:
  assumes "EncodeBits src n = Inr s" and "EncodeBits src' n = Inr s'"
  shows "s = s' \<longleftrightarrow> (\<forall>i < n. bit_at src i = bit_at src' i)"
proof
  assume eq: "s = s'"
  show "\<forall>i < n. bit_at src i = bit_at src' i"
  proof (intro allI impI)
    fix i assume "i < n"
    then have "0 < n" by simp
    from decode_encoded [OF assms(1) this] decode_encoded [OF assms(2) this] eq obtain out where
      "length out = (length s * 5 + 7) div 8"
      "\<forall>i < 8 * length out. bit_at out i \<longleftrightarrow> i < n \<and> bit_at src i"
      "\<forall>i < 8 * length out. bit_at out i \<longleftrightarrow> i < n \<and> bit_at src' i" by auto
    moreover have "i < 8 * length out"
      using \<open>i < n\<close> EncodeBits_length [OF assms(1)] \<open>length out = _\<close> by linarith
    ultimately show "bit_at src i = bit_at src' i" using \<open>i < n\<close> by blast
  qed
next
  assume "\<forall>i < n. bit_at src i = bit_at src' i"
  then have "extractBits src off n = extractBits src' off n" for off
    by (intro bit_eqI) (auto simp: extractBits_bit)
  with EncodeBits_ok [OF assms(1)] EncodeBits_ok [OF assms(2)] show "s = s'" by simp
qed

theorem encode_bits_injective_witness:
  "(''800G'' = (''800H'' :: string)) \<longleftrightarrow> (\<forall>i < 20. bit_at [0x40, 0x01, 0x00] i = bit_at [0x40, 0x01, 0x10] i)"
  by (rule encode_bits_injective) code_simp+

text \<open>
  \<^verbatim>\<open>Decode\<close> fails exactly on input with a character outside the alphabet and
  its aliases, hyphens aside, and names the first one with its position; letter case never
  changes a successful result.
\<close>

theorem decode_errors:
  "(case Decode s of
      Inl (InvalidChar c i) \<Rightarrow>
        (let t = filter (\<lambda>c. c \<noteq> CHR ''-'') s in
         i < length t \<and> c = t ! i \<and> decodeMap c < 0 \<and> list_all (\<lambda>d. 0 \<le> decodeMap d) (take i t))
    | Inl (BitsExceedSource _ _) \<Rightarrow> False
    | Inr out \<Rightarrow> list_all (\<lambda>d. d = CHR ''-'' \<or> 0 \<le> decodeMap d) s
        \<and> Decode (map to_lower s) = Inr out)"
proof (cases "Decode s")
  case (Inl e)
  then show ?thesis
    by (auto simp: Decode_def Let_def list_all_length dest!: decode_loop_err split: if_splits)
next
  case (Inr out)
  have "decode_loop i t out0 = Inr out \<Longrightarrow> \<forall>d \<in> set t. 0 \<le> decodeMap d" for i t out0
    by (induction t arbitrary: i out0) (auto simp: Let_def split: if_splits)
  with Inr have "list_all (\<lambda>d. d = CHR ''-'' \<or> 0 \<le> decodeMap d) s"
    by (fastforce simp: Decode_def Let_def list_all_iff filter_empty_conv split: if_splits)
  with Inr Decode_lower [OF Inr] show ?thesis by simp
qed

end
