(* ===== verification/GoTime.thy ===== *)
theory GoTime
  imports Prelude
begin

text \<open>
  Package time as the source uses it: \<^verbatim>\<open>t.UTC().Format(time.RFC3339)\<close>, its nanosecond form
  in JSON, and \<^verbatim>\<open>time.Parse(time.RFC3339, s)\<close>. The ledger keeps instants as such strings and
  compares them in SQL, so the theory shows that formatting cuts to the second, that parsing
  undoes it, and that the order of the texts is the order of the instants.
\<close>

section \<open>Definitions\<close>

text \<open>Fixed-width decimal digits.\<close>

definition digit :: "nat \<Rightarrow> char" where
  "digit n = char_of (48 + n mod 10)"

fun digits :: "nat \<Rightarrow> nat \<Rightarrow> string" where
  "digits 0 n = []"
| "digits (Suc w) n = digit (n div 10 ^ w) # digits w n"

fun ndigits :: "nat \<Rightarrow> nat" where
  "ndigits n = (if n < 10 then 1 else Suc (ndigits (n div 10)))"

declare ndigits.simps [simp del]

definition is_digit :: "char \<Rightarrow> bool" where
  "is_digit c \<longleftrightarrow> 48 \<le> (of_char c :: nat) \<and> (of_char c :: nat) \<le> 57"

definition num_of :: "string \<Rightarrow> nat" where
  "num_of s = foldl (\<lambda>a c. 10 * a + (of_char c - 48)) 0 s"

text \<open>\<^verbatim>\<open>strconv.Itoa\<close>.\<close>

definition itoa :: "int \<Rightarrow> string" where
  "itoa n = (if n < 0 then ''-'' else '''') @ digits (ndigits (nat \<bar>n\<bar>)) (nat \<bar>n\<bar>)"

text \<open>The proleptic Gregorian calendar: 400 years have 146097 days.\<close>

definition leap :: "int \<Rightarrow> bool" where
  "leap y \<longleftrightarrow> y mod 4 = 0 \<and> (y mod 100 \<noteq> 0 \<or> y mod 400 = 0)"

definition year_days :: "int \<Rightarrow> nat" where
  "year_days y = (if leap y then 366 else 365)"

definition month_days :: "int \<Rightarrow> nat list" where
  "month_days y = [31, if leap y then 29 else 28, 31, 30, 31, 30, 31, 31, 30, 31, 30, 31]"

definition cycle_years :: "nat list" where
  "cycle_years = map (\<lambda>k. year_days (1 + int k)) [0..<400]"

text \<open>The block of consecutive lengths \<open>ls\<close> that \<open>n\<close> falls in, and the offset there.\<close>

fun split_by :: "nat list \<Rightarrow> nat \<Rightarrow> nat \<times> nat" where
  "split_by [] n = (0, n)"
| "split_by (l # ls) n =
     (if n < l then (0, n) else let (i, r) = split_by ls (n - l) in (Suc i, r))"

definition unix_days :: int where
  "unix_days = 719162"

text \<open>Year, month (1 to 12) and day of the day number \<open>d\<close>, counted from 1 January of year 1.\<close>

definition civil :: "int \<Rightarrow> int \<times> nat \<times> nat" where
  "civil d =
     (let (k, yday) = split_by cycle_years (nat (d mod 146097));
          y = 1 + 400 * (d div 146097) + int k;
          (m, dd) = split_by (month_days y) yday
      in (y, Suc m, Suc dd))"

definition days_of_civil :: "int \<Rightarrow> nat \<Rightarrow> nat \<Rightarrow> int" where
  "days_of_civil y m d =
     (y - 1) div 400 * 146097 + int (sum_list (take (nat ((y - 1) mod 400)) cycle_years))
      + int (sum_list (take (m - 1) (month_days y))) + int (d - 1)"

definition year_text :: "int \<Rightarrow> string" where
  "year_text y = (if y < 0 then ''-'' else '''') @ digits (max 4 (ndigits (nat \<bar>y\<bar>))) (nat \<bar>y\<bar>)"

text \<open>Everything up to the seconds, for a count of seconds since the Unix epoch.\<close>

definition stamp :: "int \<Rightarrow> string" where
  "stamp s =
     (let (y, m, d) = civil (unix_days + s div 86400); r = nat (s mod 86400)
      in year_text y @ ''-'' @ digits 2 m @ ''-'' @ digits 2 d @ ''T''
           @ digits 2 (r div 3600) @ '':'' @ digits 2 (r div 60 mod 60) @ '':'' @ digits 2 (r mod 60))"

definition rfc3339 :: "time \<Rightarrow> string" where
  "rfc3339 t = stamp (t div second) @ ''Z''"

text \<open>The JSON form: the fraction without trailing zeros.\<close>

definition frac_text :: "nat \<Rightarrow> string" where
  "frac_text n = (if n = 0 then [] else CHR ''.'' # rev (dropWhile (\<lambda>c. c = CHR ''0'') (rev (digits 9 n))))"

definition rfc3339nano :: "time \<Rightarrow> string" where
  "rfc3339nano t = stamp (t div second) @ frac_text (nat (t mod second)) @ ''Z''"

text \<open>Parsing: a fixed number of digits, a literal character.\<close>

definition get_num :: "nat \<Rightarrow> string \<Rightarrow> (nat \<times> string) option" where
  "get_num w s = (if w \<le> length s \<and> list_all is_digit (take w s)
                  then Some (num_of (take w s), drop w s) else None)"

fun skip_char :: "char \<Rightarrow> string \<Rightarrow> string option" where
  "skip_char c [] = None"
| "skip_char c (d # s) = (if d = c then Some s else None)"

text \<open>The hour of the layout may have one digit only.\<close>

definition get_hour :: "string \<Rightarrow> (nat \<times> string) option" where
  "get_hour s = (case get_num 2 s of Some r \<Rightarrow> Some r | None \<Rightarrow> get_num 1 s)"

text \<open>An optional fraction, a dot or a comma before digits; nine digits count.\<close>

definition get_frac :: "string \<Rightarrow> nat \<times> string" where
  "get_frac s =
     (case s of
        c # d # _ \<Rightarrow>
          if (c = CHR ''.'' \<or> c = CHR '','') \<and> is_digit d then
            let ds = takeWhile is_digit (tl s)
            in (num_of (take 9 (ds @ replicate 9 (CHR ''0''))), dropWhile is_digit (tl s))
          else (0, s)
      | _ \<Rightarrow> (0, s))"

text \<open>\<^verbatim>\<open>Z\<close> or an offset in hours and minutes; the result is in seconds.\<close>

definition get_zone :: "string \<Rightarrow> (int \<times> string) option" where
  "get_zone s =
     (case s of
        [] \<Rightarrow> None
      | c # r \<Rightarrow>
          if c = CHR ''Z'' then Some (0, r)
          else if c = CHR ''+'' \<or> c = CHR ''-'' then
            Option.bind (get_num 2 r) (\<lambda>(hh, r1).
            Option.bind (skip_char (CHR '':'') r1) (\<lambda>r2.
            Option.bind (get_num 2 r2) (\<lambda>(mm, r3).
              if hh > 24 \<or> mm > 60 then None
              else Some ((if c = CHR ''-'' then - 1 else 1) * int (hh * 3600 + mm * 60), r3))))
          else None)"

definition parse_rfc3339 :: "string \<Rightarrow> time option" where
  "parse_rfc3339 s =
     Option.bind (get_num 4 s) (\<lambda>(y, s1).
     Option.bind (skip_char (CHR ''-'') s1) (\<lambda>s2.
     Option.bind (get_num 2 s2) (\<lambda>(m, s3).
     Option.bind (skip_char (CHR ''-'') s3) (\<lambda>s4.
     Option.bind (get_num 2 s4) (\<lambda>(d, s5).
     Option.bind (skip_char (CHR ''T'') s5) (\<lambda>s6.
     Option.bind (get_hour s6) (\<lambda>(hh, s7).
     Option.bind (skip_char (CHR '':'') s7) (\<lambda>s8.
     Option.bind (get_num 2 s8) (\<lambda>(mi, s9).
     Option.bind (skip_char (CHR '':'') s9) (\<lambda>s10.
     Option.bind (get_num 2 s10) (\<lambda>(ss, s11).
     (let (ns, s12) = get_frac s11 in
     Option.bind (get_zone s12) (\<lambda>(off, s13).
       if s13 = [] \<and> 1 \<le> m \<and> m \<le> 12 \<and> 1 \<le> d \<and> d \<le> month_days (int y) ! (m - 1)
          \<and> hh < 24 \<and> mi < 60 \<and> ss < 60
       then Some (((days_of_civil (int y) m d - unix_days) * 86400
                    + int (hh * 3600 + mi * 60 + ss) - off) * second + int ns)
       else None)))))))))))))"

text \<open>The instants whose year has four digits.\<close>

definition four_digit_year :: "time \<Rightarrow> bool" where
  "four_digit_year t \<longleftrightarrow> - 62167219200 * second \<le> t \<and> t < 253402300800 * second"

section \<open>Digits\<close>

lemma length_digits [simp]: "length (digits w n) = w"
  by (induction w) auto

lemma of_char_digit [simp]: "(of_char (digit n) :: nat) = 48 + n mod 10"
proof -
  have "48 + n mod 10 < 256" using mod_less_divisor [of 10 n] by linarith
  then show ?thesis by (simp add: digit_def)
qed

lemma is_digit_digit [simp]: "is_digit (digit n)"
  by (simp add: is_digit_def)

lemma digits_are_digits: "list_all is_digit (digits w n)"
  by (induction w) auto

lemma num_of_snoc [simp]: "num_of (s @ [c]) = 10 * num_of s + (of_char c - 48)"
  by (simp add: num_of_def)

lemma digits_snoc: "digits (Suc w) n = digits w (n div 10) @ [digit n]"
proof (induction w)
  case (Suc w)
  have "digits (Suc (Suc w)) n = digit (n div 10 ^ Suc w) # digits (Suc w) n" by simp
  also have "\<dots> = digit (n div 10 div 10 ^ w) # digits w (n div 10) @ [digit n]"
    by (simp only: Suc.IH power_Suc div_mult2_eq)
  finally show ?case by simp
qed simp

lemma num_of_digits [simp]: "n < 10 ^ w \<Longrightarrow> num_of (digits w n) = n"
proof (induction w arbitrary: n)
  case 0
  then show ?case by (simp add: num_of_def)
next
  case (Suc w)
  then have "n div 10 < 10 ^ w" by (simp add: less_mult_imp_div_less mult.commute)
  with Suc.IH have "num_of (digits w (n div 10)) = n div 10" by blast
  then show ?case by (simp only: digits_snoc num_of_snoc of_char_digit) simp
qed

lemma ndigits_bound: "n < 10 ^ ndigits n"
proof (induction n rule: ndigits.induct)
  case (1 n)
  then show ?case by (subst ndigits.simps) (auto simp: less_mult_imp_div_less)
qed

lemma digits_mono: "a < b \<Longrightarrow> b < 10 ^ w \<Longrightarrow> digits w a < digits w b"
proof (induction w arbitrary: a b)
  case (Suc w)
  let ?p = "10 ^ w :: nat"
  have b: "b div ?p < 10" using Suc.prems(2) by (simp add: less_mult_imp_div_less)
  have le: "a div ?p \<le> b div ?p" using Suc.prems(1) by (simp add: div_le_mono)
  have red: "digits w n = digits w (n mod ?p)" for n
  proof -
    have "digits v n = digits v (n mod 10 ^ (v + k))" for v k
    proof (induction v arbitrary: k)
      case (Suc v)
      have "n mod 10 ^ (Suc v + k) div 10 ^ v mod 10 = n div 10 ^ v mod 10"
      proof -
        have "n mod (10 ^ v * 10 ^ Suc k) div 10 ^ v = n div 10 ^ v mod 10 ^ Suc k"
          by (simp only: mod_mult2_eq) (simp)
        then have "n mod 10 ^ (Suc v + k) div 10 ^ v = n div 10 ^ v mod 10 ^ Suc k"
          by (simp add: power_add mult.commute mult.left_commute)
        then show ?thesis by (simp add: mod_mod_cancel)
      qed
      then have "digit (n mod 10 ^ (Suc v + k) div 10 ^ v) = digit (n div 10 ^ v)"
        by (simp only: digit_def)
      with Suc.IH [of "Suc k"] show ?case by simp
    qed simp
    from this [of w 0] show ?thesis by simp
  qed
  show ?case
  proof (cases "a div ?p = b div ?p")
    case True
    then have "a mod ?p < b mod ?p" using Suc.prems(1)
      by (metis div_mult_mod_eq nat_add_left_cancel_less)
    with Suc.IH [of "a mod ?p" "b mod ?p"] have "digits w a < digits w b"
      by (simp add: red [of a] red [of b])
    with True show ?thesis by simp
  next
    case False
    with le b have "(of_char (digit (a div ?p)) :: nat) < of_char (digit (b div ?p))" by simp
    then have "digit (a div ?p) < digit (b div ?p)" by (simp add: less_char_def)
    then show ?thesis by simp
  qed
qed simp


section \<open>The calendar\<close>

lemma split_by_sum:
  "n < sum_list ls \<Longrightarrow> split_by ls n = (i, r) \<Longrightarrow>
     i < length ls \<and> r < ls ! i \<and> n = sum_list (take i ls) + r"
proof (induction ls arbitrary: n i)
  case (Cons l ls)
  show ?case
  proof (cases "n < l")
    case False
    with Cons.prems obtain j where "split_by ls (n - l) = (j, r)" "i = Suc j"
      by (auto split: prod.splits)
    moreover from this Cons.IH [of "n - l" j] Cons.prems False
    have "j < length ls \<and> r < ls ! j \<and> n - l = sum_list (take j ls) + r" by simp
    ultimately show ?thesis using False Cons.prems by (auto simp: less_diff_conv2)
  qed (use Cons.prems in auto)
qed simp

lemma split_by_inverse:
  "i < length ls \<Longrightarrow> r < ls ! i \<Longrightarrow> split_by ls (sum_list (take i ls) + r) = (i, r)"
proof (induction ls arbitrary: i)
  case (Cons l ls)
  then show ?case by (cases i) auto
qed simp

lemma sum_take_mono: "i \<le> j \<Longrightarrow> sum_list (take i ls) \<le> sum_list (take j (ls :: nat list))"
  by (auto simp: take_add dest!: le_Suc_ex)

lemma split_by_mono:
  assumes "n < n'" and "n' < sum_list ls" and "split_by ls n = (i, r)" and "split_by ls n' = (i', r')"
  shows "i < i' \<or> (i = i' \<and> r < r')"
proof -
  from assms have "n < sum_list ls" by simp
  note a = split_by_sum [OF this assms(3)] and b = split_by_sum [OF assms(2,4)]
  show ?thesis
  proof (rule ccontr)
    assume no: "\<not> ?thesis"
    have "i' < i" using no a b assms(1) by (cases i i' rule: linorder_cases) auto
    then have "sum_list (take (Suc i') ls) \<le> sum_list (take i ls)" by (intro sum_take_mono) simp
    then have "sum_list (take i' ls) + ls ! i' \<le> sum_list (take i ls)"
      using b by (simp add: take_Suc_conv_app_nth)
    with a b assms(1) show False by linarith
  qed
qed

lemma years_sum:
  "sum_list (map (\<lambda>k. year_days (1 + int k)) [0..<n]) + n div 100 = 365 * n + n div 4 + n div 400"
proof (induction n)
  case (Suc n)
  have mod: "(1 + int n) mod int c = 0 \<longleftrightarrow> Suc n mod c = 0" for c
    by (metis of_nat_Suc of_nat_eq_0_iff of_nat_mod)
  have "leap (1 + int n) \<longleftrightarrow> Suc n mod 4 = 0 \<and> (Suc n mod 100 \<noteq> 0 \<or> Suc n mod 400 = 0)"
    using mod [of 4] mod [of 100] mod [of 400] by (simp add: leap_def)
  moreover have "Suc n mod 400 = 0 \<Longrightarrow> Suc n mod 100 = 0" and "Suc n mod 100 = 0 \<Longrightarrow> Suc n mod 4 = 0"
    by presburger+
  ultimately show ?case using Suc by (simp add: year_days_def div_Suc)
qed simp

lemma cycle_sum: "sum_list cycle_years = 146097"
  using years_sum [of 400] by (simp add: cycle_years_def)

lemma length_cycle [simp]: "length cycle_years = 400"
  by (simp add: cycle_years_def)

lemma year_days_cycle: "year_days (1 + 400 * q + int k) = year_days (1 + int k)"
proof -
  have "(1 + 400 * q + int k) mod n = (1 + int k) mod n" if "n dvd 400" for n :: int
  proof -
    from that obtain c where "400 = n * c" by (rule dvdE)
    then have "1 + 400 * q + int k = (1 + int k) + n * (c * q)" by (simp add: mult.assoc)
    then show ?thesis by (metis mod_mult_self2)
  qed
  from this [of 4] this [of 100] this [of 400] show ?thesis
    by (simp add: year_days_def leap_def)
qed

lemma month_sum: "sum_list (month_days y) = year_days y"
  by (simp add: month_days_def year_days_def)

lemma length_month_days [simp]: "length (month_days y) = 12"
  by (simp add: month_days_def)

lemma civil_parts:
  assumes "civil d = (y, m, dd)"
  obtains k yday m0 dd0 where
    "split_by cycle_years (nat (d mod 146097)) = (k, yday)"
    "split_by (month_days y) yday = (m0, dd0)"
    "y = 1 + 400 * (d div 146097) + int k" "m = Suc m0" "dd = Suc dd0"
    "k < 400" "yday < year_days y" "m0 < 12" "dd0 < month_days y ! m0"
    "nat (d mod 146097) = sum_list (take k cycle_years) + yday"
    "yday = sum_list (take m0 (month_days y)) + dd0"
proof -
  obtain k yday where s: "split_by cycle_years (nat (d mod 146097)) = (k, yday)" by force
  have "nat (d mod 146097) < sum_list cycle_years"
    using pos_mod_bound [of 146097 d] by (simp add: cycle_sum nat_less_iff)
  from split_by_sum [OF this s] have k: "k < 400" "yday < cycle_years ! k"
    "nat (d mod 146097) = sum_list (take k cycle_years) + yday" by auto
  let ?y = "1 + 400 * (d div 146097) + int k"
  have yd: "yday < year_days ?y"
    using k(1,2) by (simp add: year_days_cycle) (simp add: cycle_years_def)
  obtain m0 dd0 where s': "split_by (month_days ?y) yday = (m0, dd0)" by force
  from assms s s' have eq: "y = ?y" "m = Suc m0" "dd = Suc dd0"
    by (auto simp: civil_def Let_def)
  from yd have "yday < sum_list (month_days ?y)" by (simp add: month_sum)
  from split_by_sum [OF this s'] have "m0 < 12" "dd0 < month_days ?y ! m0"
    "yday = sum_list (take m0 (month_days ?y)) + dd0" by auto
  with s s' k(1,3) yd eq show thesis by (intro that) simp_all
qed

lemma month_days_le: "i < 12 \<Longrightarrow> month_days y ! i \<le> 31"
proof -
  have "\<forall>x \<in> set (month_days y). x \<le> 31" by (simp add: month_days_def)
  then show "i < 12 \<Longrightarrow> month_days y ! i \<le> 31" by (metis length_month_days nth_mem)
qed

lemma civil_bounds:
  "civil d = (y, m, dd) \<Longrightarrow> 1 \<le> m \<and> m \<le> 12 \<and> 1 \<le> dd \<and> dd \<le> 31 \<and> dd \<le> month_days y ! (m - 1)"
proof -
  assume "civil d = (y, m, dd)"
  then obtain m0 dd0 where "m = Suc m0" "dd = Suc dd0" "m0 < 12" "dd0 < month_days y ! m0"
    by (rule civil_parts)
  with month_days_le [of m0 y] show ?thesis by simp
qed

lemma days_of_civil_civil:
  assumes "civil d = (y, m, dd)"
  shows "days_of_civil y m dd = d"
proof -
  from assms obtain k yday m0 dd0 where *:
    "y = 1 + 400 * (d div 146097) + int k" "m = Suc m0" "dd = Suc dd0" "k < 400"
    "nat (d mod 146097) = sum_list (take k cycle_years) + yday"
    "yday = sum_list (take m0 (month_days y)) + dd0"
    by (rule civil_parts)
  then have "(y - 1) div 400 = d div 146097" and "(y - 1) mod 400 = int k"
    by (simp_all add: div_mult_self4)
  moreover have "int (sum_list (take k cycle_years)) + int yday = d mod 146097"
    using * by (metis int_nat_eq of_nat_add pos_mod_sign zero_less_numeral)
  moreover have "nat ((y - 1) mod 400) = k" using calculation(2) by simp
  ultimately have "days_of_civil y m dd = d div 146097 * 146097 + int (sum_list (take k cycle_years)) + int yday"
    using *(2,3,6) by (simp add: days_of_civil_def)
  with div_mult_mod_eq [of d 146097] \<open>_ = d mod 146097\<close> show ?thesis by linarith
qed

lemma civil_mono:
  assumes "d < d'" and "civil d = (y, m, dd)" and "civil d' = (y', m', dd')"
  shows "y < y' \<or> (y = y' \<and> (m < m' \<or> (m = m' \<and> dd < dd')))"
proof -
  from assms(2) obtain k yday m0 dd0 where a:
    "split_by cycle_years (nat (d mod 146097)) = (k, yday)" "split_by (month_days y) yday = (m0, dd0)"
    "y = 1 + 400 * (d div 146097) + int k" "m = Suc m0" "dd = Suc dd0" "k < 400"
    by (rule civil_parts)
  from assms(3) obtain k' yday' m0' dd0' where b:
    "split_by cycle_years (nat (d' mod 146097)) = (k', yday')" "split_by (month_days y') yday' = (m0', dd0')"
    "y' = 1 + 400 * (d' div 146097) + int k'" "m' = Suc m0'" "dd' = Suc dd0'" "k' < 400"
    "yday' < year_days y'"
    by (rule civil_parts)
  show ?thesis
  proof (cases "d div 146097 = d' div 146097")
    case False
    then have "d div 146097 < d' div 146097" using assms(1) by (simp add: order_less_le zdiv_mono1)
    with a b show ?thesis by linarith
  next
    case True
    then have "nat (d mod 146097) < nat (d' mod 146097)"
      using assms(1) div_mult_mod_eq [of d 146097] div_mult_mod_eq [of d' 146097]
        pos_mod_sign [of 146097 d]
      by (subst nat_less_eq_zless) linarith+
    moreover have "nat (d' mod 146097) < sum_list cycle_years"
      using pos_mod_bound [of 146097 d'] by (simp add: cycle_sum nat_less_iff)
    ultimately consider "k < k'" | "k = k'" "yday < yday'"
      using split_by_mono a(1) b(1) by blast
    then show ?thesis
    proof cases
      case 1
      with True a b show ?thesis by simp
    next
      case 2
      with True a b have "y = y'" by simp
      moreover have "m0 < m0' \<or> (m0 = m0' \<and> dd0 < dd0')"
        using split_by_mono [OF 2(2) _ a(2)] b(2,7) \<open>y = y'\<close> by (simp add: month_sum)
      ultimately show ?thesis using a b by simp
    qed
  qed
qed


section \<open>Texts\<close>

lemma append_less_append: "length a = length b \<Longrightarrow> a < b \<Longrightarrow> a @ x < b @ (y :: string)"
  by (induction a b rule: list_induct2) auto

lemma append_less_same [simp]: "a @ x < a @ y \<longleftrightarrow> x < (y :: string)"
  by (induction a) auto

lemma digits_step: "a < b \<Longrightarrow> b < 10 ^ w \<Longrightarrow> digits w a @ x < digits w b @ y"
  by (simp add: append_less_append digits_mono)

lemma civil_year:
  "civil (400 * 365 + 97 - 366 - 146097) = (0, 1, 1)" "civil (25 * 146097 - 366) = (10000, 1, 1)"
proof -
  have s: "split_by cycle_years 145731 = (399, 0)"
    using split_by_inverse [of 399 cycle_years 0] years_sum [of 399]
    by (simp add: cycle_years_def take_map year_days_def)
  have "split_by (month_days y) 0 = (0, 0)" for y
    by (simp add: month_days_def)
  with s show "civil (400 * 365 + 97 - 366 - 146097) = (0, 1, 1)"
    and "civil (25 * 146097 - 366) = (10000, 1, 1)"
    by (simp_all add: civil_def)
qed

lemma four_digits:
  assumes "four_digit_year t" and "civil (unix_days + t div second div 86400) = (y, m, d)"
  shows "0 \<le> y" and "y < 10000"
proof -
  let ?d = "unix_days + t div second div 86400"
  from assms(1) have "- 366 \<le> ?d" and "?d < 25 * 146097 - 366"
    unfolding four_digit_year_def unix_days_def by linarith+
  then have "- 366 = ?d \<or> - 366 < ?d" by linarith
  then show "0 \<le> y"
    using civil_mono [OF _ civil_year(1), of ?d] civil_mono [of "- 366" ?d 0 1 1 y m d] civil_year(1) assms(2)
    by auto
  have "1 \<le> m" "1 \<le> d" using civil_bounds [OF assms(2)] by auto
  then show "y < 10000"
    using civil_mono [OF \<open>?d < 25 * 146097 - 366\<close> assms(2) civil_year(2)] by auto
qed

lemma ndigits_le: "n < 10 ^ w \<Longrightarrow> 0 < w \<Longrightarrow> ndigits n \<le> w"
proof (induction w arbitrary: n)
  case (Suc w)
  show ?case
  proof (cases "n < 10")
    case True
    then show ?thesis by (simp add: ndigits.simps)
  next
    case False
    with Suc.prems have "0 < w" by (cases w) auto
    moreover have "n div 10 < 10 ^ w" using Suc.prems by (simp add: less_mult_imp_div_less)
    ultimately show ?thesis using Suc.IH [of "n div 10"] False by (subst ndigits.simps) simp
  qed
qed simp

lemma year_text_4: "0 \<le> y \<Longrightarrow> y < 10000 \<Longrightarrow> year_text y = digits 4 (nat y)"
proof -
  assume y: "0 \<le> y" "y < 10000"
  then have "nat y < 10 ^ 4" by simp
  from ndigits_le [OF this] have "ndigits (nat y) \<le> 4" by simp
  with y show ?thesis by (simp add: year_text_def max_absorb1)
qed

text \<open>The stamp of an instant with a four-digit year, field by field.\<close>

lemma stamp_fields:
  assumes "four_digit_year t"
  obtains y m d r where "civil (unix_days + t div second div 86400) = (y, m, d)"
    "r = nat (t div second mod 86400)" "r < 86400" "0 \<le> y" "y < 10000"
    "1 \<le> m" "m \<le> 12" "1 \<le> d" "d \<le> 31" "d \<le> month_days y ! (m - 1)"
    "stamp (t div second) = digits 4 (nat y) @ ''-'' @ digits 2 m @ ''-'' @ digits 2 d @ ''T''
       @ digits 2 (r div 3600) @ '':'' @ digits 2 (r div 60 mod 60) @ '':'' @ digits 2 (r mod 60)"
proof -
  obtain y m d where c: "civil (unix_days + t div second div 86400) = (y, m, d)" by (metis prod_cases3)
  note y = four_digits [OF assms c]
  let ?r = "nat (t div second mod 86400)"
  have "?r < 86400" using pos_mod_bound [of 86400 "t div second"] by (simp add: nat_less_iff)
  moreover have "stamp (t div second) = digits 4 (nat y) @ ''-'' @ digits 2 m @ ''-'' @ digits 2 d @ ''T''
       @ digits 2 (?r div 3600) @ '':'' @ digits 2 (?r div 60 mod 60) @ '':'' @ digits 2 (?r mod 60)"
    using c year_text_4 [OF y] by (simp only: stamp_def Let_def prod.case)
  ultimately show thesis using that [OF c refl] y civil_bounds [OF c] by blast
qed

lemma radix_less:
  "a < b \<Longrightarrow> a div k < b div k \<or> (a div k = b div k \<and> a mod k < (b :: nat) mod k)"
  by (metis add_less_cancel_left div_le_mono div_mult_mod_eq le_neq_implies_less less_imp_le_nat)

lemma stamp_mono:
  assumes "four_digit_year t" and "four_digit_year t'" and less: "t div second < t' div second"
  shows "stamp (t div second) @ x < stamp (t' div second) @ x'"
proof -
  let ?s = "t div second" and ?s' = "t' div second"
  from assms(1) obtain y m d r where a: "civil (unix_days + ?s div 86400) = (y, m, d)"
    "r = nat (?s mod 86400)" "r < 86400" "0 \<le> y" "m \<le> 12" "d \<le> 31"
    and sa: "stamp ?s = digits 4 (nat y) @ ''-'' @ digits 2 m @ ''-'' @ digits 2 d @ ''T''
       @ digits 2 (r div 3600) @ '':'' @ digits 2 (r div 60 mod 60) @ '':'' @ digits 2 (r mod 60)"
    by (rule stamp_fields)
  from assms(2) obtain y' m' d' r' where b: "civil (unix_days + ?s' div 86400) = (y', m', d')"
    "r' = nat (?s' mod 86400)" "r' < 86400" "0 \<le> y'" "y' < 10000" "m' \<le> 12" "d' \<le> 31"
    and sb: "stamp ?s' = digits 4 (nat y') @ ''-'' @ digits 2 m' @ ''-'' @ digits 2 d' @ ''T''
       @ digits 2 (r' div 3600) @ '':'' @ digits 2 (r' div 60 mod 60) @ '':'' @ digits 2 (r' mod 60)"
    by (rule stamp_fields)
  consider "y < y'" | "y = y'" "m < m'" | "y = y'" "m = m'" "d < d'"
    | "y = y'" "m = m'" "d = d'" "r < r'"
  proof (cases "?s div 86400 = ?s' div 86400")
    case True
    then have "?s mod 86400 < ?s' mod 86400" using less by (metis div_mult_mod_eq add_less_cancel_left)
    then have "r < r'" unfolding a(2) b(2) by (subst nat_less_eq_zless) simp_all
    with True a(1) b(1) that(4) show thesis by simp
  next
    case False
    then have "unix_days + ?s div 86400 < unix_days + ?s' div 86400"
      using zdiv_mono1 [of ?s ?s' 86400] less by linarith
    from civil_mono [OF this a(1) b(1)] that show thesis by blast
  qed
  then show ?thesis
  proof cases
    case 1
    with a(4) b(4,5) have "nat y < nat y'" "nat y' < 10 ^ 4" by simp_all
    then show ?thesis unfolding sa sb append_assoc by (rule digits_step)
  next
    case 2
    with b(6) show ?thesis unfolding sa sb append_assoc 2(1) append_less_same by (intro digits_step) simp_all
  next
    case 3
    with b(7) show ?thesis unfolding sa sb append_assoc 3(1,2) append_less_same
      by (intro digits_step) simp_all
  next
    case 4
    then consider "r div 3600 < r' div 3600"
      | "r div 3600 = r' div 3600" "r div 60 mod 60 < r' div 60 mod 60"
      | "r div 3600 = r' div 3600" "r div 60 mod 60 = r' div 60 mod 60" "r mod 60 < r' mod 60"
    proof -
      have h: "r div 60 div 60 = r div 3600" "r' div 60 div 60 = r' div 3600"
        by (simp_all add: div_mult2_eq [symmetric])
      have h': "r div 60 = r' div 60 \<Longrightarrow> r div 3600 = r' div 3600" using h by simp
      from radix_less [OF 4(4), of 60] radix_less [of "r div 60" "r' div 60" 60] that h'
      show thesis unfolding h by (cases "r div 60 = r' div 60") auto
    qed
    then show ?thesis
    proof cases
      case 1
      have "r' div 3600 < 10 ^ 2" using b(3) by simp
      with 1 show ?thesis unfolding sa sb append_assoc 4(1-3) append_less_same by (rule digits_step)
    next
      case 2
      have "r' div 60 mod 60 < 10 ^ 2" by (rule less_trans [OF mod_less_divisor]) simp_all
      with 2(2) show ?thesis unfolding sa sb append_assoc 4(1-3) 2(1) append_less_same by (rule digits_step)
    next
      case 3
      have "r' mod 60 < 10 ^ 2" by (rule less_trans [OF mod_less_divisor]) simp_all
      with 3(3) show ?thesis unfolding sa sb append_assoc 4(1-3) 3(1,2) append_less_same by (rule digits_step)
    qed
  qed
qed

text \<open>The order of the texts is the order of the seconds.\<close>

lemma rfc3339_less:
  assumes "four_digit_year t" and "four_digit_year t'"
  shows "rfc3339 t < rfc3339 t' \<longleftrightarrow> t div second < t' div second"
    and "rfc3339 t \<le> rfc3339 t' \<longleftrightarrow> t div second \<le> t' div second"
    and "rfc3339 t = rfc3339 t' \<longleftrightarrow> t div second = t' div second"
proof -
  note lt = stamp_mono [OF assms, of "''Z''" "''Z''", folded rfc3339_def]
    and gt = stamp_mono [OF assms(2,1), of "''Z''" "''Z''", folded rfc3339_def]
  have eq: "t div second = t' div second \<Longrightarrow> rfc3339 t = rfc3339 t'" by (simp add: rfc3339_def)
  consider "t div second < t' div second" | "t div second = t' div second" | "t' div second < t div second"
    by linarith
  then show "rfc3339 t < rfc3339 t' \<longleftrightarrow> t div second < t' div second"
    and "rfc3339 t \<le> rfc3339 t' \<longleftrightarrow> t div second \<le> t' div second"
    and "rfc3339 t = rfc3339 t' \<longleftrightarrow> t div second = t' div second"
    using lt eq gt by (cases; force)+
qed


section \<open>Parsing\<close>

lemma get_num_digits [simp]:
  "n < 10 ^ w \<Longrightarrow> get_num w (digits w n @ x) = Some (n, x)"
  using digits_are_digits [of w n] by (simp add: get_num_def)

lemma strip_zeros:
  obtains k where "s = rev (dropWhile (\<lambda>c. c = z) (rev s)) @ replicate k z"
proof -
  have "s = rev (dropWhile (\<lambda>c. c = z) (rev s)) @ rev (takeWhile (\<lambda>c. c = z) (rev s))"
    by (metis rev_append rev_rev_ident takeWhile_dropWhile_id)
  moreover have "takeWhile (\<lambda>c. c = z) l = replicate (length (takeWhile (\<lambda>c. c = z) l)) z" for l :: "'a list"
    by (induction l) auto
  then have "rev (takeWhile (\<lambda>c. c = z) (rev s)) = replicate (length (takeWhile (\<lambda>c. c = z) (rev s))) z"
    by (metis rev_replicate)
  ultimately show thesis using that by metis
qed

lemma num_of_zeros: "num_of (replicate k (CHR ''0'')) = 0"
  by (induction k) (simp_all add: num_of_def)

lemma get_frac_Z [simp]: "get_frac ''Z'' = (0, ''Z'')"
  by (simp add: get_frac_def)

lemma get_frac_text:
  assumes "n < 10 ^ 9"
  shows "get_frac (frac_text n @ ''Z'') = (n, ''Z'')"
proof (cases "n = 0")
  case True
  then show ?thesis by (simp add: frac_text_def)
next
  case False
  obtain u k where u: "u = rev (dropWhile (\<lambda>c. c = CHR ''0'') (rev (digits 9 n)))"
    and k: "digits 9 n = u @ replicate k (CHR ''0'')"
    using strip_zeros [of "digits 9 n"] by metis
  have "u \<noteq> []" using num_of_digits [OF assms] num_of_zeros [of k] k False by fastforce
  then obtain c v where cv: "u = c # v" by (cases u) auto
  have dig: "list_all is_digit u" using digits_are_digits [of 9 n] k by simp
  have Z: "\<not> is_digit (CHR ''Z'')" by (simp add: is_digit_def)
  have all: "\<forall>d \<in> set u. is_digit d" using dig by (simp add: list_all_iff)
  then have tw: "takeWhile is_digit (u @ ''Z'') = u" and dw: "dropWhile is_digit (u @ ''Z'') = ''Z''"
    using Z by (simp_all add: takeWhile_append2 dropWhile_append2)
  have "length u + k = 9" using k length_digits [of 9 n] by (metis length_append length_replicate)
  then have "take 9 (u @ replicate 9 (CHR ''0'')) = digits 9 n"
    by (simp add: k)
  moreover have "frac_text n @ ''Z'' = CHR ''.'' # u @ ''Z''" using False u by (simp add: frac_text_def)
  ultimately show ?thesis
    using tw dw dig cv num_of_digits [OF assms] by (simp add: get_frac_def)
qed

lemma stamp_instant:
  assumes "civil (unix_days + s div 86400) = (y, m, d)" and "r = nat (s mod 86400)"
  shows "(days_of_civil y m d - unix_days) * 86400
      + int (r div 3600 * 3600 + r div 60 mod 60 * 60 + r mod 60) = s"
proof -
  have "r div 3600 = r div 60 div 60" by (simp add: div_mult2_eq [symmetric])
  then have "r div 3600 * 3600 + r div 60 mod 60 * 60 + r mod 60 = r"
    using div_mult_mod_eq [of r 60] div_mult_mod_eq [of "r div 60" 60] by linarith
  then show ?thesis
    using div_mult_mod_eq [of s 86400] by (simp only: days_of_civil_civil [OF assms(1)] assms(2)) simp
qed

lemma parse_stamp:
  assumes t: "four_digit_year t" and n: "n < 10 ^ 9"
  shows "parse_rfc3339 (stamp (t div second) @ frac_text n @ ''Z'') = Some (t div second * second + int n)"
proof -
  from t obtain y m d r where c: "civil (unix_days + t div second div 86400) = (y, m, d)"
    and r: "r = nat (t div second mod 86400)" "r < 86400" and y: "0 \<le> y" "y < 10000"
    and md: "1 \<le> m" "m \<le> 12" "1 \<le> d" "d \<le> 31" "d \<le> month_days y ! (m - 1)"
    and st: "stamp (t div second) = digits 4 (nat y) @ ''-'' @ digits 2 m @ ''-'' @ digits 2 d @ ''T''
       @ digits 2 (r div 3600) @ '':'' @ digits 2 (r div 60 mod 60) @ '':'' @ digits 2 (r mod 60)"
    by (rule stamp_fields)
  have hms: "r div 3600 < 24" "r div 60 mod 60 < 60" "r mod 60 < 60" using r(2) by (simp_all add: less_mult_imp_div_less)
  have small: "nat y < 10 ^ 4" "m < 10 ^ 2" "d < 10 ^ 2" "r div 3600 < 10 ^ 2"
    "r div 60 mod 60 < 10 ^ 2" "r mod 60 < 10 ^ 2"
    using y md hms by simp_all
  note get_num_digits [OF small(1)] get_num_digits [OF small(2)] get_num_digits [OF small(3)]
    get_num_digits [OF small(4)] get_num_digits [OF small(5)] get_num_digits [OF small(6)]
  moreover have "get_hour (digits 2 (r div 3600) @ x) = Some (r div 3600, x)" for x
    by (simp add: get_hour_def get_num_digits [OF small(4)])
  ultimately show ?thesis
    using md hms y get_frac_text [OF n] stamp_instant [OF c r(1)]
    by (simp add: parse_rfc3339_def st get_zone_def del: digits.simps)
qed

text \<open>Formatting to seconds and parsing back cuts an instant to its second.\<close>

lemma parse_rfc3339_rfc3339:
  "four_digit_year t \<Longrightarrow> parse_rfc3339 (rfc3339 t) = Some (t div second * second)"
  using parse_stamp [of t 0] by (simp add: rfc3339_def frac_text_def)

lemma parse_rfc3339_nano:
  assumes "four_digit_year t"
  shows "parse_rfc3339 (rfc3339nano t) = Some t"
proof -
  have "nat (t mod second) < 10 ^ 9" by (simp add: nat_less_iff)
  from parse_stamp [OF assms this] show ?thesis by (simp add: rfc3339nano_def)
qed

end
