(* ===== verification/Json.thy ===== *)
theory Json
  imports GoTime
begin

text \<open>
  Package encoding/json as the source uses it, on JSON values: struct decoding (keys matched
  without regard to case, unknown keys skipped, the last of two equal keys wins, null leaves
  a field alone, a value of the wrong type is an error) and the field encoders with
  \<^verbatim>\<open>omitempty\<close>. The text syntax of JSON is not modelled: a message on the wire is a JSON value,
  or \<^const>\<open>None\<close> when its bytes are not JSON.
\<close>

section \<open>Values and structs\<close>

datatype json =
    JNull
  | JBool bool
  | JNum int
  | JFloat string
  | JStr string
  | JArr "json list"
  | JObj "(string \<times> json) list"

type_synonym wire = "json option"
type_synonym meta = "(string, string) gomap option"

text \<open>
  Key folding: ASCII letters lose their case; the long s (C5 BF) and the Kelvin sign
  (E2 84 AA) fold to the letters they look like.
\<close>

definition lower :: "char \<Rightarrow> char" where
  "lower c = (if CHR ''A'' \<le> c \<and> c \<le> CHR ''Z'' then char_of ((of_char c :: nat) + 32) else c)"

fun fold_key :: "string \<Rightarrow> string" where
  "fold_key (a # b # c # s) =
     (if a = CHR 0xE2 \<and> b = CHR 0x84 \<and> c = CHR 0xAA then CHR ''k'' # fold_key s
      else if a = CHR 0xC5 \<and> b = CHR 0xBF then CHR ''s'' # fold_key (c # s)
      else lower a # fold_key (b # c # s))"
| "fold_key [a, b] =
     (if a = CHR 0xC5 \<and> b = CHR 0xBF then ''s'' else [lower a, lower b])"
| "fold_key [a] = [lower a]"
| "fold_key [] = []"

type_synonym 'r field = "json \<Rightarrow> 'r \<Rightarrow> 'r option"

fun dec_fields :: "(string \<times> 'r field) list \<Rightarrow> (string \<times> json) list \<Rightarrow> 'r \<Rightarrow> 'r option" where
  "dec_fields fs [] r = Some r"
| "dec_fields fs ((k, v) # kvs) r =
     (case map_of fs (fold_key k) of
        None \<Rightarrow> dec_fields fs kvs r
      | Some d \<Rightarrow> Option.bind (d v r) (dec_fields fs kvs))"

text \<open>\<^verbatim>\<open>json.Unmarshal(data, &r)\<close> for a struct with fields \<open>fs\<close>; \<open>r\<close> is its value before.\<close>

definition dec_struct :: "(string \<times> 'r field) list \<Rightarrow> 'r \<Rightarrow> json \<Rightarrow> 'r option" where
  "dec_struct fs r j = (case j of JNull \<Rightarrow> Some r | JObj kvs \<Rightarrow> dec_fields fs kvs r | _ \<Rightarrow> None)"

definition unmarshal :: "(json \<Rightarrow> 'r option) \<Rightarrow> wire \<Rightarrow> 'r option" where
  "unmarshal d w = Option.bind w d"

section \<open>Fields\<close>

type_synonym ('a, 'r) upd = "('a \<Rightarrow> 'a) \<Rightarrow> 'r \<Rightarrow> 'r"

definition int64 :: "int \<Rightarrow> bool" where
  "int64 i \<longleftrightarrow> - (2 ^ 63) \<le> i \<and> i < 2 ^ 63"

text \<open>
  \<^verbatim>\<open>time.Time\<close> decodes by the strict reading of RFC 3339, which refuses what \<^verbatim>\<open>time.Parse\<close>
  lets through: a one-digit hour, a comma, an offset of 24 hours or 60 minutes.
\<close>

definition parse_strict :: "string \<Rightarrow> time option" where
  "parse_strict s = Option.bind (parse_rfc3339 s) (\<lambda>t.
     let zone = drop (length s - 5) s in
     if s ! 12 = CHR '':'' \<or> s ! 19 = CHR '','' \<or>
        (last s \<noteq> CHR ''Z'' \<and> (num_of (take 2 zone) \<ge> 24 \<or> num_of (drop 3 zone) \<ge> 60))
     then None else Some t)"

definition d_str :: "(string, 'r) upd \<Rightarrow> 'r field" where
  "d_str u v r = (case v of JNull \<Rightarrow> Some r | JStr s \<Rightarrow> Some (u (\<lambda>_. s) r) | _ \<Rightarrow> None)"

definition d_int :: "(int, 'r) upd \<Rightarrow> 'r field" where
  "d_int u v r = (case v of JNull \<Rightarrow> Some r
     | JNum i \<Rightarrow> if int64 i then Some (u (\<lambda>_. i) r) else None | _ \<Rightarrow> None)"

definition d_bool :: "(bool, 'r) upd \<Rightarrow> 'r field" where
  "d_bool u v r = (case v of JNull \<Rightarrow> Some r | JBool b \<Rightarrow> Some (u (\<lambda>_. b) r) | _ \<Rightarrow> None)"

text \<open>Pointers: null is nil.\<close>

definition d_boolp :: "(bool option, 'r) upd \<Rightarrow> 'r field" where
  "d_boolp u v r = (case v of JNull \<Rightarrow> Some (u (\<lambda>_. None) r)
     | JBool b \<Rightarrow> Some (u (\<lambda>_. Some b) r) | _ \<Rightarrow> None)"

definition d_time :: "(time, 'r) upd \<Rightarrow> 'r field" where
  "d_time u v r = (case v of JNull \<Rightarrow> Some r
     | JStr s \<Rightarrow> map_option (\<lambda>t. u (\<lambda>_. t) r) (parse_strict s) | _ \<Rightarrow> None)"

definition d_timep :: "(time option, 'r) upd \<Rightarrow> 'r field" where
  "d_timep u v r = (case v of JNull \<Rightarrow> Some (u (\<lambda>_. None) r)
     | JStr s \<Rightarrow> map_option (\<lambda>t. u (\<lambda>_. Some t) r) (parse_strict s) | _ \<Rightarrow> None)"

text \<open>String slices and maps: a null element is the empty string; nil and empty slices are one.\<close>

fun str_elem :: "json \<Rightarrow> string option" where
  "str_elem JNull = Some ''''"
| "str_elem (JStr s) = Some s"
| "str_elem _ = None"

fun str_elems :: "json list \<Rightarrow> string list option" where
  "str_elems [] = Some []"
| "str_elems (v # vs) = Option.bind (str_elem v) (\<lambda>s. map_option ((#) s) (str_elems vs))"

definition d_strs :: "(string list, 'r) upd \<Rightarrow> 'r field" where
  "d_strs u v r = (case v of JNull \<Rightarrow> Some (u (\<lambda>_. []) r)
     | JArr vs \<Rightarrow> map_option (\<lambda>ss. u (\<lambda>_. ss) r) (str_elems vs) | _ \<Rightarrow> None)"

fun str_entries :: "(string \<times> json) list \<Rightarrow> (string, string) gomap \<Rightarrow> (string, string) gomap option" where
  "str_entries [] m = Some m"
| "str_entries ((k, v) # kvs) m = Option.bind (str_elem v) (\<lambda>s. str_entries kvs (gm_set k s m))"

text \<open>A map that is already there is filled further; null makes it nil.\<close>

definition dec_meta :: "json \<Rightarrow> meta \<Rightarrow> meta option" where
  "dec_meta v m = (case v of JNull \<Rightarrow> Some None
     | JObj kvs \<Rightarrow> map_option Some (str_entries kvs (case m of None \<Rightarrow> [] | Some m \<Rightarrow> m))
     | _ \<Rightarrow> None)"

definition d_meta :: "('r \<Rightarrow> meta) \<Rightarrow> (meta, 'r) upd \<Rightarrow> 'r field" where
  "d_meta get u v r = map_option (\<lambda>m. u (\<lambda>_. m) r) (dec_meta v (get r))"

text \<open>A nested struct is decoded into its present value; a pointer to one is allocated.\<close>

definition d_sub :: "('a \<Rightarrow> json \<Rightarrow> 'a option) \<Rightarrow> ('r \<Rightarrow> 'a) \<Rightarrow> ('a, 'r) upd \<Rightarrow> 'r field" where
  "d_sub d get u v r = map_option (\<lambda>a. u (\<lambda>_. a) r) (d (get r) v)"

section \<open>Encoders\<close>

type_synonym entries = "(string \<times> json) list"

definition e_str :: "string \<Rightarrow> string \<Rightarrow> entries" where
  "e_str k s = [(k, JStr s)]"

definition e_str_opt :: "string \<Rightarrow> string \<Rightarrow> entries" where
  "e_str_opt k s = (if s = '''' then [] else [(k, JStr s)])"

definition e_int_opt :: "string \<Rightarrow> int \<Rightarrow> entries" where
  "e_int_opt k i = (if i = 0 then [] else [(k, JNum i)])"

definition e_boolp_opt :: "string \<Rightarrow> bool option \<Rightarrow> entries" where
  "e_boolp_opt k b = (case b of None \<Rightarrow> [] | Some b \<Rightarrow> [(k, JBool b)])"

definition e_time :: "string \<Rightarrow> time \<Rightarrow> entries" where
  "e_time k t = [(k, JStr (rfc3339nano t))]"

definition e_timep_opt :: "string \<Rightarrow> time option \<Rightarrow> entries" where
  "e_timep_opt k t = (case t of None \<Rightarrow> [] | Some t \<Rightarrow> [(k, JStr (rfc3339nano t))])"

definition e_strs :: "string \<Rightarrow> string list \<Rightarrow> entries" where
  "e_strs k ss = [(k, JArr (map JStr ss))]"

definition e_strs_opt :: "string \<Rightarrow> string list \<Rightarrow> entries" where
  "e_strs_opt k ss = (if ss = [] then [] else [(k, JArr (map JStr ss))])"

text \<open>Maps are written in the order of their keys.\<close>

definition meta_json :: "(string, string) gomap \<Rightarrow> json" where
  "meta_json m = JObj (map (\<lambda>(k, v). (k, JStr v)) (sort_key fst m))"

definition e_meta_opt :: "string \<Rightarrow> meta \<Rightarrow> entries" where
  "e_meta_opt k m = (case m of None \<Rightarrow> [] | Some [] \<Rightarrow> [] | Some m \<Rightarrow> [(k, meta_json m)])"

text \<open>What a map is after a round trip: nil when empty, else its entries in key order.\<close>

definition norm_meta :: "meta \<Rightarrow> meta" where
  "norm_meta m = (case m of None \<Rightarrow> None | Some [] \<Rightarrow> None | Some m \<Rightarrow> Some (sort_key fst m))"

definition meta_ok :: "meta \<Rightarrow> bool" where
  "meta_ok m = (case m of None \<Rightarrow> True | Some m \<Rightarrow> gm_ok m)"

section \<open>Round trips of fields\<close>

lemma dec_fields_append:
  "dec_fields fs (a @ b) r = Option.bind (dec_fields fs a r) (dec_fields fs b)"
  by (induction a arbitrary: r) (auto split: option.splits Option.bind_splits)

lemma length_stamp: "four_digit_year t \<Longrightarrow> length (stamp (t div second)) = 19"
  by (erule stamp_fields) (simp del: digits.simps)

lemma stamp_12:
  assumes "four_digit_year t"
  shows "stamp (t div second) ! 12 \<noteq> CHR '':''"
proof -
  from assms obtain y m d r where st: "stamp (t div second) = digits 4 (nat y) @ ''-'' @ digits 2 m @ ''-'' @ digits 2 d @ ''T''
       @ digits 2 (r div 3600) @ '':'' @ digits 2 (r div 60 mod 60) @ '':'' @ digits 2 (r mod 60)"
    by (rule stamp_fields)
  have "stamp (t div second) ! 12 = digits 2 (r div 3600) ! 1"
    unfolding st by (simp del: digits.simps add: nth_append)
  moreover have "is_digit (digits 2 (r div 3600) ! 1)"
    using digits_are_digits [of 2 "r div 3600"] by (simp add: list_all_length del: digits.simps)
  ultimately show ?thesis by (auto simp: is_digit_def)
qed

lemma parse_strict_nano [simp]:
  assumes "four_digit_year t"
  shows "parse_strict (rfc3339nano t) = Some t"
proof -
  let ?s = "rfc3339nano t"
  have "?s ! 12 \<noteq> CHR '':''"
    using stamp_12 [OF assms] length_stamp [OF assms] by (simp add: rfc3339nano_def nth_append)
  moreover have "?s ! 19 \<noteq> CHR '',''"
    using length_stamp [OF assms] by (auto simp: rfc3339nano_def nth_append frac_text_def)
  moreover have "last ?s = CHR ''Z''" by (simp add: rfc3339nano_def)
  ultimately show ?thesis
    by (simp add: parse_strict_def parse_rfc3339_nano [OF assms] Let_def)
qed

lemma str_elems_map [simp]: "str_elems (map JStr ss) = Some ss"
  by (induction ss) auto

lemma str_entries_fresh:
  "distinct (map fst kvs) \<Longrightarrow> fst ` set kvs \<inter> fst ` set m = {} \<Longrightarrow>
     str_entries (map (\<lambda>(k, v). (k, JStr v)) kvs) m = Some (m @ kvs)"
proof (induction kvs arbitrary: m)
  case (Cons kv kvs)
  obtain k v where kv: "kv = (k, v)" by force
  with Cons.prems have "k \<notin> fst ` set m" by simp
  then have "gm_set k v m = m @ [(k, v)]"
    by (induction m) (auto simp: gm_set_def)
  moreover have "fst ` set kvs \<inter> fst ` set (m @ [(k, v)]) = {}"
    using Cons.prems kv by auto
  ultimately show ?case using Cons.IH [of "m @ [(k, v)]"] Cons.prems kv by simp
qed simp

lemma dec_meta_json [simp]: "gm_ok m \<Longrightarrow> dec_meta (meta_json m) None = Some (Some (sort_key fst m))"
proof -
  assume "gm_ok m"
  then have "distinct (map fst (sort_key fst m))"
    unfolding gm_ok_def by (subst mset_eq_imp_distinct_iff [of _ "map fst m"]) simp_all
  then show ?thesis by (simp add: dec_meta_def meta_json_def str_entries_fresh)
qed

end
