(* ===== verification/Payload.thy ===== *)
theory Payload
  imports Json
begin

text \<open>
  Package payload (cli/internal/payload): the messages of the wire as records, with the struct
  decoders and encoders their JSON tags describe, and the test by which the commands tell an
  error envelope from a response (command/response.go). A string type of the source
  (\<^verbatim>\<open>ResponseType\<close>, \<^verbatim>\<open>Priority\<close>, \<^verbatim>\<open>FlowStatus\<close>, \<^verbatim>\<open>InterjectionAction\<close>) accepts any string when
  decoded, so it is a string here too.
\<close>

section \<open>Enumerations\<close>

definition ResponseNone :: string where "ResponseNone = ''none''"
definition ResponseBoolean :: string where "ResponseBoolean = ''boolean''"
definition ResponseChoice :: string where "ResponseChoice = ''choice''"
definition ResponseText :: string where "ResponseText = ''text''"

definition PriorityLow :: string where "PriorityLow = ''low''"
definition PriorityNormal :: string where "PriorityNormal = ''normal''"
definition PriorityHigh :: string where "PriorityHigh = ''high''"

definition FlowActive :: string where "FlowActive = ''active''"
definition FlowCompleted :: string where "FlowCompleted = ''completed''"
definition FlowFailed :: string where "FlowFailed = ''failed''"

definition InterjectionStop :: string where "InterjectionStop = ''stop''"
definition InterjectionPause :: string where "InterjectionPause = ''pause''"
definition InterjectionNote :: string where "InterjectionNote = ''note''"

lemmas enum_defs = ResponseNone_def ResponseBoolean_def ResponseChoice_def ResponseText_def
  PriorityLow_def PriorityNormal_def PriorityHigh_def FlowActive_def FlowCompleted_def FlowFailed_def
  InterjectionStop_def InterjectionPause_def InterjectionNote_def

text \<open>The keys of the workspace context in a lifecycle event's metadata.\<close>

definition MetaDisplayName :: string where "MetaDisplayName = ''workspace_display_name''"
definition MetaAbsPath :: string where "MetaAbsPath = ''workspace_abs_path''"

section \<open>Messages\<close>

record NotificationRequest =
  nr_ID :: "string"
  nr_FlowID :: "string"
  nr_DaemonID :: "string"
  nr_WorkspaceID :: "string"
  nr_Title :: "string"
  nr_Body :: "string"
  nr_ResponseTypes :: "string list"
  nr_Priority :: "string"
  nr_Source :: "string"
  nr_WorkspaceName :: "string"
  nr_Actions :: "string list"
  nr_TimeoutSec :: "int"
  nr_Timestamp :: "time"

definition zero_nr :: NotificationRequest where
  "zero_nr = \<lparr> nr_ID = '''',
     nr_FlowID = '''',
     nr_DaemonID = '''',
     nr_WorkspaceID = '''',
     nr_Title = '''',
     nr_Body = '''',
     nr_ResponseTypes = [],
     nr_Priority = '''',
     nr_Source = '''',
     nr_WorkspaceName = '''',
     nr_Actions = [],
     nr_TimeoutSec = 0,
     nr_Timestamp = zero_time \<rparr>"

definition nr_fields :: "(string \<times> NotificationRequest field) list" where
  "nr_fields =
    [(''id'', d_str nr_ID_update),
     (''flow_id'', d_str nr_FlowID_update),
     (''daemon_id'', d_str nr_DaemonID_update),
     (''workspace_id'', d_str nr_WorkspaceID_update),
     (''title'', d_str nr_Title_update),
     (''body'', d_str nr_Body_update),
     (''response_types'', d_strs nr_ResponseTypes_update),
     (''priority'', d_str nr_Priority_update),
     (''source'', d_str nr_Source_update),
     (''workspace_name'', d_str nr_WorkspaceName_update),
     (''actions'', d_strs nr_Actions_update),
     (''timeout_sec'', d_int nr_TimeoutSec_update),
     (''timestamp'', d_time nr_Timestamp_update)]"

definition dec_nr :: "json \<Rightarrow> NotificationRequest option" where
  "dec_nr = dec_struct nr_fields zero_nr"

definition enc_nr :: "NotificationRequest \<Rightarrow> json" where
  "enc_nr r = JObj (
     e_str ''id'' (nr_ID r) @
     e_str ''flow_id'' (nr_FlowID r) @
     e_str ''daemon_id'' (nr_DaemonID r) @
     e_str ''workspace_id'' (nr_WorkspaceID r) @
     e_str ''title'' (nr_Title r) @
     e_str_opt ''body'' (nr_Body r) @
     e_strs ''response_types'' (nr_ResponseTypes r) @
     e_str ''priority'' (nr_Priority r) @
     e_str ''source'' (nr_Source r) @
     e_str_opt ''workspace_name'' (nr_WorkspaceName r) @
     e_strs_opt ''actions'' (nr_Actions r) @
     e_int_opt ''timeout_sec'' (nr_TimeoutSec r) @
     e_time ''timestamp'' (nr_Timestamp r))"

record NotificationResponse =
  resp_RequestID :: "string"
  resp_Accepted :: "bool option"
  resp_Action :: "string"
  resp_Text :: "string"
  resp_Timestamp :: "time"

definition zero_resp :: NotificationResponse where
  "zero_resp = \<lparr> resp_RequestID = '''',
     resp_Accepted = None,
     resp_Action = '''',
     resp_Text = '''',
     resp_Timestamp = zero_time \<rparr>"

definition resp_fields :: "(string \<times> NotificationResponse field) list" where
  "resp_fields =
    [(''request_id'', d_str resp_RequestID_update),
     (''accepted'', d_boolp resp_Accepted_update),
     (''action'', d_str resp_Action_update),
     (''text'', d_str resp_Text_update),
     (''timestamp'', d_time resp_Timestamp_update)]"

definition dec_resp :: "json \<Rightarrow> NotificationResponse option" where
  "dec_resp = dec_struct resp_fields zero_resp"

definition enc_resp :: "NotificationResponse \<Rightarrow> json" where
  "enc_resp r = JObj (
     e_str ''request_id'' (resp_RequestID r) @
     e_boolp_opt ''accepted'' (resp_Accepted r) @
     e_str_opt ''action'' (resp_Action r) @
     e_str_opt ''text'' (resp_Text r) @
     e_time ''timestamp'' (resp_Timestamp r))"

record FlowLifecycleEvent =
  ev_FlowID :: "string"
  ev_DaemonID :: "string"
  ev_WorkspaceID :: "string"
  ev_Status :: "string"
  ev_Label :: "string"
  ev_Metadata :: "meta"
  ev_Timestamp :: "time"

definition zero_ev :: FlowLifecycleEvent where
  "zero_ev = \<lparr> ev_FlowID = '''',
     ev_DaemonID = '''',
     ev_WorkspaceID = '''',
     ev_Status = '''',
     ev_Label = '''',
     ev_Metadata = None,
     ev_Timestamp = zero_time \<rparr>"

definition ev_fields :: "(string \<times> FlowLifecycleEvent field) list" where
  "ev_fields =
    [(''flow_id'', d_str ev_FlowID_update),
     (''daemon_id'', d_str ev_DaemonID_update),
     (''workspace_id'', d_str ev_WorkspaceID_update),
     (''status'', d_str ev_Status_update),
     (''label'', d_str ev_Label_update),
     (''metadata'', d_meta ev_Metadata ev_Metadata_update),
     (''timestamp'', d_time ev_Timestamp_update)]"

definition dec_ev :: "json \<Rightarrow> FlowLifecycleEvent option" where
  "dec_ev = dec_struct ev_fields zero_ev"

definition enc_ev :: "FlowLifecycleEvent \<Rightarrow> json" where
  "enc_ev r = JObj (
     e_str ''flow_id'' (ev_FlowID r) @
     e_str ''daemon_id'' (ev_DaemonID r) @
     e_str ''workspace_id'' (ev_WorkspaceID r) @
     e_str ''status'' (ev_Status r) @
     e_str_opt ''label'' (ev_Label r) @
     e_meta_opt ''metadata'' (ev_Metadata r) @
     e_time ''timestamp'' (ev_Timestamp r))"

record InterjectionCommand =
  ij_FlowID :: "string"
  ij_Action :: "string"
  ij_Context :: "string"
  ij_Timestamp :: "time"

definition zero_ij :: InterjectionCommand where
  "zero_ij = \<lparr> ij_FlowID = '''',
     ij_Action = '''',
     ij_Context = '''',
     ij_Timestamp = zero_time \<rparr>"

definition ij_fields :: "(string \<times> InterjectionCommand field) list" where
  "ij_fields =
    [(''flow_id'', d_str ij_FlowID_update),
     (''action'', d_str ij_Action_update),
     (''context'', d_str ij_Context_update),
     (''timestamp'', d_time ij_Timestamp_update)]"

definition dec_ij :: "json \<Rightarrow> InterjectionCommand option" where
  "dec_ij = dec_struct ij_fields zero_ij"

definition enc_ij :: "InterjectionCommand \<Rightarrow> json" where
  "enc_ij r = JObj (
     e_str ''flow_id'' (ij_FlowID r) @
     e_str ''action'' (ij_Action r) @
     e_str_opt ''context'' (ij_Context r) @
     e_time ''timestamp'' (ij_Timestamp r))"

record ErrorResponse =
  er_CorrelationID :: "string"
  er_Code :: "string"
  er_Message :: "string"
  er_Timestamp :: "time"

definition zero_er :: ErrorResponse where
  "zero_er = \<lparr> er_CorrelationID = '''',
     er_Code = '''',
     er_Message = '''',
     er_Timestamp = zero_time \<rparr>"

definition er_fields :: "(string \<times> ErrorResponse field) list" where
  "er_fields =
    [(''correlation_id'', d_str er_CorrelationID_update),
     (''code'', d_str er_Code_update),
     (''message'', d_str er_Message_update),
     (''timestamp'', d_time er_Timestamp_update)]"

definition dec_er :: "json \<Rightarrow> ErrorResponse option" where
  "dec_er = dec_struct er_fields zero_er"

definition enc_er :: "ErrorResponse \<Rightarrow> json" where
  "enc_er r = JObj (
     e_str_opt ''correlation_id'' (er_CorrelationID r) @
     e_str ''code'' (er_Code r) @
     e_str ''message'' (er_Message r) @
     e_time ''timestamp'' (er_Timestamp r))"

section \<open>Telling errors from responses\<close>

record code_probe =
  probe_Code :: string

definition isErrorResponse :: "wire \<Rightarrow> bool" where
  "isErrorResponse data =
     (case unmarshal (dec_struct [(''code'', d_str probe_Code_update)] \<lparr> probe_Code = '''' \<rparr>) data of
        None \<Rightarrow> False
      | Some probe \<Rightarrow> probe_Code probe \<noteq> '''')"

section \<open>Round trips\<close>

text \<open>Keys of lower-case letters and underscores fold to themselves.\<close>

definition plain_char :: "char \<Rightarrow> bool" where
  "plain_char c \<longleftrightarrow> (of_char c :: nat) = 95 \<or> (97 \<le> (of_char c :: nat) \<and> (of_char c :: nat) \<le> 122)"

lemma fold_plain: "list_all plain_char k \<Longrightarrow> fold_key k = k"
proof -
  have "plain_char c \<Longrightarrow> lower c = c \<and> c \<noteq> CHR 0xE2 \<and> c \<noteq> CHR 0xC5" for c
    by (auto simp: plain_char_def lower_def less_eq_char_def)
  then show "list_all plain_char k \<Longrightarrow> fold_key k = k"
    by (induction k rule: fold_key.induct) auto
qed

declare fold_key.simps [simp del]

lemma fold_names [simp]:
  "fold_key ''id'' = ''id''" "fold_key ''flow_id'' = ''flow_id''"
  "fold_key ''daemon_id'' = ''daemon_id''" "fold_key ''workspace_id'' = ''workspace_id''"
  "fold_key ''title'' = ''title''" "fold_key ''body'' = ''body''"
  "fold_key ''response_types'' = ''response_types''" "fold_key ''priority'' = ''priority''"
  "fold_key ''source'' = ''source''" "fold_key ''workspace_name'' = ''workspace_name''"
  "fold_key ''actions'' = ''actions''" "fold_key ''timeout_sec'' = ''timeout_sec''"
  "fold_key ''timestamp'' = ''timestamp''" "fold_key ''request_id'' = ''request_id''"
  "fold_key ''accepted'' = ''accepted''" "fold_key ''action'' = ''action''"
  "fold_key ''text'' = ''text''" "fold_key ''status'' = ''status''"
  "fold_key ''label'' = ''label''" "fold_key ''metadata'' = ''metadata''"
  "fold_key ''context'' = ''context''" "fold_key ''correlation_id'' = ''correlation_id''"
  "fold_key ''code'' = ''code''" "fold_key ''message'' = ''message''"
  by (rule fold_plain; simp add: plain_char_def)+

text \<open>What decoding does to one encoded field, whether or not it was omitted.\<close>

definition field_at :: "(string \<times> 'r field) list \<Rightarrow> string \<Rightarrow> 'r field" where
  "field_at fs k = (case map_of fs (fold_key k) of None \<Rightarrow> (\<lambda>_ r. Some r) | Some d \<Rightarrow> d)"

definition omit :: "bool \<Rightarrow> 'r field \<Rightarrow> 'r field" where
  "omit c d v r = (if c then Some r else d v r)"

lemma dec_fields_Nil: "dec_fields fs [] = Some"
  by (rule ext) simp

lemma dec_e:
  "dec_fields fs (e_str k s) r = field_at fs k (JStr s) r"
  "dec_fields fs (e_str_opt k s) r = omit (s = '''') (field_at fs k) (JStr s) r"
  "dec_fields fs (e_int_opt k i) r = omit (i = 0) (field_at fs k) (JNum i) r"
  "dec_fields fs (e_boolp_opt k b) r = omit (b = None) (field_at fs k) (JBool (the b)) r"
  "dec_fields fs (e_time k t) r = field_at fs k (JStr (rfc3339nano t)) r"
  "dec_fields fs (e_strs k ss) r = field_at fs k (JArr (map JStr ss)) r"
  "dec_fields fs (e_strs_opt k ss) r = omit (ss = []) (field_at fs k) (JArr (map JStr ss)) r"
  "dec_fields fs (e_meta_opt k m) r = omit (norm_meta m = None) (field_at fs k) (meta_json (the m)) r"
  by (auto simp: e_str_def e_str_opt_def e_int_opt_def e_boolp_opt_def e_time_def e_strs_def
      e_strs_opt_def e_meta_opt_def norm_meta_def omit_def field_at_def dec_fields_Nil
      split: option.splits list.splits)

lemma d_values:
  "d_str u (JStr s) r = Some (u (\<lambda>_. s) r)"
  "d_strs u' (JArr (map JStr ss)) r' = Some (u' (\<lambda>_. ss) r')"
  by (simp_all add: d_str_def d_strs_def)

lemma d_time_value: "four_digit_year t \<Longrightarrow> d_time u (JStr (rfc3339nano t)) r = Some (u (\<lambda>_. t) r)"
  by (simp add: d_time_def)

lemma omit_values:
  "u1 (\<lambda>_. '''') r = r \<Longrightarrow> omit (s = '''') (d_str u1) (JStr s) r = Some (u1 (\<lambda>_. s) r)"
  "u2 (\<lambda>_. 0) r = r \<Longrightarrow> int64 i \<Longrightarrow> omit (i = 0) (d_int u2) (JNum i) r = Some (u2 (\<lambda>_. i) r)"
  "u3 (\<lambda>_. None) r = r \<Longrightarrow> omit (b = None) (d_boolp u3) (JBool (the b)) r = Some (u3 (\<lambda>_. b) r)"
  "u4 (\<lambda>_. []) r = r \<Longrightarrow> omit (ss = []) (d_strs u4) (JArr (map JStr ss)) r = Some (u4 (\<lambda>_. ss) r)"
  "u5 (\<lambda>_. None) r = r \<Longrightarrow> get r = None \<Longrightarrow> meta_ok m \<Longrightarrow>
     omit (norm_meta m = None) (d_meta get u5) (meta_json (the m)) r = Some (u5 (\<lambda>_. norm_meta m) r)"
  by (auto simp: omit_def d_str_def d_int_def d_boolp_def d_strs_def d_meta_def norm_meta_def meta_ok_def
      split: option.splits list.splits)

lemmas dec_encoded = dec_fields_append dec_e d_values d_time_value omit_values dec_struct_def field_at_def

lemma dec_enc_resp:
  "four_digit_year (resp_Timestamp r) \<Longrightarrow> dec_resp (enc_resp r) = Some r"
  by (cases r) (simp add: dec_resp_def enc_resp_def dec_encoded resp_fields_def zero_resp_def)

lemma dec_enc_ev:
  "four_digit_year (ev_Timestamp e) \<Longrightarrow> meta_ok (ev_Metadata e) \<Longrightarrow>
     dec_ev (enc_ev e) = Some (e\<lparr> ev_Metadata := norm_meta (ev_Metadata e) \<rparr>)"
  by (cases e) (simp add: dec_ev_def enc_ev_def dec_encoded ev_fields_def zero_ev_def)

lemma dec_enc_ij:
  "four_digit_year (ij_Timestamp c) \<Longrightarrow> dec_ij (enc_ij c) = Some c"
  by (cases c) (simp add: dec_ij_def enc_ij_def dec_encoded ij_fields_def zero_ij_def)

lemma dec_enc_er:
  "four_digit_year (er_Timestamp e) \<Longrightarrow> dec_er (enc_er e) = Some e"
  by (cases e) (simp add: dec_er_def enc_er_def dec_encoded er_fields_def zero_er_def)

lemma dec_enc_nr:
  "four_digit_year (nr_Timestamp r) \<Longrightarrow> int64 (nr_TimeoutSec r) \<Longrightarrow> dec_nr (enc_nr r) = Some r"
  by (cases r) (simp add: dec_nr_def enc_nr_def dec_encoded nr_fields_def zero_nr_def)


section \<open>Properties\<close>



text \<open>
  On a response subject the commands tell the two kinds of message apart: an error envelope is
  recognised exactly when its code is not empty, a notification response never is.
\<close>

lemma error_discrimination:
  "(isErrorResponse (Some (enc_er x)) \<longleftrightarrow> er_Code x \<noteq> '''')
    \<and> \<not> isErrorResponse (Some (enc_resp p)) \<and> \<not> isErrorResponse None"
  by (simp add: isErrorResponse_def unmarshal_def enc_er_def enc_resp_def dec_encoded omit_def)

end
