(* ===== verification/Ledger.thy ===== *)
theory Ledger
  imports Payload
begin

text \<open>
  Package ledger (cli/internal/ledger): the five SQLite tables as row lists, the statements of
  flows.go, requests.go, responses.go and interjections.go on them with the constraints of
  schema_v1.sql, and the transactions with a fault at any statement. \<^verbatim>\<open>INSERT OR IGNORE\<close> skips a
  row that breaks a key or CHECK constraint; a foreign key is enforced only on a connection
  that has \<^verbatim>\<open>PRAGMA foreign_keys\<close> set, and its violation is an error even then.
\<close>

section \<open>Rows\<close>

record request_row =
  q_id :: string
  q_username :: string
  q_flow_id :: string
  q_daemon_id :: string
  q_workspace_id :: string
  q_title :: string
  q_body :: "string option"
  q_response_types :: json
  q_priority :: string
  q_source :: string
  q_actions :: "json option"
  q_timeout_sec :: "int option"
  q_timestamp :: string
  q_flow_label :: "string option"
  q_workspace_name :: "string option"
  q_workspace_path :: "string option"

record response_row =
  p_request_id :: string
  p_accepted :: "bool option"
  p_action :: "string option"
  p_text :: "string option"
  p_timestamp :: string

record event_row =
  e_flow_id :: string
  e_username :: string
  e_daemon_id :: string
  e_workspace_id :: string
  e_status :: string
  e_label :: "string option"
  e_metadata :: "json option"
  e_timestamp :: string

record flow_row =
  a_flow_id :: string
  a_username :: string
  a_daemon_id :: string
  a_workspace_id :: string
  a_display_name :: "string option"
  a_abs_path :: "string option"
  a_label :: "string option"
  a_metadata :: "json option"
  a_registered_at :: string
  a_last_activity :: string

record interjection_row =
  i_flow_id :: string
  i_username :: string
  i_action :: string
  i_context :: "string option"
  i_timestamp :: string

record ledger =
  notification_requests :: "request_row list"
  notification_responses :: "response_row list"
  flow_lifecycle_events :: "event_row list"
  active_flows :: "flow_row list"
  interjections :: "interjection_row list"

definition empty_ledger :: ledger where
  "empty_ledger = \<lparr> notification_requests = [], notification_responses = [], flow_lifecycle_events = [],
     active_flows = [], interjections = [] \<rparr>"

section \<open>Storage types\<close>

record WriteContext =
  wc_Username :: string
  wc_FlowLabel :: string
  wc_WorkspaceName :: string
  wc_WorkspacePath :: string

record ActiveFlow =
  af_FlowID :: string
  af_Username :: string
  af_DaemonID :: string
  af_WorkspaceID :: string
  af_DisplayName :: string
  af_AbsPath :: string
  af_Label :: string
  af_Metadata :: meta
  af_RegisteredAt :: time
  af_LastActivity :: time

record ActiveFlowsQuery =
  afq_FlowID :: string
  afq_DaemonID :: string
  afq_WorkspaceID :: string

text \<open>\<^verbatim>\<open>nullString\<close>, \<^verbatim>\<open>NullString.String\<close>, and the metadata and time columns.\<close>

definition nullString :: "string \<Rightarrow> string option" where
  "nullString s = (if s = '''' then None else Some s)"

definition null_str :: "string option \<Rightarrow> string" where
  "null_str c = (case c of None \<Rightarrow> '''' | Some s \<Rightarrow> s)"

definition marshalMetadata :: "meta \<Rightarrow> json option" where
  "marshalMetadata m = map_option meta_json m"

definition unmarshalMetadata :: "json option \<Rightarrow> meta" where
  "unmarshalMetadata c = (case c of None \<Rightarrow> None
     | Some j \<Rightarrow> (case dec_meta j None of None \<Rightarrow> None | Some m \<Rightarrow> m))"

definition parse_or_zero :: "string \<Rightarrow> time" where
  "parse_or_zero s = (case parse_rfc3339 s of None \<Rightarrow> zero_time | Some t \<Rightarrow> t)"

section \<open>Tables\<close>

definition request_ok :: "request_row \<Rightarrow> bool" where
  "request_ok r = (q_priority r \<in> {''low'', ''normal'', ''high''})"

definition event_ok :: "event_row \<Rightarrow> bool" where
  "event_ok e = (e_status e \<in> {''active'', ''completed'', ''failed''})"

definition interjection_ok :: "interjection_row \<Rightarrow> bool" where
  "interjection_ok i = (i_action i \<in> {''stop'', ''pause'', ''note''})"

definition insert_request_row :: "request_row \<Rightarrow> request_row list \<Rightarrow> request_row list" where
  "insert_request_row r t = (if \<not> request_ok r \<or> list_ex (\<lambda>x. q_id x = q_id r) t then t else t @ [r])"

definition insert_response_row :: "response_row \<Rightarrow> response_row list \<Rightarrow> response_row list" where
  "insert_response_row r t = (if list_ex (\<lambda>x. p_request_id x = p_request_id r) t then t else t @ [r])"

definition insert_event_row :: "event_row \<Rightarrow> event_row list \<Rightarrow> event_row list" where
  "insert_event_row e t =
     (if \<not> event_ok e \<or> list_ex (\<lambda>x. e_flow_id x = e_flow_id e \<and> e_timestamp x = e_timestamp e) t
      then t else t @ [e])"

definition insert_interjection_row :: "interjection_row \<Rightarrow> interjection_row list \<Rightarrow> interjection_row list" where
  "insert_interjection_row i t =
     (if \<not> interjection_ok i \<or> list_ex (\<lambda>x. i_flow_id x = i_flow_id i \<and> i_timestamp x = i_timestamp i) t
      then t else t @ [i])"

text \<open>Plain \<^verbatim>\<open>INSERT INTO active_flows\<close>: a duplicate key is an error.\<close>

definition insert_flow_row :: "flow_row \<Rightarrow> flow_row list \<Rightarrow> flow_row list option" where
  "insert_flow_row r t = (if list_ex (\<lambda>x. a_flow_id x = a_flow_id r) t then None else Some (t @ [r]))"

section \<open>Statements that fail\<close>

text \<open>\<open>ft k\<close> says that the \<open>k\<close>-th statement of a call fails for a reason of the engine.\<close>

type_synonym faults = "nat \<Rightarrow> bool"

datatype db_error =
    Begin | Insert_flow | Insert_event | Update_flow | Read_flow | Delete_flow | Commit
  | Insert_request | Insert_response | Insert_interjection | Query | Scan

definition no_faults :: faults where
  "no_faults = (\<lambda>_. False)"

section \<open>Flows\<close>

definition RegisterFlow :: "faults \<Rightarrow> ActiveFlow \<Rightarrow> ledger \<Rightarrow> db_error option \<times> ledger" where
  "RegisterFlow ft f l =
     (if ft 0 then (Some Begin, l)
      else
        let metadata = marshalMetadata (af_Metadata f);
            ts = rfc3339 (af_RegisteredAt f);
            row = \<lparr> a_flow_id = af_FlowID f, a_username = af_Username f, a_daemon_id = af_DaemonID f,
                    a_workspace_id = af_WorkspaceID f, a_display_name = nullString (af_DisplayName f),
                    a_abs_path = nullString (af_AbsPath f), a_label = nullString (af_Label f),
                    a_metadata = metadata, a_registered_at = ts, a_last_activity = ts \<rparr>;
            ev = \<lparr> e_flow_id = af_FlowID f, e_username = af_Username f, e_daemon_id = af_DaemonID f,
                   e_workspace_id = af_WorkspaceID f, e_status = ''active'', e_label = nullString (af_Label f),
                   e_metadata = metadata, e_timestamp = ts \<rparr>
        in case (if ft 1 then None else insert_flow_row row (active_flows l)) of
             None \<Rightarrow> (Some Insert_flow, l)
           | Some flows \<Rightarrow>
               if ft 2 then (Some Insert_event, l)
               else if ft 3 then (Some Commit, l)
               else (None, l\<lparr> active_flows := flows,
                              flow_lifecycle_events := insert_event_row ev (flow_lifecycle_events l) \<rparr>))"

definition UpdateFlowActivity :: "faults \<Rightarrow> string \<Rightarrow> time \<Rightarrow> ledger \<Rightarrow> db_error option \<times> ledger" where
  "UpdateFlowActivity ft flowID ts l =
     (if ft 0 then (Some Update_flow, l)
      else (None, l\<lparr> active_flows :=
              map (\<lambda>r. if a_flow_id r = flowID then r\<lparr> a_last_activity := rfc3339 ts \<rparr> else r)
                (active_flows l) \<rparr>))"

definition RefreshFlow ::
    "faults \<Rightarrow> string \<Rightarrow> string \<Rightarrow> meta \<Rightarrow> time \<Rightarrow> ledger \<Rightarrow> db_error option \<times> ledger" where
  "RefreshFlow ft flowID label metadata ts l =
     (if ft 0 then (Some Begin, l)
      else if ft 1 then (Some Update_flow, l)
      else
        let flows = map (\<lambda>r. if a_flow_id r = flowID
                then r\<lparr> a_label := nullString label, a_metadata := marshalMetadata metadata,
                        a_last_activity := rfc3339 ts \<rparr> else r) (active_flows l)
        in case (if ft 2 then None else find (\<lambda>r. a_flow_id r = flowID) flows) of
             None \<Rightarrow> (Some Read_flow, l)
           | Some r \<Rightarrow>
               let ev = \<lparr> e_flow_id = flowID, e_username = a_username r, e_daemon_id = a_daemon_id r,
                          e_workspace_id = a_workspace_id r, e_status = ''active'',
                          e_label = nullString label, e_metadata = marshalMetadata metadata,
                          e_timestamp = rfc3339 ts \<rparr>
               in if ft 3 then (Some Insert_event, l)
                  else if ft 4 then (Some Commit, l)
                  else (None, l\<lparr> active_flows := flows,
                                 flow_lifecycle_events := insert_event_row ev (flow_lifecycle_events l) \<rparr>))"

text \<open>A flow that is not there leaves the context of the terminal event empty.\<close>

definition terminal_event :: "string \<Rightarrow> string \<Rightarrow> time \<Rightarrow> flow_row option \<Rightarrow> event_row" where
  "terminal_event flowID status ts r =
     (case r of
        None \<Rightarrow> \<lparr> e_flow_id = flowID, e_username = '''', e_daemon_id = '''', e_workspace_id = '''',
                  e_status = status, e_label = None, e_metadata = None, e_timestamp = rfc3339 ts \<rparr>
      | Some r \<Rightarrow> \<lparr> e_flow_id = flowID, e_username = a_username r, e_daemon_id = a_daemon_id r,
                    e_workspace_id = a_workspace_id r, e_status = status, e_label = a_label r,
                    e_metadata = a_metadata r, e_timestamp = rfc3339 ts \<rparr>)"

definition TerminateFlow :: "faults \<Rightarrow> string \<Rightarrow> string \<Rightarrow> time \<Rightarrow> ledger \<Rightarrow> db_error option \<times> ledger" where
  "TerminateFlow ft flowID status ts l =
     (if ft 0 then (Some Begin, l)
      else if ft 1 then (Some Read_flow, l)
      else
        let ev = terminal_event flowID status ts (find (\<lambda>r. a_flow_id r = flowID) (active_flows l))
        in if ft 2 then (Some Delete_flow, l)
           else if ft 3 then (Some Insert_event, l)
           else if ft 4 then (Some Commit, l)
           else (None, l\<lparr> active_flows := filter (\<lambda>r. a_flow_id r \<noteq> flowID) (active_flows l),
                          flow_lifecycle_events := insert_event_row ev (flow_lifecycle_events l) \<rparr>))"

definition InsertLifecycleEvent ::
    "faults \<Rightarrow> WriteContext \<Rightarrow> FlowLifecycleEvent \<Rightarrow> ledger \<Rightarrow> db_error option \<times> ledger" where
  "InsertLifecycleEvent ft wc e l =
     (if ft 0 then (Some Insert_event, l)
      else (None, l\<lparr> flow_lifecycle_events := insert_event_row
              \<lparr> e_flow_id = ev_FlowID e, e_username = wc_Username wc, e_daemon_id = ev_DaemonID e,
                e_workspace_id = ev_WorkspaceID e, e_status = ev_Status e, e_label = nullString (ev_Label e),
                e_metadata = marshalMetadata (ev_Metadata e), e_timestamp = rfc3339 (ev_Timestamp e) \<rparr>
              (flow_lifecycle_events l) \<rparr>))"

text \<open>A row as the queries return it; they do not select the user name.\<close>

definition scan_flow :: "flow_row \<Rightarrow> ActiveFlow" where
  "scan_flow r = \<lparr> af_FlowID = a_flow_id r, af_Username = '''', af_DaemonID = a_daemon_id r,
     af_WorkspaceID = a_workspace_id r, af_DisplayName = null_str (a_display_name r),
     af_AbsPath = null_str (a_abs_path r), af_Label = null_str (a_label r),
     af_Metadata = unmarshalMetadata (a_metadata r), af_RegisteredAt = parse_or_zero (a_registered_at r),
     af_LastActivity = parse_or_zero (a_last_activity r) \<rparr>"

text \<open>\<^verbatim>\<open>ORDER BY registered_at DESC\<close>; the sorting routine is an argument.\<close>

definition newest_first :: "flow_row \<Rightarrow> flow_row \<Rightarrow> bool" where
  "newest_first r s = (a_registered_at s < a_registered_at r)"

definition flow_matches :: "ActiveFlowsQuery \<Rightarrow> flow_row \<Rightarrow> bool" where
  "flow_matches q r \<longleftrightarrow> (afq_FlowID q = '''' \<or> a_flow_id r = afq_FlowID q)
     \<and> (afq_DaemonID q = '''' \<or> a_daemon_id r = afq_DaemonID q)
     \<and> (afq_WorkspaceID q = '''' \<or> a_workspace_id r = afq_WorkspaceID q)"

definition ListActiveFlows ::
    "flow_row sorter \<Rightarrow> faults \<Rightarrow> ActiveFlowsQuery \<Rightarrow> ledger \<Rightarrow> db_error + ActiveFlow list" where
  "ListActiveFlows srt ft q l =
     (if ft 0 then Inl Query
      else Inr (map scan_flow (srt newest_first (filter (flow_matches q) (active_flows l)))))"

text \<open>
  SQLite's \<^verbatim>\<open>LIKE\<close>: letters match without regard to ASCII case, the percent sign matches any
  text and the underscore one (UTF-8) character.
\<close>

definition skip_char_utf8 :: "string \<Rightarrow> string" where
  "skip_char_utf8 s = (case s of [] \<Rightarrow> [] | c # r \<Rightarrow>
     if (of_char c :: nat) \<ge> 0xC0 then dropWhile (\<lambda>d. (of_char d :: nat) div 64 = 2) r else r)"

function like_match :: "string \<Rightarrow> string \<Rightarrow> bool" where
  "like_match [] s = (s = [])"
| "like_match (c # q) [] = (c = CHR ''%'' \<and> like_match q [])"
| "like_match (c # q) (d # s) =
     (if c = CHR ''%'' then like_match q (d # s) \<or> like_match (c # q) s
      else if c = CHR ''_'' then like_match q (skip_char_utf8 (d # s))
      else lower c = lower d \<and> like_match q s)"
  by pat_completeness auto

lemma length_skip_char: "length (skip_char_utf8 (d # s)) \<le> length s"
  by (simp add: skip_char_utf8_def length_dropWhile_le)

termination like_match
proof (relation "measure (\<lambda>(p, s). 2 * length p + length s)", goal_cases)
  case (5 c q d s)
  then show ?case using length_skip_char [of d s] by simp
qed auto

definition search_matches :: "string \<Rightarrow> flow_row \<Rightarrow> bool" where
  "search_matches q r \<longleftrightarrow> q = ''''
     \<or> (case a_display_name r of None \<Rightarrow> False | Some s \<Rightarrow> like_match (''%'' @ q @ ''%'') s)
     \<or> (case a_abs_path r of None \<Rightarrow> False | Some s \<Rightarrow> like_match (''%'' @ q @ ''%'') s)"

definition SearchActiveFlows ::
    "flow_row sorter \<Rightarrow> faults \<Rightarrow> string \<Rightarrow> ledger \<Rightarrow> db_error + ActiveFlow list" where
  "SearchActiveFlows srt ft q l =
     (if ft 0 then Inl Query
      else Inr (map scan_flow (srt newest_first (filter (search_matches q) (active_flows l)))))"

definition ReapStaleFlows ::
    "faults \<Rightarrow> time \<Rightarrow> duration \<Rightarrow> ledger \<Rightarrow> db_error + ActiveFlow list" where
  "ReapStaleFlows ft now gracePeriod l =
     (if ft 0 then Inl Query
      else Inr (map scan_flow
             (filter (\<lambda>r. a_last_activity r < rfc3339 (now - gracePeriod)) (active_flows l))))"

definition LookupActiveFlow ::
    "flow_row sorter \<Rightarrow> faults \<Rightarrow> string \<Rightarrow> ledger \<Rightarrow> db_error + ActiveFlow option" where
  "LookupActiveFlow srt ft flowID l =
     (case ListActiveFlows srt ft \<lparr> afq_FlowID = flowID, afq_DaemonID = '''', afq_WorkspaceID = '''' \<rparr> l of
        Inl err \<Rightarrow> Inl err
      | Inr [] \<Rightarrow> Inr None
      | Inr (f # _) \<Rightarrow> Inr (Some f))"

section \<open>Requests, responses, interjections\<close>

definition InsertRequest ::
    "faults \<Rightarrow> WriteContext \<Rightarrow> NotificationRequest \<Rightarrow> ledger \<Rightarrow> db_error option \<times> ledger" where
  "InsertRequest ft wc r l =
     (if ft 0 then (Some Insert_request, l)
      else (None, l\<lparr> notification_requests := insert_request_row
        \<lparr> q_id = nr_ID r, q_username = wc_Username wc, q_flow_id = nr_FlowID r, q_daemon_id = nr_DaemonID r,
          q_workspace_id = nr_WorkspaceID r, q_title = nr_Title r, q_body = nullString (nr_Body r),
          q_response_types = JArr (map JStr (nr_ResponseTypes r)), q_priority = nr_Priority r,
          q_source = nr_Source r,
          q_actions = (if nr_Actions r = [] then None else Some (JArr (map JStr (nr_Actions r)))),
          q_timeout_sec = (if nr_TimeoutSec r = 0 then None else Some (nr_TimeoutSec r)),
          q_timestamp = rfc3339 (nr_Timestamp r), q_flow_label = nullString (wc_FlowLabel wc),
          q_workspace_name = nullString (wc_WorkspaceName wc),
          q_workspace_path = nullString (wc_WorkspacePath wc) \<rparr>
        (notification_requests l) \<rparr>))"

definition CountRecentRequests :: "faults \<Rightarrow> time \<Rightarrow> string \<Rightarrow> duration \<Rightarrow> ledger \<Rightarrow> db_error + nat" where
  "CountRecentRequests ft now flowID window l =
     (if ft 0 then Inl Query
      else Inr (length (filter (\<lambda>r. q_flow_id r = flowID \<and> rfc3339 (now - window) < q_timestamp r)
             (notification_requests l))))"

text \<open>\<open>fk\<close>: whether the connection enforces foreign keys.\<close>

definition InsertResponse ::
    "bool \<Rightarrow> faults \<Rightarrow> NotificationResponse \<Rightarrow> ledger \<Rightarrow> db_error option \<times> ledger" where
  "InsertResponse fk ft r l =
     (let row = \<lparr> p_request_id = resp_RequestID r, p_accepted = resp_Accepted r,
                  p_action = nullString (resp_Action r), p_text = nullString (resp_Text r),
                  p_timestamp = rfc3339 (resp_Timestamp r) \<rparr>;
          t = insert_response_row row (notification_responses l)
      in if ft 0 then (Some Insert_response, l)
         else if fk \<and> t \<noteq> notification_responses l
                 \<and> \<not> list_ex (\<lambda>q. q_id q = p_request_id row) (notification_requests l)
         then (Some Insert_response, l)
         else (None, l\<lparr> notification_responses := t \<rparr>))"

definition InsertInterjection ::
    "faults \<Rightarrow> WriteContext \<Rightarrow> InterjectionCommand \<Rightarrow> ledger \<Rightarrow> db_error option \<times> ledger" where
  "InsertInterjection ft wc i l =
     (if ft 0 then (Some Insert_interjection, l)
      else (None, l\<lparr> interjections := insert_interjection_row
        \<lparr> i_flow_id = ij_FlowID i, i_username = wc_Username wc, i_action = ij_Action i,
          i_context = nullString (ij_Context i), i_timestamp = rfc3339 (ij_Timestamp i) \<rparr>
        (interjections l) \<rparr>))"


section \<open>Keyed tables\<close>

text \<open>The contract of \<^verbatim>\<open>INSERT OR IGNORE\<close> on a table with a primary key and CHECK constraints.\<close>

locale keyed_table =
  fixes key :: "'r \<Rightarrow> 'k"
    and ok :: "'r \<Rightarrow> bool"
    and ins :: "'r \<Rightarrow> 'r list \<Rightarrow> 'r list"
  assumes ins_new: "ok r \<Longrightarrow> key r \<notin> key ` set t \<Longrightarrow> ins r t = t @ [r]"
    and ins_old: "\<not> ok r \<or> key r \<in> key ` set t \<Longrightarrow> ins r t = t"
begin

lemma ins_cases:
  obtains "ins r t = t" "\<not> ok r \<or> key r \<in> key ` set t"
  | "ins r t = t @ [r]" "ok r" "key r \<notin> key ` set t"
  using ins_new ins_old by metis

lemma ins_keeps: "x \<in> set t \<Longrightarrow> x \<in> set (ins r t)"
  by (rule ins_cases [of r t]) auto

lemma ins_subset: "set (ins r t) \<subseteq> insert r (set t)"
  by (rule ins_cases [of r t]) auto

lemma ins_distinct: "distinct (map key t) \<Longrightarrow> distinct (map key (ins r t))"
  by (rule ins_cases [of r t]) auto

lemma ins_valid: "list_all ok t \<Longrightarrow> list_all ok (ins r t)"
  by (rule ins_cases [of r t]) auto

lemma ins_present: "ok r \<Longrightarrow> key r \<in> key ` set (ins r t)"
  by (rule ins_cases [of r t]) auto

lemma ins_recorded: "ok r \<Longrightarrow> r \<in> set (ins r t) \<longleftrightarrow> r \<in> set t \<or> key r \<notin> key ` set t"
  by (rule ins_cases [of r t]) auto

lemma ins_again: "ins r (ins r t) = ins r t"
  using ins_present ins_old by metis

lemma fold_ins_done: "\<forall>r \<in> set rs. \<not> ok r \<or> key r \<in> key ` set t \<Longrightarrow> fold ins rs t = t"
  by (induction rs) (auto simp: ins_old)

lemma fold_ins_keeps: "x \<in> set t \<Longrightarrow> x \<in> set (fold ins rs t)"
  by (induction rs arbitrary: t) (auto intro: ins_keeps)

lemma fold_ins_present: "r \<in> set rs \<Longrightarrow> ok r \<Longrightarrow> key r \<in> key ` set (fold ins rs t)"
proof (induction rs arbitrary: t)
  case (Cons x rs)
  show ?case
  proof (cases "r = x")
    case True
    then obtain y where "y \<in> set (ins x t)" "key r = key y" using ins_present [OF Cons.prems(2), of t] by auto
    then show ?thesis using fold_ins_keeps [of y] by auto
  qed (use Cons in auto)
qed simp

text \<open>Redelivering any part of a batch, in any order, changes nothing.\<close>

lemma fold_ins_replay: "set rs' \<subseteq> set rs \<Longrightarrow> fold ins rs' (fold ins rs t) = fold ins rs t"
  by (rule fold_ins_done) (use fold_ins_present in blast)

end

interpretation requests: keyed_table q_id request_ok insert_request_row
  by unfold_locales (auto simp: insert_request_row_def list_ex_iff image_iff)

interpretation responses: keyed_table p_request_id "\<lambda>_. True" insert_response_row
  by unfold_locales (auto simp: insert_response_row_def list_ex_iff image_iff)

interpretation events: keyed_table "\<lambda>e. (e_flow_id e, e_timestamp e)" event_ok insert_event_row
  by unfold_locales (force simp: insert_event_row_def list_ex_iff image_iff)+

interpretation interjects: keyed_table "\<lambda>i. (i_flow_id i, i_timestamp i)" interjection_ok insert_interjection_row
  by unfold_locales (force simp: insert_interjection_row_def list_ex_iff image_iff)+

section \<open>The constraints hold\<close>

definition ledger_ok :: "ledger \<Rightarrow> bool" where
  "ledger_ok l \<longleftrightarrow>
     distinct (map q_id (notification_requests l)) \<and> list_all request_ok (notification_requests l)
   \<and> distinct (map p_request_id (notification_responses l))
   \<and> distinct (map (\<lambda>e. (e_flow_id e, e_timestamp e)) (flow_lifecycle_events l))
   \<and> list_all event_ok (flow_lifecycle_events l)
   \<and> distinct (map a_flow_id (active_flows l))
   \<and> distinct (map (\<lambda>i. (i_flow_id i, i_timestamp i)) (interjections l))
   \<and> list_all interjection_ok (interjections l)"

definition responses_linked :: "ledger \<Rightarrow> bool" where
  "responses_linked l \<longleftrightarrow> p_request_id ` set (notification_responses l) \<subseteq> q_id ` set (notification_requests l)"

lemma map_update_ids [simp]:
  "(\<And>r. a_flow_id (f r) = a_flow_id r) \<Longrightarrow>
     map a_flow_id (map (\<lambda>r. if c r then f r else r) rs) = map a_flow_id rs"
  by (induction rs) auto

lemma RegisterFlow_keeps [keeps]: "ledger_ok l \<Longrightarrow> ledger_ok (snd (RegisterFlow ft f l))"
  by (auto simp: RegisterFlow_def Let_def ledger_ok_def insert_flow_row_def list_ex_iff
      events.ins_distinct events.ins_valid split: option.splits if_splits)

lemma UpdateFlowActivity_keeps [keeps]: "ledger_ok l \<Longrightarrow> ledger_ok (snd (UpdateFlowActivity ft i t l))"
  by (simp add: UpdateFlowActivity_def ledger_ok_def del: map_map)

lemma RefreshFlow_keeps [keeps]: "ledger_ok l \<Longrightarrow> ledger_ok (snd (RefreshFlow ft i lab m t l))"
  by (simp add: RefreshFlow_def Let_def ledger_ok_def events.ins_distinct events.ins_valid
      del: map_map split: option.split)

lemma TerminateFlow_keeps [keeps]: "ledger_ok l \<Longrightarrow> ledger_ok (snd (TerminateFlow ft i s t l))"
  by (simp add: TerminateFlow_def Let_def ledger_ok_def events.ins_distinct events.ins_valid
      distinct_map_filter)

lemma InsertLifecycleEvent_keeps [keeps]: "ledger_ok l \<Longrightarrow> ledger_ok (snd (InsertLifecycleEvent ft wc e l))"
  by (simp add: InsertLifecycleEvent_def ledger_ok_def events.ins_distinct events.ins_valid)

lemma InsertRequest_keeps [keeps]: "ledger_ok l \<Longrightarrow> ledger_ok (snd (InsertRequest ft wc r l))"
  by (simp add: InsertRequest_def ledger_ok_def requests.ins_distinct requests.ins_valid)

lemma InsertResponse_keeps [keeps]: "ledger_ok l \<Longrightarrow> ledger_ok (snd (InsertResponse fk ft r l))"
  by (simp add: InsertResponse_def Let_def ledger_ok_def responses.ins_distinct)

lemma InsertInterjection_keeps [keeps]: "ledger_ok l \<Longrightarrow> ledger_ok (snd (InsertInterjection ft wc i l))"
  by (simp add: InsertInterjection_def ledger_ok_def interjects.ins_distinct interjects.ins_valid)

text \<open>One write of the ledger, and the ledger after it.\<close>

datatype ledger_op =
    OpRegister ActiveFlow
  | OpActivity string time
  | OpRefresh string string meta time
  | OpTerminate string string time
  | OpEvent WriteContext FlowLifecycleEvent
  | OpRequest WriteContext NotificationRequest
  | OpResponse NotificationResponse
  | OpInterjection WriteContext InterjectionCommand

fun run_op :: "bool \<Rightarrow> faults \<Rightarrow> ledger_op \<Rightarrow> ledger \<Rightarrow> db_error option \<times> ledger" where
  "run_op fk ft (OpRegister f) l = RegisterFlow ft f l"
| "run_op fk ft (OpActivity i t) l = UpdateFlowActivity ft i t l"
| "run_op fk ft (OpRefresh i lab m t) l = RefreshFlow ft i lab m t l"
| "run_op fk ft (OpTerminate i s t) l = TerminateFlow ft i s t l"
| "run_op fk ft (OpEvent wc e) l = InsertLifecycleEvent ft wc e l"
| "run_op fk ft (OpRequest wc r) l = InsertRequest ft wc r l"
| "run_op fk ft (OpResponse r) l = InsertResponse fk ft r l"
| "run_op fk ft (OpInterjection wc i) l = InsertInterjection ft wc i l"

lemmas op_defs = RegisterFlow_def UpdateFlowActivity_def RefreshFlow_def TerminateFlow_def
  InsertLifecycleEvent_def InsertRequest_def InsertResponse_def InsertInterjection_def

lemma run_op_keeps [keeps]: "ledger_ok l \<Longrightarrow> ledger_ok (snd (run_op fk ft op l))"
  by (cases op) (simp_all add: keeps)

lemma run_op_failed: "fst (run_op fk ft op l) = Some e \<Longrightarrow> snd (run_op fk ft op l) = l"
  by (cases op) (auto simp: op_defs Let_def split: option.splits if_splits)

lemma run_op_linked:
  assumes "responses_linked l"
  shows "responses_linked (snd (run_op True ft op l))"
proof (cases op)
  case (OpRequest wc r)
  with assms requests.ins_keeps show ?thesis
    by (fastforce simp: responses_linked_def InsertRequest_def image_subset_iff image_iff)
next
  case (OpResponse r)
  define row where "row = \<lparr> p_request_id = resp_RequestID r, p_accepted = resp_Accepted r,
    p_action = nullString (resp_Action r), p_text = nullString (resp_Text r),
    p_timestamp = rfc3339 (resp_Timestamp r) \<rparr>"
  let ?t = "insert_response_row row (notification_responses l)"
  have "set ?t \<subseteq> insert row (set (notification_responses l))" by (rule responses.ins_subset)
  then have sub: "p_request_id ` set ?t \<subseteq> insert (p_request_id row) (p_request_id ` set (notification_responses l))"
    by auto
  let ?P = "list_ex (\<lambda>q. q_id q = p_request_id row) (notification_requests l)"
  have ev: "snd (run_op True ft op l)
      = (if ft 0 \<or> \<not> (?t = notification_responses l \<or> ?P) then l else l\<lparr> notification_responses := ?t \<rparr>)"
    by (simp add: OpResponse InsertResponse_def Let_def row_def)
  have "p_request_id ` set ?t \<subseteq> q_id ` set (notification_requests l)"
    if "?t = notification_responses l \<or> ?P"
    using that
  proof
    assume ?P
    then have "p_request_id row \<in> q_id ` set (notification_requests l)" by (simp add: list_ex_key)
    then have "insert (p_request_id row) (p_request_id ` set (notification_responses l))
        \<subseteq> q_id ` set (notification_requests l)"
      using assms by (simp only: responses_linked_def insert_subset simp_thms)
    with sub show ?thesis by (rule order_trans)
  qed (use assms in \<open>simp add: responses_linked_def\<close>)
  with assms ev show ?thesis by (simp add: responses_linked_def)
qed (use assms in \<open>auto simp: responses_linked_def op_defs Let_def split: option.splits\<close>)


section \<open>Properties\<close>

text \<open>
  C2 (invariant): every write of the ledger, whichever statement of it fails, keeps the primary
  keys unique and the CHECK constraints true, changes nothing when it reports an error, and on a
  connection that enforces foreign keys never leaves a response without its request.
\<close>

theorem ledger_writes_safe:
  "(ledger_ok l \<longrightarrow> ledger_ok (snd (run_op fk ft op l)))
    \<and> (fst (run_op fk ft op l) \<noteq> None \<longrightarrow> snd (run_op fk ft op l) = l)
    \<and> (responses_linked l \<longrightarrow> responses_linked (snd (run_op True ft op l)))"
  using run_op_keeps run_op_failed run_op_linked by blast

definition a_flow :: ActiveFlow where
  "a_flow = \<lparr> af_FlowID = ''fl_1'', af_Username = ''alice'', af_DaemonID = ''dn_1'', af_WorkspaceID = ''ws_1'',
     af_DisplayName = ''repo'', af_AbsPath = ''/w/repo'', af_Label = ''build'', af_Metadata = None,
     af_RegisteredAt = 978307200 * second, af_LastActivity = 0 \<rparr>"

theorem ledger_writes_safe_witness:
  "ledger_ok (snd (run_op True (\<lambda>k. k = 2) (OpRegister a_flow) empty_ledger))
    \<and> snd (run_op True (\<lambda>k. k = 2) (OpRegister a_flow) empty_ledger) = empty_ledger
    \<and> responses_linked (snd (run_op True (\<lambda>k. k = 2) (OpRegister a_flow) empty_ledger))"
proof -
  have "ledger_ok empty_ledger" and "responses_linked empty_ledger"
    by (simp_all add: ledger_ok_def responses_linked_def empty_ledger_def)
  moreover have "fst (run_op True (\<lambda>k. k = 2) (OpRegister a_flow) empty_ledger) \<noteq> None"
    by (simp add: RegisterFlow_def insert_flow_row_def empty_ledger_def Let_def)
  ultimately show ?thesis
    using ledger_writes_safe [of empty_ledger True "\<lambda>k. k = 2" "OpRegister a_flow"] by blast
qed

text \<open>
  C18 (functional): redelivery by JetStream is harmless. Recording any batch of requests and then
  any part of it again, in any order, leaves the table as after the first time, and every
  request with a valid priority has exactly one row with its id.
\<close>

definition record_request :: "WriteContext \<times> NotificationRequest \<Rightarrow> ledger \<Rightarrow> ledger" where
  "record_request m l = snd (InsertRequest no_faults (fst m) (snd m) l)"

definition request_row_of :: "WriteContext \<times> NotificationRequest \<Rightarrow> request_row" where
  "request_row_of m = (case m of (wc, r) \<Rightarrow>
        \<lparr> q_id = nr_ID r, q_username = wc_Username wc, q_flow_id = nr_FlowID r, q_daemon_id = nr_DaemonID r,
          q_workspace_id = nr_WorkspaceID r, q_title = nr_Title r, q_body = nullString (nr_Body r),
          q_response_types = JArr (map JStr (nr_ResponseTypes r)), q_priority = nr_Priority r,
          q_source = nr_Source r,
          q_actions = (if nr_Actions r = [] then None else Some (JArr (map JStr (nr_Actions r)))),
          q_timeout_sec = (if nr_TimeoutSec r = 0 then None else Some (nr_TimeoutSec r)),
          q_timestamp = rfc3339 (nr_Timestamp r), q_flow_label = nullString (wc_FlowLabel wc),
          q_workspace_name = nullString (wc_WorkspaceName wc),
          q_workspace_path = nullString (wc_WorkspacePath wc) \<rparr>)"

lemma record_requests: "fold record_request ms l
    = l\<lparr> notification_requests := fold insert_request_row (map request_row_of ms) (notification_requests l) \<rparr>"
proof (induction ms arbitrary: l)
  case (Cons m ms)
  obtain wc r where "m = (wc, r)" by force
  then have "record_request m l
      = l\<lparr> notification_requests := insert_request_row (request_row_of m) (notification_requests l) \<rparr>"
    by (simp add: record_request_def InsertRequest_def no_faults_def request_row_of_def)
  then show ?case by (simp add: Cons.IH)
qed simp

theorem redelivery_idempotent:
  assumes "set again \<subseteq> set ms" and "ledger_ok l"
  shows "fold record_request again (fold record_request ms l) = fold record_request ms l
    \<and> (\<forall>(wc, r) \<in> set ms. nr_Priority r \<in> {PriorityLow, PriorityNormal, PriorityHigh} \<longrightarrow>
         length (filter (\<lambda>q. q_id q = nr_ID r) (notification_requests (fold record_request ms l))) = 1)"
proof -
  from assms(1) have "set (map request_row_of again) \<subseteq> set (map request_row_of ms)" by auto
  from requests.fold_ins_replay [OF this]
  have "fold record_request again (fold record_request ms l) = fold record_request ms l"
    by (simp add: record_requests)
  moreover
  have "length (filter (\<lambda>q. q_id q = nr_ID r) (notification_requests (fold record_request ms l))) = 1"
    if mem: "(wc, r) \<in> set ms" and pr: "nr_Priority r \<in> {PriorityLow, PriorityNormal, PriorityHigh}" for wc r
  proof -
  let ?t = "fold insert_request_row (map request_row_of ms) (notification_requests l)"
  have "request_ok (request_row_of (wc, r))" using pr by (auto simp: request_ok_def request_row_of_def enum_defs)
  moreover have "request_row_of (wc, r) \<in> set (map request_row_of ms)" using mem by force
  ultimately have "q_id (request_row_of (wc, r)) \<in> q_id ` set ?t" by (intro requests.fold_ins_present)
  moreover have "distinct (map q_id t) \<Longrightarrow> distinct (map q_id (fold insert_request_row rs t))" for rs t
    by (induction rs arbitrary: t) (simp_all add: requests.ins_distinct)
  with assms(2) have "distinct (map q_id ?t)" by (simp add: ledger_ok_def)
  moreover have "distinct (map q_id t) \<Longrightarrow> i \<in> q_id ` set t \<Longrightarrow> length (filter (\<lambda>q. q_id q = i) t) = 1" for i t
    by (induction t) (auto simp: filter_empty_conv image_iff)
  ultimately show ?thesis by (simp add: record_requests request_row_of_def)
  qed
  ultimately show ?thesis by blast
qed

definition a_request :: NotificationRequest where
  "a_request = zero_nr\<lparr> nr_ID := ''ntf_1'', nr_FlowID := ''fl_1'', nr_Priority := ''normal'',
     nr_Timestamp := 978307200 * second \<rparr>"

definition a_context :: WriteContext where
  "a_context = \<lparr> wc_Username = ''alice'', wc_FlowLabel = ''build'', wc_WorkspaceName = ''repo'',
     wc_WorkspacePath = ''/w/repo'' \<rparr>"

theorem redelivery_idempotent_witness:
  "fold record_request [(a_context, a_request), (a_context, a_request)]
      (fold record_request [(a_context, a_request)] empty_ledger) = fold record_request [(a_context, a_request)] empty_ledger
    \<and> length (filter (\<lambda>q. q_id q = ''ntf_1'')
         (notification_requests (fold record_request [(a_context, a_request)] empty_ledger))) = 1"
proof -
  have "ledger_ok empty_ledger" by (simp add: ledger_ok_def empty_ledger_def)
  from redelivery_idempotent [OF _ this, of "[(a_context, a_request), (a_context, a_request)]" "[(a_context, a_request)]"]
  show ?thesis by (simp add: a_request_def zero_nr_def PriorityNormal_def)
qed


lemma find_flow:
  "find (\<lambda>r. a_flow_id r = i) flows = None \<longleftrightarrow> i \<notin> a_flow_id ` set flows"
  by (auto simp: find_None_iff)

lemma find_flow_append:
  "i \<notin> a_flow_id ` set flows \<Longrightarrow> a_flow_id r = i \<Longrightarrow> find (\<lambda>r. a_flow_id r = i) (flows @ [r]) = Some r"
  by (induction flows) auto

text \<open>
  A registered flow is found again. Registering a flow under a new, non-empty id
  without engine faults succeeds, and looking it up then gives it back: times cut to the
  second, metadata with its keys in order, the user name not selected by the query.
\<close>

definition stored_flow :: "ActiveFlow \<Rightarrow> ActiveFlow" where
  "stored_flow f = f\<lparr> af_Username := '''', af_Metadata := map_option (sort_key fst) (af_Metadata f),
     af_RegisteredAt := af_RegisteredAt f div second * second,
     af_LastActivity := af_RegisteredAt f div second * second \<rparr>"

lemma unmarshal_marshal: "meta_ok m \<Longrightarrow> unmarshalMetadata (marshalMetadata m) = map_option (sort_key fst) m"
  by (cases m) (simp_all add: unmarshalMetadata_def marshalMetadata_def meta_ok_def)

lemma null_nullString [simp]: "null_str (nullString s) = s"
  by (simp add: null_str_def nullString_def)

lemma filter_unique: "i \<notin> a_flow_id ` set flows \<Longrightarrow> a_flow_id r = i \<Longrightarrow>
    filter (\<lambda>r. a_flow_id r = i) (flows @ [r]) = [r]"
  by (simp add: filter_key_snoc)

theorem register_lookup:
  assumes "sort_slice srt" and new: "af_FlowID f \<notin> a_flow_id ` set (active_flows l)"
    and "af_FlowID f \<noteq> ''''" and "four_digit_year (af_RegisteredAt f)" and "meta_ok (af_Metadata f)"
  shows "fst (RegisterFlow no_faults f l) = None
    \<and> LookupActiveFlow srt no_faults (af_FlowID f) (snd (RegisterFlow no_faults f l)) = Inr (Some (stored_flow f))"
proof -
  define row where "row = \<lparr> a_flow_id = af_FlowID f, a_username = af_Username f, a_daemon_id = af_DaemonID f,
    a_workspace_id = af_WorkspaceID f, a_display_name = nullString (af_DisplayName f),
    a_abs_path = nullString (af_AbsPath f), a_label = nullString (af_Label f),
    a_metadata = marshalMetadata (af_Metadata f), a_registered_at = rfc3339 (af_RegisteredAt f),
    a_last_activity = rfc3339 (af_RegisteredAt f) \<rparr>"
  have "\<not> list_ex (\<lambda>x. a_flow_id x = af_FlowID f) (active_flows l)" using new by (simp add: list_ex_key)
  then have reg: "fst (RegisterFlow no_faults f l) = None"
    "active_flows (snd (RegisterFlow no_faults f l)) = active_flows l @ [row]"
    by (simp_all add: RegisterFlow_def no_faults_def insert_flow_row_def row_def Let_def)
  let ?q = "\<lparr> afq_FlowID = af_FlowID f, afq_DaemonID = '''', afq_WorkspaceID = '''' \<rparr>"
  have "flow_matches ?q = (\<lambda>r. a_flow_id r = af_FlowID f)"
    using assms(3) by (auto simp: flow_matches_def)
  then have "filter (flow_matches ?q) (active_flows l @ [row]) = [row]"
    using filter_unique [OF new, of row] by (simp add: row_def)
  moreover have "srt newest_first [row] = [row]"
  proof -
    have "weak_order newest_first" unfolding newest_first_def by (rule weak_order_key)
    from sort_sliceD(1) [OF assms(1) this, of "[row]"] show ?thesis
      by (metis mset_eq_length length_Suc_conv length_0_conv list.size(3,4) mset_single_iff_right mset.simps)
  qed
  moreover have "scan_flow row = stored_flow f"
    using assms by (cases f) (simp add: scan_flow_def row_def stored_flow_def unmarshal_marshal
        parse_or_zero_def parse_rfc3339_rfc3339)
  ultimately show ?thesis
    using reg by (simp add: LookupActiveFlow_def ListActiveFlows_def no_faults_def)
qed

theorem register_lookup_witness:
  "LookupActiveFlow insertion_sort no_faults ''fl_1'' (snd (RegisterFlow no_faults a_flow empty_ledger))
     = Inr (Some (stored_flow a_flow))"
  using register_lookup [OF sort_slice_insertion_sort, of a_flow empty_ledger]
  by (simp add: a_flow_def empty_ledger_def four_digit_year_def meta_ok_def)


text \<open>
  What the audit log holds of a flow that starts and ends. When the log has no
  events of the flow yet, registering it and terminating it leaves the flow inactive, and the log
  gains the start event and the terminal event exactly when the two fall in different seconds: a
  flow that ends in the second in which it started (a \<^verbatim>\<open>renotify post\<close>, say) never gets its
  terminal event, because both have the key (flow, second).
\<close>

theorem start_end_events:
  assumes new: "af_FlowID f \<notin> a_flow_id ` set (active_flows l)"
    and none: "af_FlowID f \<notin> e_flow_id ` set (flow_lifecycle_events l)"
    and status: "status \<in> {FlowCompleted, FlowFailed}"
    and t: "four_digit_year (af_RegisteredAt f)" "four_digit_year t"
  shows "let l' = snd (TerminateFlow no_faults (af_FlowID f) status t (snd (RegisterFlow no_faults f l))) in
      af_FlowID f \<notin> a_flow_id ` set (active_flows l')
    \<and> map e_status (filter (\<lambda>e. e_flow_id e = af_FlowID f) (flow_lifecycle_events l'))
        = (if af_RegisteredAt f div second = t div second then [FlowActive] else [FlowActive, status])"
proof -
  define ev where "ev = \<lparr> e_flow_id = af_FlowID f, e_username = af_Username f, e_daemon_id = af_DaemonID f,
    e_workspace_id = af_WorkspaceID f, e_status = ''active'', e_label = nullString (af_Label f),
    e_metadata = marshalMetadata (af_Metadata f), e_timestamp = rfc3339 (af_RegisteredAt f) \<rparr>"
  let ?l1 = "snd (RegisterFlow no_faults f l)"
  have "(e_flow_id ev, e_timestamp ev) \<notin> (\<lambda>e. (e_flow_id e, e_timestamp e)) ` set (flow_lifecycle_events l)"
    using none by (auto simp: ev_def)
  moreover have "event_ok ev" by (simp add: event_ok_def ev_def)
  ultimately have "insert_event_row ev (flow_lifecycle_events l) = flow_lifecycle_events l @ [ev]"
    by (intro events.ins_new)
  then have l1: "flow_lifecycle_events ?l1 = flow_lifecycle_events l @ [ev]"
    using new by (simp add: RegisterFlow_def no_faults_def insert_flow_row_def list_ex_key ev_def Let_def)
  define tev where "tev = terminal_event (af_FlowID f) status t (find (\<lambda>r. a_flow_id r = af_FlowID f) (active_flows ?l1))"
  let ?l2 = "snd (TerminateFlow no_faults (af_FlowID f) status t ?l1)"
  have tev: "e_flow_id tev = af_FlowID f" "e_timestamp tev = rfc3339 t" "e_status tev = status"
    by (simp_all add: tev_def terminal_event_def split: option.split)
  have l2: "flow_lifecycle_events ?l2 = insert_event_row tev (flow_lifecycle_events l @ [ev])"
    "active_flows ?l2 = filter (\<lambda>r. a_flow_id r \<noteq> af_FlowID f) (active_flows ?l1)"
    by (simp_all add: TerminateFlow_def no_faults_def Let_def tev_def l1 [unfolded no_faults_def])
  have old: "filter (\<lambda>e. e_flow_id e = af_FlowID f) (flow_lifecycle_events l) = []"
    using none by (rule filter_key_snoc)
  have ok: "event_ok tev" using status by (auto simp: event_ok_def tev enum_defs)
  have key: "(e_flow_id tev, e_timestamp tev)
      \<in> (\<lambda>e. (e_flow_id e, e_timestamp e)) ` set (flow_lifecycle_events l @ [ev])
      \<longleftrightarrow> af_RegisteredAt f div second = t div second"
    using none rfc3339_less(3) [OF t] by (auto simp: tev ev_def image_iff)
  have "map e_status (filter (\<lambda>e. e_flow_id e = af_FlowID f) (flow_lifecycle_events ?l2))
      = (if af_RegisteredAt f div second = t div second then [FlowActive] else [FlowActive, status])"
  proof (cases "af_RegisteredAt f div second = t div second")
    case True
    with key have "insert_event_row tev (flow_lifecycle_events l @ [ev]) = flow_lifecycle_events l @ [ev]"
      by (intro events.ins_old) simp
    with True old show ?thesis by (simp add: l2 ev_def enum_defs)
  next
    case False
    with key ok have "insert_event_row tev (flow_lifecycle_events l @ [ev]) = flow_lifecycle_events l @ [ev, tev]"
      by (subst events.ins_new) simp_all
    with False old show ?thesis by (simp add: l2 ev_def enum_defs tev)
  qed
  then show ?thesis by (auto simp: Let_def l2)
qed

theorem start_end_events_witness:
  "let l' = snd (TerminateFlow no_faults ''fl_1'' FlowCompleted (978307200 * second + 5)
        (snd (RegisterFlow no_faults a_flow empty_ledger))) in
      ''fl_1'' \<notin> a_flow_id ` set (active_flows l')
    \<and> map e_status (filter (\<lambda>e. e_flow_id e = ''fl_1'') (flow_lifecycle_events l')) = [FlowActive]"
  using start_end_events [of a_flow empty_ledger FlowCompleted "978307200 * second + 5"]
  by (simp add: a_flow_def empty_ledger_def four_digit_year_def)

text \<open>
  Which flows the reaper finds stale. A flow whose last activity is at \<open>t\<close> is not
  returned at \<open>now\<close> while \<open>now - t\<close> is at most the grace period, and is returned once it is a full
  second more (the comparison is between texts cut to the second).
\<close>

theorem reap_stale_bounds:
  assumes "r \<in> set (active_flows l)" and "ledger_ok l"
    and "a_last_activity r = rfc3339 t" and "four_digit_year t" and "four_digit_year (now - grace)"
  shows "\<exists>stale. ReapStaleFlows no_faults now grace l = Inr stale
    \<and> (now - t \<le> grace \<longrightarrow> a_flow_id r \<notin> af_FlowID ` set stale)
    \<and> (grace + second \<le> now - t \<longrightarrow> scan_flow r \<in> set stale)"
proof (intro exI conjI)
  let ?stale = "map scan_flow (filter (\<lambda>r. a_last_activity r < rfc3339 (now - grace)) (active_flows l))"
  show "ReapStaleFlows no_faults now grace l = Inr ?stale"
    by (simp add: ReapStaleFlows_def no_faults_def)
  have stale: "a_last_activity r < rfc3339 (now - grace) \<longleftrightarrow> t div second < (now - grace) div second"
    using assms rfc3339_less(1) by simp
  show "now - t \<le> grace \<longrightarrow> a_flow_id r \<notin> af_FlowID ` set ?stale"
  proof
    assume "now - t \<le> grace"
    then have "(now - grace) div second \<le> t div second" by (intro zdiv_mono1) simp_all
    with stale have "\<not> a_last_activity r < rfc3339 (now - grace)" by simp
    moreover have "s = r" if "s \<in> set (active_flows l)" "a_flow_id s = a_flow_id r" for s
      using assms(1,2) that by (auto simp: ledger_ok_def distinct_map inj_on_def)
    ultimately show "a_flow_id r \<notin> af_FlowID ` set ?stale" by (auto simp: scan_flow_def)
  qed
  show "grace + second \<le> now - t \<longrightarrow> scan_flow r \<in> set ?stale"
  proof
    assume "grace + second \<le> now - t"
    then have "(t + 1 * second) div second \<le> (now - grace) div second" by (intro zdiv_mono1) simp_all
    then have "t div second < (now - grace) div second" by simp
    with stale assms(1) show "scan_flow r \<in> set ?stale" by simp
  qed
qed

theorem reap_stale_bounds_witness:
  "\<exists>stale. ReapStaleFlows no_faults (978307200 * second + 901 * second) (15 * minute)
        (snd (RegisterFlow no_faults a_flow empty_ledger)) = Inr stale \<and> ''fl_1'' \<in> af_FlowID ` set stale"
proof -
  let ?l = "snd (RegisterFlow no_faults a_flow empty_ledger)"
  have "ledger_ok ?l" by (rule RegisterFlow_keeps) (simp add: ledger_ok_def empty_ledger_def)
  moreover obtain r where r: "active_flows ?l = [r]" "a_last_activity r = rfc3339 (978307200 * second)"
    "a_flow_id r = ''fl_1''"
    by (simp add: RegisterFlow_def no_faults_def insert_flow_row_def empty_ledger_def a_flow_def Let_def)
  ultimately obtain stale where "ReapStaleFlows no_faults (978307200 * second + 901 * second) (15 * minute) ?l = Inr stale"
    and "scan_flow r \<in> set stale"
    using reap_stale_bounds [of r ?l "978307200 * second" "978307200 * second + 901 * second" "15 * minute"]
    by (auto simp: four_digit_year_def)
  moreover have "af_FlowID (scan_flow r) = ''fl_1''" by (simp add: scan_flow_def r)
  ultimately show ?thesis by force
qed


text \<open>
  The flow search of \<^verbatim>\<open>renotify ... --workspace\<close>. For a query without percent
  signs and underscores, a flow matches exactly when the query is empty or its display name or
  path contains the query, ASCII case ignored. (With them the query is a pattern: it is not
  escaped.)
\<close>

definition contains_nocase :: "string \<Rightarrow> string \<Rightarrow> bool" where
  "contains_nocase s q \<longleftrightarrow> sublist (map lower q) (map lower s)"

lemma like_percent: "like_match ''%'' s"
  by (induction s) auto

lemma like_prefix:
  "CHR ''%'' \<notin> set m \<Longrightarrow> CHR ''_'' \<notin> set m \<Longrightarrow>
     like_match (m @ ''%'') s \<longleftrightarrow> prefix (map lower m) (map lower s)"
proof (induction m arbitrary: s)
  case Nil
  then show ?case by (simp add: like_percent)
next
  case (Cons c m)
  then show ?case by (cases s) auto
qed

lemma like_contains:
  "CHR ''%'' \<notin> set m \<Longrightarrow> CHR ''_'' \<notin> set m \<Longrightarrow>
     like_match (CHR ''%'' # m @ ''%'') s \<longleftrightarrow> contains_nocase s m"
proof (induction s)
  case Nil
  then show ?case using like_prefix [of m "[]"] by (simp add: contains_nocase_def)
next
  case (Cons d s)
  then show ?case using like_prefix [of m "d # s"]
    by (simp add: contains_nocase_def sublist_Cons_right)
qed

theorem search_plain:
  assumes "CHR ''%'' \<notin> set q" and "CHR ''_'' \<notin> set q"
  shows "search_matches q r \<longleftrightarrow> q = ''''
    \<or> (\<exists>s \<in> set_option (a_display_name r) \<union> set_option (a_abs_path r). contains_nocase s q)"
  using like_contains [OF assms] by (auto simp: search_matches_def split: option.splits)

theorem search_plain_witness:
  "search_matches ''REPO'' \<lparr> a_flow_id = '''', a_username = '''', a_daemon_id = '''', a_workspace_id = '''',
      a_display_name = None, a_abs_path = Some ''/w/repo'', a_label = None, a_metadata = None,
      a_registered_at = '''', a_last_activity = '''' \<rparr>"
proof -
  have "map lower ''REPO'' = map lower ''repo''" by code_simp
  then have "contains_nocase ''/w/repo'' ''REPO''"
    unfolding contains_nocase_def sublist_def by (intro exI [of _ "map lower ''/w/''"] exI [of _ "[]"]) simp
  then show ?thesis by (subst search_plain) auto
qed

end
