(* ===== verification/FlowStore.thy ===== *)
theory FlowStore
  imports Ledger
begin

text \<open>
  The interface the registry uses of the ledger: a store of active flows with operations that may
  fail, what each promises of the flows it shows, and the registry's two uses of it (insert or
  refresh, remove), proved once against the promises. The ledger's statements provide it.
\<close>

section \<open>Interface\<close>

locale flow_store =
  fixes shown :: "'db \<Rightarrow> string \<Rightarrow> 'v option"
    and register :: "'x \<Rightarrow> 'f \<Rightarrow> 'db \<Rightarrow> 'e option \<times> 'db"
    and refresh :: "'x \<Rightarrow> string \<Rightarrow> 'u \<Rightarrow> 'db \<Rightarrow> 'e option \<times> 'db"
    and terminate :: "'x \<Rightarrow> string \<Rightarrow> 't \<Rightarrow> 'db \<Rightarrow> 'e option \<times> 'db"
    and fid :: "'f \<Rightarrow> string"
    and entry :: "'f \<Rightarrow> 'v"
    and touched :: "'u \<Rightarrow> 'v \<Rightarrow> 'v"
    and good :: 'x
  assumes register_ok: "fst (register x f db) = None \<Longrightarrow>
      shown db (fid f) = None \<and> shown (snd (register x f db)) = (shown db)(fid f \<mapsto> entry f)"
    and register_err: "fst (register x f db) \<noteq> None \<Longrightarrow> snd (register x f db) = db"
    and register_good: "shown db (fid f) = None \<Longrightarrow> fst (register good f db) = None"
    and refresh_ok: "fst (refresh x i u db) = None \<Longrightarrow>
      \<exists>v. shown db i = Some v \<and> shown (snd (refresh x i u db)) = (shown db)(i \<mapsto> touched u v)"
    and refresh_err: "fst (refresh x i u db) \<noteq> None \<Longrightarrow> snd (refresh x i u db) = db"
    and refresh_good: "shown db i \<noteq> None \<Longrightarrow> fst (refresh good i u db) = None"
    and terminate_ok: "fst (terminate x i t db) = None \<Longrightarrow>
      shown (snd (terminate x i t db)) = (shown db)(i := None)"
    and terminate_err: "fst (terminate x i t db) \<noteq> None \<Longrightarrow> snd (terminate x i t db) = db"
    and terminate_good: "fst (terminate good i t db) = None"
begin

text \<open>Insert; on any error refresh instead, and ignore what the refresh says.\<close>

lemma upsert_cases:
  assumes "i = fid f"
    and "db' = (if fst (register x f db) = None then snd (register x f db)
           else snd (refresh y i u (snd (register x f db))))"
  shows "db' = db \<or> shown db' = (shown db)(i \<mapsto> (case shown db i of None \<Rightarrow> entry f | Some v \<Rightarrow> touched u v))"
proof (cases "fst (register x f db) = None")
  case True
  with register_ok [OF True] assms show ?thesis by simp
next
  case False
  with register_err [OF False] assms have db': "db' = snd (refresh y i u db)" by simp
  show ?thesis
  proof (cases "fst (refresh y i u db) = None")
    case True
    from refresh_ok [OF True] show ?thesis by (auto simp: db')
  next
    case False
    from refresh_err [OF False] show ?thesis by (simp add: db')
  qed
qed

lemma upsert_good:
  assumes "i = fid f"
    and "db' = (if fst (register good f db) = None then snd (register good f db)
           else snd (refresh good i u (snd (register good f db))))"
  shows "shown db' = (shown db)(i \<mapsto> (case shown db i of None \<Rightarrow> entry f | Some v \<Rightarrow> touched u v))"
proof (cases "fst (register good f db) = None")
  case True
  with register_ok [OF True] assms show ?thesis by simp
next
  case False
  with register_err [OF False] assms have db': "db' = snd (refresh good i u db)" by simp
  have "shown db i \<noteq> None" using False register_good [of db f] unfolding assms(1) by (rule contrapos_nn)
  from refresh_ok [OF refresh_good [OF this], of u] show ?thesis by (auto simp: db')
qed

lemma remove_cases:
  "snd (terminate x i t db) = db \<or> shown (snd (terminate x i t db)) = (shown db)(i := None)"
  by (cases "fst (terminate x i t db) = None") (simp_all add: terminate_ok terminate_err)

lemma remove_good: "shown (snd (terminate good i t db)) = (shown db)(i := None)"
  by (rule terminate_ok) (rule terminate_good)

end

section \<open>The ledger as a flow store\<close>

text \<open>What the queries show of a flow, and what a column shows of the value written to it.\<close>

definition shown_flow :: "ledger \<Rightarrow> string \<Rightarrow> ActiveFlow option" where
  "shown_flow l i = map_option scan_flow (find (\<lambda>r. a_flow_id r = i) (active_flows l))"

definition time_column :: "time \<Rightarrow> time" where
  "time_column t = parse_or_zero (rfc3339 t)"

definition meta_column :: "meta \<Rightarrow> meta" where
  "meta_column m = unmarshalMetadata (marshalMetadata m)"

definition registered :: "ActiveFlow \<Rightarrow> ActiveFlow" where
  "registered f = f\<lparr> af_Username := '''', af_Metadata := meta_column (af_Metadata f),
     af_RegisteredAt := time_column (af_RegisteredAt f), af_LastActivity := time_column (af_RegisteredAt f) \<rparr>"

definition refreshed :: "string \<times> meta \<times> time \<Rightarrow> ActiveFlow \<Rightarrow> ActiveFlow" where
  "refreshed u f = (case u of (label, m, t) \<Rightarrow>
     f\<lparr> af_Label := label, af_Metadata := meta_column m, af_LastActivity := time_column t \<rparr>)"

lemma time_column [simp]: "four_digit_year t \<Longrightarrow> time_column t = t div second * second"
  by (simp add: time_column_def parse_or_zero_def parse_rfc3339_rfc3339)

lemma meta_column [simp]: "meta_ok m \<Longrightarrow> meta_column m = map_option (sort_key fst) m"
  by (simp add: meta_column_def unmarshal_marshal)

lemma find_flow_key: "find (\<lambda>r. a_flow_id r = i) rs = Some r \<Longrightarrow> a_flow_id r = i"
  by (auto simp: find_Some_iff)

lemma find_flow_snoc: "find P (rs @ [r]) = (case find P rs of Some x \<Rightarrow> Some x | None \<Rightarrow> if P r then Some r else None)"
  by (induction rs) auto

lemma find_update:
  "(\<And>r. a_flow_id (g r) = a_flow_id r) \<Longrightarrow>
   find (\<lambda>r. a_flow_id r = i) (map (\<lambda>r. if a_flow_id r = k then g r else r) rs)
     = map_option (\<lambda>r. if a_flow_id r = k then g r else r) (find (\<lambda>r. a_flow_id r = i) rs)"
  by (induction rs) auto

lemma find_remove:
  "find (\<lambda>r. a_flow_id r = i) (filter (\<lambda>r. a_flow_id r \<noteq> k) rs)
     = (if i = k then None else find (\<lambda>r. a_flow_id r = i) rs)"
  by (induction rs) auto

lemma find_new: "\<not> list_ex (\<lambda>x. a_flow_id x = i) rs \<longleftrightarrow> find (\<lambda>r. a_flow_id r = i) rs = None"
  by (induction rs) auto

lemma register_shown:
  assumes "fst (RegisterFlow ft f l) = None"
  shows "shown_flow l (af_FlowID f) = None
    \<and> shown_flow (snd (RegisterFlow ft f l)) = (shown_flow l)(af_FlowID f \<mapsto> registered f)"
proof -
  define row where "row = \<lparr> a_flow_id = af_FlowID f, a_username = af_Username f, a_daemon_id = af_DaemonID f,
    a_workspace_id = af_WorkspaceID f, a_display_name = nullString (af_DisplayName f),
    a_abs_path = nullString (af_AbsPath f), a_label = nullString (af_Label f),
    a_metadata = marshalMetadata (af_Metadata f), a_registered_at = rfc3339 (af_RegisteredAt f),
    a_last_activity = rfc3339 (af_RegisteredAt f) \<rparr>"
  from assms have new: "find (\<lambda>r. a_flow_id r = af_FlowID f) (active_flows l) = None"
    and flows: "active_flows (snd (RegisterFlow ft f l)) = active_flows l @ [row]"
    by (auto simp: RegisterFlow_def Let_def row_def insert_flow_row_def find_new [symmetric]
        split: if_splits option.splits)
  have "scan_flow row = registered f"
    by (cases f) (simp add: scan_flow_def row_def registered_def meta_column_def time_column_def)
  then show ?thesis using new by (auto simp: shown_flow_def flows find_flow_snoc row_def fun_eq_iff split: option.splits)
qed

lemma refresh_shown:
  assumes "fst (RefreshFlow ft i label m t l) = None"
  shows "\<exists>v. shown_flow l i = Some v
    \<and> shown_flow (snd (RefreshFlow ft i label m t l)) = (shown_flow l)(i \<mapsto> refreshed (label, m, t) v)"
proof -
  let ?g = "\<lambda>r. r\<lparr> a_label := nullString label, a_metadata := marshalMetadata m, a_last_activity := rfc3339 t \<rparr>"
  let ?flows = "map (\<lambda>r. if a_flow_id r = i then ?g r else r) (active_flows l)"
  from assms obtain r where r: "find (\<lambda>r. a_flow_id r = i) ?flows = Some r"
    and flows: "active_flows (snd (RefreshFlow ft i label m t l)) = ?flows"
    by (auto simp: RefreshFlow_def Let_def split: if_splits option.splits)
  have upd: "find (\<lambda>r. a_flow_id r = k) ?flows
      = map_option (\<lambda>r. if a_flow_id r = i then ?g r else r) (find (\<lambda>r. a_flow_id r = k) (active_flows l))" for k
    by (rule find_update) simp
  from r obtain r0 where r0: "find (\<lambda>r. a_flow_id r = i) (active_flows l) = Some r0" by (auto simp: upd)
  have g: "scan_flow (?g r0) = refreshed (label, m, t) (scan_flow r0)"
    by (simp add: scan_flow_def refreshed_def meta_column_def time_column_def)
  have "shown_flow (snd (RefreshFlow ft i label m t l)) k = ((shown_flow l)(i \<mapsto> refreshed (label, m, t) (scan_flow r0))) k" for k
  proof (cases "k = i")
    case True
    then show ?thesis using r0 g find_flow_key [OF r0] by (simp add: shown_flow_def flows upd)
  next
    case False
    then have "map_option (\<lambda>r. if a_flow_id r = i then ?g r else r) (find (\<lambda>r. a_flow_id r = k) (active_flows l))
        = find (\<lambda>r. a_flow_id r = k) (active_flows l)"
      using find_flow_key [of k "active_flows l"] by (cases "find (\<lambda>r. a_flow_id r = k) (active_flows l)") auto
    with False show ?thesis by (simp add: shown_flow_def flows upd)
  qed
  with r0 show ?thesis by (auto simp: shown_flow_def)
qed

interpretation fs: flow_store shown_flow RegisterFlow "\<lambda>ft i (label, m, t). RefreshFlow ft i label m t"
    "\<lambda>ft i (status, t). TerminateFlow ft i status t" af_FlowID registered refreshed no_faults
proof (unfold_locales, goal_cases)
  case (1 x f db)
  then show ?case by (rule register_shown)
next
  case (2 x f db)
  then show ?case by (auto simp: RegisterFlow_def Let_def split: if_splits option.splits)
next
  case (3 db f)
  then show ?case by (auto simp: RegisterFlow_def no_faults_def Let_def insert_flow_row_def shown_flow_def
      find_new [symmetric])
next
  case (4 x i u db)
  then show ?case using refresh_shown by (auto split: prod.splits)
next
  case (5 x i u db)
  then show ?case by (auto simp: RefreshFlow_def Let_def split: if_splits option.splits prod.splits)
next
  case (6 db i u)
  obtain label m t where u: "u = (label, m, t)" by (cases u)
  from 6 obtain r0 where "find (\<lambda>r. a_flow_id r = i) (active_flows db) = Some r0" by (auto simp: shown_flow_def)
  then show ?case by (simp add: u RefreshFlow_def no_faults_def Let_def find_update)
next
  case (7 x i t db)
  then show ?case by (auto simp: TerminateFlow_def Let_def shown_flow_def find_remove fun_eq_iff
      split: if_splits prod.splits)
next
  case (8 x i t db)
  then show ?case by (auto simp: TerminateFlow_def Let_def split: if_splits prod.splits)
next
  case (9 i t db)
  then show ?case by (simp add: TerminateFlow_def no_faults_def Let_def split: prod.split)
qed

end
