(* ===== verification/StateFiles.thy ===== *)
theory StateFiles
  imports Crockford Payload
begin

text \<open>
  Package state (cli/internal/state): the files under the state directory (daemon id, tokens,
  user name, TLS pair, device registry) on a model of the file system whose calls may fail,
  and the identifiers the daemon generates. Random bytes, UUIDs and SHA-256 are arguments.
\<close>

section \<open>The file system\<close>

text \<open>
  A file holds bytes, or the text \<^verbatim>\<open>json.MarshalIndent\<close> makes of a JSON value (parsing that
  text gives the value; the text itself is not modelled).
\<close>

datatype content =
    Text string
  | JsonText json

record inode =
  f_content :: content
  f_mode :: nat

type_synonym fs = "string \<Rightarrow> inode option"

text \<open>
  Which system calls fail, by path. A failing write may leave any content behind; a read that
  fails for a file that is there is not a "not exist" error.
\<close>

record io =
  mkdir_err :: "string \<Rightarrow> bool"
  write_err :: "string \<Rightarrow> content option"
  rename_err :: "string \<Rightarrow> bool"
  remove_err :: "string \<Rightarrow> bool"
  read_err :: "string \<Rightarrow> bool"
  stat_err :: "string \<Rightarrow> bool"
  rand_err :: bool

datatype state_error =
    CreateDir | WriteTmp | Rename | ReadFile string | ParseDevices | RandRead
  | RemoveFile string | StatFile string | Encode_failed | MarshalDevices

datatype read_result = NotExist | ReadErr | ReadOk content

definition os_ReadFile :: "io \<Rightarrow> fs \<Rightarrow> string \<Rightarrow> read_result" where
  "os_ReadFile e fs p = (if read_err e p then ReadErr
     else case fs p of None \<Rightarrow> NotExist | Some f \<Rightarrow> ReadOk (f_content f))"

text \<open>\<^verbatim>\<open>os.WriteFile\<close> keeps the mode of a file that is already there.\<close>

definition put_file :: "fs \<Rightarrow> string \<Rightarrow> content \<Rightarrow> nat \<Rightarrow> fs" where
  "put_file fs p c perm = fs(p \<mapsto> (case fs p of
      None \<Rightarrow> \<lparr> f_content = c, f_mode = perm \<rparr> | Some f \<Rightarrow> f\<lparr> f_content := c \<rparr>))"

definition os_Remove :: "io \<Rightarrow> fs \<Rightarrow> string \<Rightarrow> fs" where
  "os_Remove e fs p = (if remove_err e p then fs else fs(p := None))"

definition dir_of :: "string \<Rightarrow> string" where
  "dir_of p = (case last_index_byte (CHR ''/'') p of None \<Rightarrow> ''.'' | Some i \<Rightarrow> take i p)"

text \<open>
  \<^verbatim>\<open>writeAtomicBytes\<close> as the states the file system goes through, one per system call, with
  the error returned.
\<close>

definition tmp_of :: "string \<Rightarrow> string" where
  "tmp_of p = p @ ''.tmp''"

definition writeAtomicBytes_run ::
    "io \<Rightarrow> fs \<Rightarrow> string \<Rightarrow> content \<Rightarrow> nat \<Rightarrow> state_error option \<times> fs list" where
  "writeAtomicBytes_run e fs p c perm =
     (if mkdir_err e (dir_of p) then (Some CreateDir, [fs])
      else case write_err e (tmp_of p) of
        Some junk \<Rightarrow> (Some WriteTmp, [fs, put_file fs (tmp_of p) junk perm])
      | None \<Rightarrow>
          (let fs1 = put_file fs (tmp_of p) c perm in
           if rename_err e p then (Some Rename, [fs, fs1, os_Remove e fs1 (tmp_of p)])
           else (None, [fs, fs1, fs1(tmp_of p := None, p := fs1 (tmp_of p))])))"

definition writeAtomicBytes ::
    "io \<Rightarrow> fs \<Rightarrow> string \<Rightarrow> content \<Rightarrow> nat \<Rightarrow> state_error option \<times> fs" where
  "writeAtomicBytes e fs p c perm =
     (let (err, states) = writeAtomicBytes_run e fs p c perm in (err, last states))"

definition perm600 :: nat where "perm600 = 384"
definition perm644 :: nat where "perm644 = 420"

definition writeAtomic :: "io \<Rightarrow> fs \<Rightarrow> string \<Rightarrow> string \<Rightarrow> state_error option \<times> fs" where
  "writeAtomic e fs p val = writeAtomicBytes e fs p (Text (val @ [CHR 0x0A])) perm600"

text \<open>The bytes of a text file; a registry file read as text stays out of the model.\<close>

fun text_of :: "content \<Rightarrow> string" where
  "text_of (Text s) = s"
| "text_of (JsonText j) = ''''"

definition loadOrGenerate ::
    "io \<Rightarrow> fs \<Rightarrow> string \<Rightarrow> (state_error + string) \<Rightarrow> (state_error + string) \<times> fs" where
  "loadOrGenerate e fs p generate =
     (case os_ReadFile e fs p of
        ReadOk c \<Rightarrow> (Inr (trim_space (text_of c)), fs)
      | ReadErr \<Rightarrow> (Inl (ReadFile p), fs)
      | NotExist \<Rightarrow>
          (case generate of
             Inl err \<Rightarrow> (Inl err, fs)
           | Inr val \<Rightarrow>
               (case writeAtomic e fs p val of
                  (Some err, fs') \<Rightarrow> (Inl err, fs')
                | (None, fs') \<Rightarrow> (Inr val, fs'))))"

section \<open>Identifiers\<close>

text \<open>A prefix and the encoding of the first \<open>n\<close> bits of the random bytes.\<close>

definition gen_id :: "string \<Rightarrow> nat \<Rightarrow> io \<Rightarrow> byte list \<Rightarrow> state_error + string" where
  "gen_id pre n e rnd =
     (if rand_err e then Inl RandRead
      else case EncodeBits rnd n of Inl _ \<Rightarrow> Inl Encode_failed | Inr enc \<Rightarrow> Inr (pre @ enc))"

definition GenerateDeviceID :: "io \<Rightarrow> byte list \<Rightarrow> state_error + string" where
  "GenerateDeviceID e rnd = gen_id ''mb_'' 65 e rnd"

definition GenerateDeviceToken :: "io \<Rightarrow> byte list \<Rightarrow> state_error + string" where
  "GenerateDeviceToken e rnd = gen_id ''rn_tk_'' 256 e rnd"

definition LoadOrGenerateDaemonID :: "io \<Rightarrow> fs \<Rightarrow> byte list \<Rightarrow> string \<Rightarrow> (state_error + string) \<times> fs" where
  "LoadOrGenerateDaemonID e fs rnd p = loadOrGenerate e fs p (gen_id ''dn_'' 65 e rnd)"

definition LoadOrGenerateToken :: "io \<Rightarrow> fs \<Rightarrow> byte list \<Rightarrow> string \<Rightarrow> (state_error + string) \<times> fs" where
  "LoadOrGenerateToken e fs rnd p = loadOrGenerate e fs p (gen_id ''rn_tk_'' 256 e rnd)"

definition GenerateToken :: "io \<Rightarrow> fs \<Rightarrow> byte list \<Rightarrow> string \<Rightarrow> (state_error + string) \<times> fs" where
  "GenerateToken e fs rnd p =
     (case gen_id ''rn_tk_'' 256 e rnd of
        Inl err \<Rightarrow> (Inl err, fs)
      | Inr tok \<Rightarrow>
          (case writeAtomic e fs p tok of
             (Some err, fs') \<Rightarrow> (Inl err, fs')
           | (None, fs') \<Rightarrow> (Inr tok, fs')))"

text \<open>The errors of \<^verbatim>\<open>EncodeBits\<close> are dropped here; the UUID has 16 bytes, the hash 32.\<close>

definition enc_or_empty :: "byte list \<Rightarrow> nat \<Rightarrow> string" where
  "enc_or_empty b n = (case EncodeBits b n of Inl _ \<Rightarrow> '''' | Inr s \<Rightarrow> s)"

definition GenerateFlowID :: "byte list \<Rightarrow> string" where
  "GenerateFlowID uuid = ''fl_'' @ enc_or_empty uuid 128"

definition GenerateNotificationID :: "byte list \<Rightarrow> string" where
  "GenerateNotificationID uuid = ''ntf_'' @ enc_or_empty uuid 80"

definition WorkspaceID :: "(string \<Rightarrow> byte list) \<Rightarrow> string \<Rightarrow> string \<Rightarrow> string" where
  "WorkspaceID sha256 daemonID absPath = ''ws_'' @ enc_or_empty (sha256 (daemonID @ ''|'' @ absPath)) 80"

text \<open>\<^verbatim>\<open>path.Base\<close>.\<close>

definition DisplayName :: "string \<Rightarrow> string" where
  "DisplayName p =
     (if p = '''' then ''.''
      else
        let q = rev (dropWhile (\<lambda>c. c = CHR ''/'') (rev p));
            b = (case last_index_byte (CHR ''/'') q of None \<Rightarrow> q | Some i \<Rightarrow> drop (Suc i) q)
        in if b = '''' then ''/'' else b)"

section \<open>The device registry\<close>

record PairedDevice =
  pd_DeviceID :: string
  pd_Token :: string
  pd_PairedAt :: time

definition zero_pd :: PairedDevice where
  "zero_pd = \<lparr> pd_DeviceID = '''', pd_Token = '''', pd_PairedAt = zero_time \<rparr>"

definition pd_fields :: "(string \<times> PairedDevice field) list" where
  "pd_fields = [(''device_id'', d_str pd_DeviceID_update), (''token'', d_str pd_Token_update),
     (''paired_at'', d_time pd_PairedAt_update)]"

fun dec_devices_elems :: "json list \<Rightarrow> PairedDevice list option" where
  "dec_devices_elems [] = Some []"
| "dec_devices_elems (v # vs) = Option.bind (dec_struct pd_fields zero_pd v)
     (\<lambda>d. map_option ((#) d) (dec_devices_elems vs))"

definition dec_devices :: "json \<Rightarrow> PairedDevice list option" where
  "dec_devices j = (case j of JNull \<Rightarrow> Some [] | JArr vs \<Rightarrow> dec_devices_elems vs | _ \<Rightarrow> None)"

definition enc_pd :: "PairedDevice \<Rightarrow> json" where
  "enc_pd d = JObj (e_str ''device_id'' (pd_DeviceID d) @ e_str ''token'' (pd_Token d)
     @ e_time ''paired_at'' (pd_PairedAt d))"

definition LoadDevices :: "io \<Rightarrow> fs \<Rightarrow> string \<Rightarrow> state_error + PairedDevice list" where
  "LoadDevices e fs p =
     (case os_ReadFile e fs p of
        NotExist \<Rightarrow> Inr []
      | ReadErr \<Rightarrow> Inl (ReadFile p)
      | ReadOk (Text s) \<Rightarrow> Inl ParseDevices
      | ReadOk (JsonText j) \<Rightarrow>
          (case dec_devices j of None \<Rightarrow> Inl ParseDevices | Some ds \<Rightarrow> Inr ds))"

text \<open>Marshalling a time outside the years 0 to 9999 fails.\<close>

definition SaveDevices :: "io \<Rightarrow> fs \<Rightarrow> string \<Rightarrow> PairedDevice list \<Rightarrow> state_error option \<times> fs" where
  "SaveDevices e fs p ds =
     (if list_all (\<lambda>d. four_digit_year (pd_PairedAt d)) ds
      then writeAtomicBytes e fs p (JsonText (JArr (map enc_pd ds))) perm600
      else (Some MarshalDevices, fs))"

definition AddDevice :: "io \<Rightarrow> fs \<Rightarrow> string \<Rightarrow> PairedDevice \<Rightarrow> state_error option \<times> fs" where
  "AddDevice e fs p d =
     (case LoadDevices e fs p of
        Inl err \<Rightarrow> (Some err, fs)
      | Inr ds \<Rightarrow> SaveDevices e fs p (ds @ [d]))"

definition RemoveDevice :: "io \<Rightarrow> fs \<Rightarrow> string \<Rightarrow> string \<Rightarrow> bool \<times> state_error option \<times> fs" where
  "RemoveDevice e fs p deviceID =
     (case LoadDevices e fs p of
        Inl err \<Rightarrow> (False, Some err, fs)
      | Inr ds \<Rightarrow>
          let filtered = filter (\<lambda>d. pd_DeviceID d \<noteq> deviceID) ds;
              found = list_ex (\<lambda>d. pd_DeviceID d = deviceID) ds
          in if \<not> found then (False, None, fs) else (True, SaveDevices e fs p filtered))"

definition ClearDevices :: "io \<Rightarrow> fs \<Rightarrow> string \<Rightarrow> state_error option \<times> fs" where
  "ClearDevices e fs p = SaveDevices e fs p []"


section \<open>Pairing, migration, TLS\<close>

definition WriteUsername :: "io \<Rightarrow> fs \<Rightarrow> string \<Rightarrow> string \<Rightarrow> state_error option \<times> fs" where
  "WriteUsername e fs p username = writeAtomic e fs p username"

definition LoadPairingToken :: "io \<Rightarrow> fs \<Rightarrow> string \<Rightarrow> state_error + string" where
  "LoadPairingToken e fs p =
     (case os_ReadFile e fs p of
        NotExist \<Rightarrow> Inr '''' | ReadErr \<Rightarrow> Inl (ReadFile p)
      | ReadOk c \<Rightarrow> Inr (trim_space (text_of c)))"

definition LoadPairingUsername :: "io \<Rightarrow> fs \<Rightarrow> string \<Rightarrow> state_error + string" where
  "LoadPairingUsername e fs p =
     (case os_ReadFile e fs p of
        NotExist \<Rightarrow> Inr '''' | ReadErr \<Rightarrow> Inl (ReadFile p)
      | ReadOk c \<Rightarrow> Inr (trim_space (text_of c)))"

definition DeletePairingToken :: "io \<Rightarrow> fs \<Rightarrow> string \<Rightarrow> state_error option \<times> fs" where
  "DeletePairingToken e fs p =
     (if fs p \<noteq> None \<and> remove_err e p then (Some (RemoveFile p), fs) else (None, fs(p := None)))"

definition DeletePairingUsername :: "io \<Rightarrow> fs \<Rightarrow> string \<Rightarrow> state_error option \<times> fs" where
  "DeletePairingUsername e fs p =
     (if fs p \<noteq> None \<and> remove_err e p then (Some (RemoveFile p), fs) else (None, fs(p := None)))"

definition NatsUsername :: "string \<Rightarrow> string" where
  "NatsUsername deviceID = ''mobile-'' @ deviceID"

text \<open>
  \<^verbatim>\<open>now\<close> is the time of the call. An error reading the legacy token counts as no token, and an
  error of the first \<^verbatim>\<open>os.Stat\<close> as a missing registry.
\<close>

definition MigrateFromSingleToken ::
    "io \<Rightarrow> fs \<Rightarrow> byte list \<Rightarrow> time \<Rightarrow> string \<Rightarrow> string \<Rightarrow> string \<Rightarrow> state_error option \<times> fs" where
  "MigrateFromSingleToken e fs rnd now tokenPath usernamePath devicesPath =
     (if fs devicesPath \<noteq> None \<and> \<not> stat_err e devicesPath then (None, fs)
      else case LoadPairingToken e fs tokenPath of
        Inl _ \<Rightarrow> (None, fs)
      | Inr token \<Rightarrow>
          if token = '''' then (None, fs)
          else case GenerateDeviceID e rnd of
            Inl err \<Rightarrow> (Some err, fs)
          | Inr deviceID \<Rightarrow>
              (case SaveDevices e fs devicesPath
                      [\<lparr> pd_DeviceID = deviceID, pd_Token = token, pd_PairedAt = now \<rparr>] of
                 (Some err, fs') \<Rightarrow> (Some err, fs')
               | (None, fs') \<Rightarrow>
                   (None, os_Remove e (os_Remove e fs' tokenPath) usernamePath)))"

definition fileExists :: "io \<Rightarrow> fs \<Rightarrow> string \<Rightarrow> state_error + bool" where
  "fileExists e fs p = (if stat_err e p then Inl (StatFile p) else Inr (fs p \<noteq> None))"

definition LoadTLS :: "io \<Rightarrow> fs \<Rightarrow> string \<Rightarrow> string \<Rightarrow> state_error + string \<times> string" where
  "LoadTLS e fs certPath keyPath =
     (case fileExists e fs certPath of
        Inl err \<Rightarrow> Inl err
      | Inr certOK \<Rightarrow>
          (case fileExists e fs keyPath of
             Inl err \<Rightarrow> Inl err
           | Inr keyOK \<Rightarrow>
               if \<not> certOK \<or> \<not> keyOK then Inr ('''', '''') else Inr (certPath, keyPath)))"

definition WriteTLS :: "io \<Rightarrow> fs \<Rightarrow> string \<Rightarrow> string \<Rightarrow> string \<Rightarrow> string \<Rightarrow> state_error option \<times> fs" where
  "WriteTLS e fs certPath certPEM keyPath keyPEM =
     (case writeAtomicBytes e fs certPath (Text certPEM) perm644 of
        (Some err, fs1) \<Rightarrow> (Some err, fs1)
      | (None, fs1) \<Rightarrow>
          (case writeAtomicBytes e fs1 keyPath (Text keyPEM) perm600 of
             (Some err, fs2) \<Rightarrow> (Some err, os_Remove e fs2 certPath)
           | (None, fs2) \<Rightarrow> (None, fs2)))"

section \<open>Atomic writes\<close>

lemma tmp_of_neq [simp]: "tmp_of p \<noteq> p" "p \<noteq> tmp_of p"
  by (simp_all add: tmp_of_def)

text \<open>
  In every state a crash could leave behind, the target is as before or complete, and no other
  file than the target and its temporary is touched.
\<close>

lemma writeAtomicBytes_states:
  assumes "writeAtomicBytes_run e fs p c perm = (err, states)" and "s \<in> set states"
  shows "s p = fs p \<or> (\<exists>f. s p = Some f \<and> f_content f = c)"
    and "q \<noteq> p \<Longrightarrow> q \<noteq> tmp_of p \<Longrightarrow> s q = fs q"
  using assms
  by (auto simp: writeAtomicBytes_run_def put_file_def os_Remove_def Let_def
      split: if_splits option.splits)

lemma writeAtomicBytes_result:
  assumes "writeAtomicBytes e fs p c perm = (err, fs')"
  shows "err = None \<Longrightarrow> \<exists>f. fs' p = Some f \<and> f_content f = c"
    and "err \<noteq> None \<Longrightarrow> fs' p = fs p"
    and "q \<noteq> p \<Longrightarrow> q \<noteq> tmp_of p \<Longrightarrow> fs' q = fs q"
    and "err = None \<Longrightarrow> fs (tmp_of p) = None \<Longrightarrow>
           fs' p = Some \<lparr> f_content = c, f_mode = perm \<rparr> \<and> fs' (tmp_of p) = None"
  using assms
  by (auto simp: writeAtomicBytes_def writeAtomicBytes_run_def put_file_def os_Remove_def Let_def
      split: if_splits option.splits)

section \<open>Text read back\<close>

lemma white_not_visible: "w \<in> set white_seqs \<Longrightarrow> w \<noteq> [] \<and> \<not> visible (hd w) \<and> \<not> visible (last w)"
proof -
  have "list_all (\<lambda>w. w \<noteq> [] \<and> \<not> visible (hd w) \<and> \<not> visible (last w)) white_seqs"
    by (simp add: white_seqs_def visible_def)
  then show "w \<in> set white_seqs \<Longrightarrow> w \<noteq> [] \<and> \<not> visible (hd w) \<and> \<not> visible (last w)"
    by (simp add: list_all_iff)
qed

lemma white_len_visible: "visible c \<Longrightarrow> white_len (c # s) = 0"
proof -
  assume "visible c"
  then have "\<not> prefix w (c # s)" if "w \<in> set white_seqs" for w
    using white_not_visible [OF that] by (cases w) auto
  then have "find (\<lambda>w. prefix w (c # s)) white_seqs = None" by (simp add: find_None_iff)
  then show ?thesis by (simp add: white_len_def)
qed

lemma white_len_rev_visible: "visible c \<Longrightarrow> white_len_rev (s @ [c]) = 0"
proof -
  assume "visible c"
  then have "\<not> suffix w (s @ [c])" if "w \<in> set white_seqs" for w
    using white_not_visible [OF that] by (cases w rule: rev_cases) auto
  then have "find (\<lambda>w. suffix w (s @ [c])) white_seqs = None" by (simp add: find_None_iff)
  then show ?thesis by (simp add: white_len_rev_def)
qed

lemma white_len_rev_newline: "white_len_rev (s @ [CHR 0x0A]) = 1"
proof -
  have "white_seqs = [CHR 0x20] # [CHR 0x09] # [CHR 0x0A] # drop 3 white_seqs"
    by (simp add: white_seqs_def)
  moreover have "\<not> suffix [CHR 0x20] (s @ [CHR 0x0A])" "\<not> suffix [CHR 0x09] (s @ [CHR 0x0A])"
    "suffix [CHR 0x0A] (s @ [CHR 0x0A])" by simp_all
  ultimately have "find (\<lambda>w. suffix w (s @ [CHR 0x0A])) white_seqs = Some [CHR 0x0A]"
    by (metis (no_types, lifting) find.simps(2))
  then show ?thesis by (simp add: white_len_rev_def)
qed

lemma trim_space_line:
  assumes "list_all visible s"
  shows "trim_space (s @ [CHR 0x0A]) = s"
proof (cases s rule: rev_cases)
  case Nil
  have "white_len [CHR 0x0A] = 1" by (simp add: white_len_def white_seqs_def)
  then have "trim_space [CHR 0x0A] = ''''"
    by (simp add: trim_space_def trim_left.simps [of "[CHR 0x0A]"] trim_left.simps [of "[]"]
        trim_right.simps [of "[]"])
  with Nil show ?thesis by simp
next
  case (snoc u c)
  with assms have c: "visible c" by simp
  have "s @ [CHR 0x0A] = hd s # tl s @ [CHR 0x0A]" and "visible (hd s)"
    using snoc assms by (cases u; simp)+
  then have "trim_left (s @ [CHR 0x0A]) = s @ [CHR 0x0A]"
    by (metis trim_left.simps white_len_visible)
  moreover have "trim_right (s @ [CHR 0x0A]) = trim_right s"
    by (subst trim_right.simps) (simp add: white_len_rev_newline)
  moreover have "trim_right s = s"
    using white_len_rev_visible [OF c] snoc by (subst trim_right.simps) simp
  ultimately show ?thesis by (simp add: trim_space_def)
qed


section \<open>A store that is loaded, changed and saved\<close>

text \<open>
  What the registry operations rely on: a store that could be loaded, once saved, loads as what
  was saved, and a save that fails leaves it loading as before.
\<close>

locale saved_store =
  fixes load :: "'s \<Rightarrow> 'e + 'd"
    and save :: "'s \<Rightarrow> 'd \<Rightarrow> 'e option \<times> 's"
  assumes load_saved: "load s = Inr d0 \<Longrightarrow> save s d = (None, s') \<Longrightarrow> load s' = Inr d"
    and load_unsaved: "save s d = (Some err, s') \<Longrightarrow> load s' = load s"
begin

lemma load_after:
  "load s = Inr d0 \<Longrightarrow> save s d = (err, s') \<Longrightarrow> load s' = Inr (if err = None then d else d0)"
proof (cases err)
  case None
  then show "load s = Inr d0 \<Longrightarrow> save s d = (err, s') \<Longrightarrow> ?thesis" using load_saved [of s d0 d s'] by simp
next
  case (Some a)
  then show "load s = Inr d0 \<Longrightarrow> save s d = (err, s') \<Longrightarrow> ?thesis"
    using load_unsaved [of s d a s'] by simp
qed

lemma two_saves:
  "load s = Inr d0 \<Longrightarrow> save s d1 = (None, s1) \<Longrightarrow> save s1 d2 = (None, s2) \<Longrightarrow> load s2 = Inr d2"
  by (blast intro: load_saved)

end

lemma fold_device_names [simp]:
  "fold_key ''device_id'' = ''device_id''" "fold_key ''token'' = ''token''"
  "fold_key ''paired_at'' = ''paired_at''"
  by (rule fold_plain; simp add: plain_char_def)+

lemma dec_enc_devices:
  "list_all (\<lambda>d. four_digit_year (pd_PairedAt d)) ds \<Longrightarrow> dec_devices (JArr (map enc_pd ds)) = Some ds"
proof -
  have "four_digit_year (pd_PairedAt d) \<Longrightarrow> dec_struct pd_fields zero_pd (enc_pd d) = Some d" for d
    by (cases d) (simp add: enc_pd_def dec_encoded pd_fields_def zero_pd_def)
  then show "list_all (\<lambda>d. four_digit_year (pd_PairedAt d)) ds \<Longrightarrow> ?thesis"
    by (induction ds) (simp_all add: dec_devices_def)
qed

lemma LoadDevices_readable:
  "LoadDevices e fs p = Inr ds \<Longrightarrow> \<not> read_err e p"
  by (auto simp: LoadDevices_def os_ReadFile_def)

lemma LoadDevices_cong: "fs' p = fs p \<or> (\<exists>m m'. fs p = Some m \<and> fs' p = Some m' \<and> f_content m = f_content m')
    \<Longrightarrow> LoadDevices e fs' p = LoadDevices e fs p"
  by (auto simp: LoadDevices_def os_ReadFile_def)

lemma LoadDevices_content:
  "\<not> read_err e p \<Longrightarrow> fs p = Some f \<Longrightarrow> f_content f = JsonText (JArr (map enc_pd ds)) \<Longrightarrow>
     list_all (\<lambda>d. four_digit_year (pd_PairedAt d)) ds \<Longrightarrow> LoadDevices e fs p = Inr ds"
  by (simp add: LoadDevices_def os_ReadFile_def dec_enc_devices)

interpretation devices: saved_store "\<lambda>fs. LoadDevices e fs p" "\<lambda>fs ds. SaveDevices e fs p ds" for e p
proof
  fix fs ds0 ds fs'
  assume load: "LoadDevices e fs p = Inr ds0" and save: "SaveDevices e fs p ds = (None, fs')"
  from save have ok: "list_all (\<lambda>d. four_digit_year (pd_PairedAt d)) ds"
    and w: "writeAtomicBytes e fs p (JsonText (JArr (map enc_pd ds))) perm600 = (None, fs')"
    by (auto simp: SaveDevices_def split: if_splits)
  from writeAtomicBytes_result(1) [OF w] ok LoadDevices_readable [OF load]
  show "LoadDevices e fs' p = Inr ds" by (auto intro: LoadDevices_content)
next
  fix fs ds err fs'
  assume "SaveDevices e fs p ds = (Some err, fs')"
  then have "fs' p = fs p"
    by (auto simp: SaveDevices_def split: if_splits dest: writeAtomicBytes_result(2))
  then show "LoadDevices e fs' p = LoadDevices e fs p" by (simp add: LoadDevices_cong)
qed

section \<open>Identifiers\<close>

lemma gen_id_ok:
  "gen_id pre n e rnd = Inr s \<Longrightarrow>
     \<exists>enc. s = pre @ enc \<and> EncodeBits rnd n = Inr enc \<and> length enc = (n + 4) div 5 \<and> set enc \<subseteq> set alphabet"
  by (auto simp: gen_id_def dest: EncodeBits_length EncodeBits_alphabet split: if_splits sum.splits)

lemma enc_or_empty_ok:
  "n \<le> 8 * length b \<Longrightarrow> EncodeBits b n = Inr (enc_or_empty b n)
     \<and> length (enc_or_empty b n) = (n + 4) div 5 \<and> set (enc_or_empty b n) \<subseteq> set alphabet"
  using EncodeBits_total [of n b]
  by (auto simp: enc_or_empty_def dest: EncodeBits_length subsetD [OF EncodeBits_alphabet])

lemma alphabet_visible: "c \<in> set alphabet \<Longrightarrow> visible c"
proof -
  have "list_all visible alphabet" by code_simp
  then show "c \<in> set alphabet \<Longrightarrow> visible c" by (simp add: list_all_iff)
qed

lemma gen_id_visible:
  "gen_id pre n e rnd = Inr s \<Longrightarrow> list_all visible pre \<Longrightarrow> list_all visible s"
  using alphabet_visible by (fastforce simp: list_all_iff dest!: gen_id_ok)

section \<open>Properties\<close>

text \<open>
  C12 (safety): atomic replacement of the device registry. In every state the file system goes
  through while a registry is saved (so after a crash at any point), the registry loads as the
  old list or as the new one, and no file but it and its temporary has changed.
\<close>

theorem save_devices_atomic:
  assumes "list_all (\<lambda>d. four_digit_year (pd_PairedAt d)) ds" and "\<not> read_err e p"
    and "s \<in> set (snd (writeAtomicBytes_run e fs p (JsonText (JArr (map enc_pd ds))) perm600))"
  shows "(LoadDevices e s p = LoadDevices e fs p \<or> LoadDevices e s p = Inr ds)
    \<and> (\<forall>q. q = p \<or> q = tmp_of p \<or> s q = fs q)"
proof -
  obtain err states where run: "writeAtomicBytes_run e fs p (JsonText (JArr (map enc_pd ds))) perm600 = (err, states)"
    by force
  with assms(3) have "s \<in> set states" by simp
  note st = writeAtomicBytes_states [OF run this]
  from st(1) have "LoadDevices e s p = LoadDevices e fs p \<or> LoadDevices e s p = Inr ds"
    using LoadDevices_cong [of s p fs] LoadDevices_content [OF assms(2) _ _ assms(1)] by blast
  with st(2) show ?thesis by blast
qed

definition io_ok :: io where
  "io_ok = \<lparr> mkdir_err = (\<lambda>_. False), write_err = (\<lambda>_. None), rename_err = (\<lambda>_. False),
     remove_err = (\<lambda>_. False), read_err = (\<lambda>_. False), stat_err = (\<lambda>_. False), rand_err = False \<rparr>"

lemma io_ok_sel [simp]:
  "mkdir_err io_ok p = False" "write_err io_ok p = None" "rename_err io_ok p = False"
  "remove_err io_ok p = False" "read_err io_ok p = False" "stat_err io_ok p = False"
  "rand_err io_ok = False"
  by (simp_all add: io_ok_def)

definition one_device :: PairedDevice where
  "one_device = \<lparr> pd_DeviceID = ''mb_1'', pd_Token = ''rn_tk_1'', pd_PairedAt = 0 \<rparr>"

theorem save_devices_atomic_witness:
  "\<exists>s. s (tmp_of ''d'') \<noteq> None \<and> LoadDevices io_ok s ''d'' = Inr []
     \<and> ((LoadDevices io_ok s ''d'' = LoadDevices io_ok Map.empty ''d'' \<or> LoadDevices io_ok s ''d'' = Inr [one_device])
    \<and> (\<forall>q. q = ''d'' \<or> q = tmp_of ''d'' \<or> s q = Map.empty q))"
proof (intro exI conjI)
  let ?s = "put_file Map.empty (tmp_of ''d'') (JsonText (JArr (map enc_pd [one_device]))) perm600"
  have r: "?s \<in> set (snd (writeAtomicBytes_run io_ok Map.empty ''d'' (JsonText (JArr (map enc_pd [one_device]))) perm600))"
    by (simp add: writeAtomicBytes_run_def io_ok_def Let_def)
  have "list_all (\<lambda>d. four_digit_year (pd_PairedAt d)) [one_device]"
    by (simp add: one_device_def four_digit_year_def)
  from save_devices_atomic [OF this _ r] show
    "LoadDevices io_ok ?s ''d'' = LoadDevices io_ok Map.empty ''d'' \<or> LoadDevices io_ok ?s ''d'' = Inr [one_device]"
    "\<forall>q. q = ''d'' \<or> q = tmp_of ''d'' \<or> ?s q = Map.empty q"
    by (simp_all add: io_ok_def)
  show "?s (tmp_of ''d'') \<noteq> None" by (simp add: put_file_def)
  show "LoadDevices io_ok ?s ''d'' = Inr []"
    by (simp add: LoadDevices_def os_ReadFile_def put_file_def io_ok_def)
qed


text \<open>
  C39 (functional): the registry operations. On a registry that loads, \<^verbatim>\<open>AddDevice\<close> that succeeds
  leaves the old list with the device at its end; \<^verbatim>\<open>RemoveDevice\<close> that reports a removal and
  no error leaves exactly the other devices, in order; it reports no removal, and writes
  nothing, exactly when the id is absent; clearing leaves none; and whenever one of them
  reports an error the registry loads as before.
\<close>

theorem registry_operations:
  assumes load: "LoadDevices e fs p = Inr ds"
  shows "(case AddDevice e fs p d of (err, fs') \<Rightarrow>
       LoadDevices e fs' p = Inr (if err = None then ds @ [d] else ds))
    \<and> (case RemoveDevice e fs p i of (found, err, fs') \<Rightarrow>
       (found \<longleftrightarrow> i \<in> pd_DeviceID ` set ds) \<and> (\<not> found \<longrightarrow> err = None \<and> fs' = fs)
       \<and> LoadDevices e fs' p = Inr (if err = None then filter (\<lambda>d. pd_DeviceID d \<noteq> i) ds else ds))
    \<and> (case ClearDevices e fs p of (err, fs') \<Rightarrow> LoadDevices e fs' p = Inr (if err = None then [] else ds))"
proof -
  note after = devices.load_after [OF load]
  have "(found \<longleftrightarrow> i \<in> pd_DeviceID ` set ds) \<and> (\<not> found \<longrightarrow> err = None \<and> fs' = fs)
       \<and> LoadDevices e fs' p = Inr (if err = None then filter (\<lambda>d. pd_DeviceID d \<noteq> i) ds else ds)"
    if rm: "RemoveDevice e fs p i = (found, err, fs')" for found err fs'
  proof (cases "i \<in> pd_DeviceID ` set ds")
    case True
    then have "list_ex (\<lambda>d. pd_DeviceID d = i) ds" by (auto simp: list_ex_iff)
    with rm load have "found" and "SaveDevices e fs p (filter (\<lambda>d. pd_DeviceID d \<noteq> i) ds) = (err, fs')"
      by (simp_all add: RemoveDevice_def Let_def)
    with True after [OF this(2)] show ?thesis by simp
  next
    case False
    then have no: "\<not> list_ex (\<lambda>d. pd_DeviceID d = i) ds" and "\<forall>d \<in> set ds. pd_DeviceID d \<noteq> i"
      by (auto simp: list_ex_iff)
    from this(2) have "filter (\<lambda>d. pd_DeviceID d \<noteq> i) ds = ds" by simp
    with rm load no False show ?thesis by (simp add: RemoveDevice_def Let_def)
  qed
  with after show ?thesis
    by (simp add: AddDevice_def ClearDevices_def load split: prod.splits)
qed

theorem registry_operations_witness:
  "LoadDevices io_ok (snd (AddDevice io_ok Map.empty ''d'' one_device)) ''d'' = Inr [one_device]"
proof -
  have load: "LoadDevices io_ok Map.empty ''d'' = Inr []" by (simp add: LoadDevices_def os_ReadFile_def io_ok_def)
  moreover have "fst (AddDevice io_ok Map.empty ''d'' one_device) = None"
    unfolding AddDevice_def load
    by (simp add: SaveDevices_def one_device_def four_digit_year_def writeAtomicBytes_def
        writeAtomicBytes_run_def io_ok_def Let_def)
  ultimately show ?thesis
    using registry_operations [OF load, of one_device] by (simp add: split_beta)
qed

lemma writeAtomic_load:
  assumes "writeAtomic e fs p val = (None, fs')" and "\<not> read_err e p" and "list_all visible val"
  shows "loadOrGenerate e fs' p g = (Inr val, fs')"
proof -
  from assms(1) writeAtomicBytes_result(1) [of e fs p "Text (val @ [CHR 0x0A])" perm600 None fs']
  have "os_ReadFile e fs' p = ReadOk (Text (val @ [CHR 0x0A]))"
    using assms(2) by (auto simp: writeAtomic_def os_ReadFile_def)
  then show ?thesis by (simp add: loadOrGenerate_def trim_space_line [OF assms(3)])
qed

text \<open>
  The daemon id is generated once. After a call of
  \<^verbatim>\<open>LoadOrGenerateDaemonID\<close> that returned an id from a missing file, every later call returns
  the same id whatever its random bytes and writes nothing; the id is \<^verbatim>\<open>dn_\<close> and 13 characters
  of the alphabet.
\<close>

theorem daemon_id_stable:
  assumes "fs p = None" and "LoadOrGenerateDaemonID e fs rnd p = (Inr dn, fs')"
  shows "LoadOrGenerateDaemonID e fs' rnd' p = (Inr dn, fs')
    \<and> (\<exists>enc. dn = ''dn_'' @ enc \<and> length enc = 13 \<and> set enc \<subseteq> set alphabet)"
proof -
  from assms have rd: "\<not> read_err e p" by (auto simp: LoadOrGenerateDaemonID_def loadOrGenerate_def os_ReadFile_def)
  with assms have g: "gen_id ''dn_'' 65 e rnd = Inr dn" and w: "writeAtomic e fs p dn = (None, fs')"
    by (auto simp: LoadOrGenerateDaemonID_def loadOrGenerate_def os_ReadFile_def
        split: sum.splits prod.splits option.splits)
  have "list_all visible ''dn_''" by (simp add: visible_def)
  with gen_id_visible [OF g] have "list_all visible dn" by blast
  from writeAtomic_load [OF w rd this] gen_id_ok [OF g] show ?thesis
    by (auto simp: LoadOrGenerateDaemonID_def)
qed

theorem daemon_id_stable_witness:
  "\<exists>fs dn. LoadOrGenerateDaemonID io_ok fs (replicate 9 255) ''id'' = (Inr dn, fs) \<and> length dn = 16"
proof -
  obtain dn where g: "gen_id ''dn_'' 65 io_ok (replicate 9 0) = Inr dn"
    using EncodeBits_total [of 65 "replicate 9 0"] by (auto simp: gen_id_def io_ok_def)
  then have "LoadOrGenerateDaemonID io_ok Map.empty (replicate 9 0) ''id''
      = (Inr dn, snd (writeAtomic io_ok Map.empty ''id'' dn))"
    by (simp add: LoadOrGenerateDaemonID_def loadOrGenerate_def os_ReadFile_def writeAtomic_def
        writeAtomicBytes_def writeAtomicBytes_run_def io_ok_def Let_def)
  from daemon_id_stable [OF _ this, of "replicate 9 255"]
  have "LoadOrGenerateDaemonID io_ok (snd (writeAtomic io_ok Map.empty ''id'' dn)) (replicate 9 255) ''id''
      = (Inr dn, snd (writeAtomic io_ok Map.empty ''id'' dn)) \<and> length dn = 16" by auto
  then show ?thesis by blast
qed


text \<open>
  C25 (functional): migration from the single-token pairing. When there is no registry and the
  legacy file holds a token, a migration that succeeds leaves a registry with exactly one
  device, which keeps that token, and (removals permitting) no legacy file; once a registry
  is there a migration changes nothing.
\<close>

theorem migration:
  assumes "fs devicesPath = None" and "\<not> read_err e tokenPath" and "\<not> read_err e devicesPath"
    and "fs tokenPath = Some f" and "trim_space (text_of (f_content f)) = token" and "token \<noteq> ''''"
    and "distinct [tokenPath, usernamePath, devicesPath, tmp_of devicesPath]"
    and mig: "MigrateFromSingleToken e fs rnd now tokenPath usernamePath devicesPath = (None, fs')"
  shows "\<exists>i. LoadDevices e fs' devicesPath = Inr [\<lparr> pd_DeviceID = i, pd_Token = token, pd_PairedAt = now \<rparr>]
      \<and> (\<not> remove_err e tokenPath \<longrightarrow> fs' tokenPath = None)
      \<and> (\<not> remove_err e usernamePath \<longrightarrow> fs' usernamePath = None)
      \<and> (\<not> stat_err e devicesPath \<longrightarrow>
           MigrateFromSingleToken e fs' rnd' now' tokenPath usernamePath devicesPath = (None, fs'))"
proof -
  have "LoadPairingToken e fs tokenPath = Inr token"
    using assms by (simp add: LoadPairingToken_def os_ReadFile_def)
  with mig assms(1,6) obtain i fs1 where
    save: "SaveDevices e fs devicesPath [\<lparr> pd_DeviceID = i, pd_Token = token, pd_PairedAt = now \<rparr>] = (None, fs1)"
    and fs': "fs' = os_Remove e (os_Remove e fs1 tokenPath) usernamePath"
    by (auto simp: MigrateFromSingleToken_def split: sum.splits prod.splits option.splits)
  have "LoadDevices e fs devicesPath = Inr []"
    using assms by (simp add: LoadDevices_def os_ReadFile_def)
  from devices.load_saved [OF this save]
  have load1: "LoadDevices e fs1 devicesPath = Inr [\<lparr> pd_DeviceID = i, pd_Token = token, pd_PairedAt = now \<rparr>]" .
  have same: "fs' devicesPath = fs1 devicesPath"
    using assms(7) by (auto simp: fs' os_Remove_def)
  with load1 LoadDevices_cong [of fs' devicesPath fs1]
  have load': "LoadDevices e fs' devicesPath = Inr [\<lparr> pd_DeviceID = i, pd_Token = token, pd_PairedAt = now \<rparr>]"
    by simp
  then have "fs' devicesPath \<noteq> None"
    by (auto simp: LoadDevices_def os_ReadFile_def split: if_splits option.splits)
  with load' assms(7) show ?thesis
    by (auto simp: fs' os_Remove_def MigrateFromSingleToken_def)
qed

theorem migration_witness:
  "\<exists>fs' i. LoadDevices io_ok fs' ''d'' = Inr [\<lparr> pd_DeviceID = i, pd_Token = ''rn_tk_X'', pd_PairedAt = 0 \<rparr>]
     \<and> fs' ''t'' = None"
proof -
  define f where "f = \<lparr> f_content = Text (''rn_tk_X'' @ [CHR 0x0A]), f_mode = perm600 \<rparr>"
  define fs where "fs = Map.empty(''t'' \<mapsto> f)"
  have fs: "fs ''d'' = None" "fs ''t'' = Some f" by (simp_all add: fs_def)
  have vis: "trim_space (text_of (f_content f)) = ''rn_tk_X''"
    using trim_space_line [of "''rn_tk_X''"] by (simp add: visible_def f_def)
  obtain i where i: "GenerateDeviceID io_ok (replicate 9 0) = Inr i"
    using EncodeBits_total [of 65 "replicate 9 0"] by (auto simp: GenerateDeviceID_def gen_id_def io_ok_def)
  have tok: "LoadPairingToken io_ok fs ''t'' = Inr ''rn_tk_X''"
    using vis fs by (simp add: LoadPairingToken_def os_ReadFile_def io_ok_def)
  have "fst (SaveDevices io_ok fs ''d'' [\<lparr> pd_DeviceID = i, pd_Token = ''rn_tk_X'', pd_PairedAt = 0 \<rparr>]) = None"
    by (simp add: SaveDevices_def four_digit_year_def writeAtomicBytes_def writeAtomicBytes_run_def io_ok_def Let_def)
  then obtain fs1 where
    save: "SaveDevices io_ok fs ''d'' [\<lparr> pd_DeviceID = i, pd_Token = ''rn_tk_X'', pd_PairedAt = 0 \<rparr>] = (None, fs1)"
    by (metis prod.collapse)
  have m: "MigrateFromSingleToken io_ok fs (replicate 9 0) 0 ''t'' ''u'' ''d''
      = (None, os_Remove io_ok (os_Remove io_ok fs1 ''t'') ''u'')"
    by (simp add: MigrateFromSingleToken_def tok i fs save)
  from migration [OF fs(1) _ _ fs(2) vis _ _ m]
  have "\<exists>i. LoadDevices io_ok (os_Remove io_ok (os_Remove io_ok fs1 ''t'') ''u'') ''d''
        = Inr [\<lparr> pd_DeviceID = i, pd_Token = ''rn_tk_X'', pd_PairedAt = 0 \<rparr>]"
    and "os_Remove io_ok (os_Remove io_ok fs1 ''t'') ''u'' ''t'' = None"
    by (simp_all add: tmp_of_def)
  then show ?thesis by blast
qed

definition id_shape :: "string \<Rightarrow> nat \<Rightarrow> string \<Rightarrow> bool" where
  "id_shape pre n i \<longleftrightarrow> (take (length pre) i = pre \<and> length i = length pre + n
     \<and> set (drop (length pre) i) \<subseteq> set alphabet \<and> list_all (\<lambda>c. c \<notin> set ''.*> '') i)"

lemma id_shape_append:
  "list_all (\<lambda>c. c \<notin> set ''.*> '') pre \<Longrightarrow> length enc = n \<Longrightarrow> set enc \<subseteq> set alphabet \<Longrightarrow> id_shape pre n (pre @ enc)"
  using alphabet_plain by (fastforce simp: id_shape_def list_all_iff)

lemma id_shape_bits:
  "list_all (\<lambda>c. c \<notin> set ''.*> '') pre \<Longrightarrow> n \<le> 8 * length b \<Longrightarrow>
     id_shape pre ((n + 4) div 5) (pre @ enc_or_empty b n)"
  using enc_or_empty_ok [of n b] by (simp add: id_shape_append)

lemma id_shape_gen:
  "list_all (\<lambda>c. c \<notin> set ''.*> '') pre \<Longrightarrow> gen_id pre n e rnd = Inr s \<Longrightarrow> id_shape pre ((n + 4) div 5) s"
  by (auto dest!: gen_id_ok intro: id_shape_append)

text \<open>
  C40 (type): the shape of generated identifiers. Flow and notification ids (from a 16-byte
  UUID), workspace ids (from a 32-byte hash), device ids and tokens are their prefix and 26,
  16, 16, 13 and 52 characters of the Crockford alphabet, hence single NATS subject tokens
  without wildcards or spaces.
\<close>

theorem identifier_shapes:
  assumes "length uuid = 16" and "length (sha256 (dn @ ''|'' @ path)) = 32"
    and "GenerateDeviceID e rnd = Inr dev" and "GenerateDeviceToken e rnd' = Inr tok"
  shows "id_shape ''fl_'' 26 (GenerateFlowID uuid) \<and> id_shape ''ntf_'' 16 (GenerateNotificationID uuid)
    \<and> id_shape ''ws_'' 16 (WorkspaceID sha256 dn path) \<and> id_shape ''mb_'' 13 dev \<and> id_shape ''rn_tk_'' 52 tok"
  using id_shape_bits [of "''fl_''" 128 uuid] id_shape_bits [of "''ntf_''" 80 uuid]
    id_shape_bits [of "''ws_''" 80 "sha256 (dn @ ''|'' @ path)"]
    id_shape_gen [OF _ assms(3) [unfolded GenerateDeviceID_def]]
    id_shape_gen [OF _ assms(4) [unfolded GenerateDeviceToken_def]] assms(1,2)
  by (simp add: GenerateFlowID_def GenerateNotificationID_def WorkspaceID_def)

theorem identifier_shapes_witness:
  "\<exists>dev tok. id_shape ''fl_'' 26 (GenerateFlowID (replicate 16 1))
    \<and> id_shape ''ntf_'' 16 (GenerateNotificationID (replicate 16 1))
    \<and> id_shape ''ws_'' 16 (WorkspaceID (\<lambda>_. replicate 32 0) ''dn_1'' ''/w'')
    \<and> id_shape ''mb_'' 13 dev \<and> id_shape ''rn_tk_'' 52 tok"
proof -
  obtain dev where d: "GenerateDeviceID io_ok (replicate 9 0) = Inr dev"
    using EncodeBits_total [of 65 "replicate 9 0"] by (auto simp: GenerateDeviceID_def gen_id_def io_ok_def)
  obtain tok where t: "GenerateDeviceToken io_ok (replicate 32 0) = Inr tok"
    using EncodeBits_total [of 256 "replicate 32 0"] by (auto simp: GenerateDeviceToken_def gen_id_def io_ok_def)
  show ?thesis using identifier_shapes [OF _ _ d t, of "replicate 16 1" "\<lambda>_. replicate 32 0"] by auto
qed

end
