(* ===== verification/Broker.thy ===== *)
theory Broker
  imports StateFiles
begin

text \<open>
  Packages broker and exitcode (cli/internal/broker, cli/internal/exitcode): the subject
  catalogue, the per-device permissions of the embedded server, the JetStream stream and
  consumer configurations with the creation procedure, and the exit codes. The NATS server's
  matching of subjects against patterns is an argument \<open>m\<close>; \<open>nats_match\<close> states its documented
  behaviour.
\<close>

section \<open>Exit codes\<close>

definition Success :: int where "Success = 0"
definition Error :: int where "Error = 1"
definition Usage :: int where "Usage = 2"
definition Timeout :: int where "Timeout = 3"
definition RateLimited :: int where "RateLimited = 4"
definition Unroutable :: int where "Unroutable = 5"
definition NotFound :: int where "NotFound = 6"

text \<open>An error value: a \<^verbatim>\<open>CodedError\<close> or any other error, each with its message; nil is \<^const>\<open>None\<close>.\<close>

datatype 'm go_error = CodedError int 'm | OtherError 'm

fun ExitCode :: "'m go_error option \<Rightarrow> int" where
  "ExitCode None = Success"
| "ExitCode (Some (CodedError code _)) = code"
| "ExitCode (Some (OtherError _)) = Error"

lemmas exit_defs = Success_def Error_def Usage_def Timeout_def RateLimited_def Unroutable_def NotFound_def

section \<open>Subjects\<close>

definition FlowRequestSubject :: "string \<Rightarrow> string \<Rightarrow> string" where
  "FlowRequestSubject username flowID = ''resystems.renotify.'' @ username @ ''.flow.'' @ flowID @ ''.request''"

definition FlowResponseSubject :: "string \<Rightarrow> string \<Rightarrow> string" where
  "FlowResponseSubject username flowID = ''resystems.renotify.'' @ username @ ''.flow.'' @ flowID @ ''.response''"

definition FlowLifecycleSubject :: "string \<Rightarrow> string \<Rightarrow> string" where
  "FlowLifecycleSubject username flowID = ''resystems.renotify.'' @ username @ ''.flow.'' @ flowID @ ''.lifecycle''"

definition FlowInterjectSubject :: "string \<Rightarrow> string \<Rightarrow> string" where
  "FlowInterjectSubject username flowID = ''resystems.renotify.'' @ username @ ''.flow.'' @ flowID @ ''.interject''"

definition ServiceFlowsSubject :: "string \<Rightarrow> string" where
  "ServiceFlowsSubject username = ''resystems.renotify.'' @ username @ ''.svc.flows''"

definition ServiceSearchFlowsSubject :: "string \<Rightarrow> string" where
  "ServiceSearchFlowsSubject username = ''resystems.renotify.'' @ username @ ''.svc.flows.search''"

definition ServiceHistorySubject :: "string \<Rightarrow> string" where
  "ServiceHistorySubject username = ''resystems.renotify.'' @ username @ ''.svc.history''"

definition ServiceInsertRequestSubject :: "string \<Rightarrow> string" where
  "ServiceInsertRequestSubject username = ''resystems.renotify.'' @ username @ ''.svc.insert-request''"

definition ServiceInsertResponseSubject :: "string \<Rightarrow> string" where
  "ServiceInsertResponseSubject username = ''resystems.renotify.'' @ username @ ''.svc.insert-response''"

definition ServiceInsertInterjectionSubject :: "string \<Rightarrow> string" where
  "ServiceInsertInterjectionSubject username = ''resystems.renotify.'' @ username @ ''.svc.insert-interjection''"

definition ServiceUpdateActivitySubject :: "string \<Rightarrow> string" where
  "ServiceUpdateActivitySubject username = ''resystems.renotify.'' @ username @ ''.svc.update-activity''"

definition DeviceControlSubject :: "string \<Rightarrow> string \<Rightarrow> string" where
  "DeviceControlSubject username deviceID = ''resystems.renotify.'' @ username @ ''.device.'' @ deviceID @ ''.control''"

definition DeviceHeartbeatSubject :: "string \<Rightarrow> string \<Rightarrow> string" where
  "DeviceHeartbeatSubject username deviceID = ''resystems.renotify.'' @ username @ ''.device.'' @ deviceID @ ''.heartbeat''"

definition ServiceDevicePresenceSubject :: "string \<Rightarrow> string" where
  "ServiceDevicePresenceSubject username = ''resystems.renotify.'' @ username @ ''.svc.device-presence''"

definition MCPClientToServerSubject :: "string \<Rightarrow> string \<Rightarrow> string" where
  "MCPClientToServerSubject username sessionID = ''resystems.renotify.'' @ username @ ''.mcp.'' @ sessionID @ ''.c2s''"

definition MCPServerToClientSubject :: "string \<Rightarrow> string \<Rightarrow> string" where
  "MCPServerToClientSubject username sessionID = ''resystems.renotify.'' @ username @ ''.mcp.'' @ sessionID @ ''.s2c''"

definition MCPSessionOpenSubject :: "string \<Rightarrow> string" where
  "MCPSessionOpenSubject username = ''resystems.renotify.'' @ username @ ''.mcp.open''"

definition MCPSessionCloseSubject :: "string \<Rightarrow> string" where
  "MCPSessionCloseSubject username = ''resystems.renotify.'' @ username @ ''.mcp.close''"

section \<open>Permissions\<close>

record nats_user =
  u_Username :: string
  u_Password :: string
  u_Publish :: "string list"
  u_Subscribe :: "string list"
  u_Response :: bool

definition daemonUser :: "string \<Rightarrow> string \<Rightarrow> nats_user" where
  "daemonUser username internalToken =
     (let prefix = ''resystems.renotify.'' @ username in
      \<lparr> u_Username = ''daemon'', u_Password = internalToken,
        u_Publish = [prefix @ ''.>'', ''$JS.API.>''],
        u_Subscribe = [prefix @ ''.>'', ''$JS.API.>'', ''_INBOX.>''],
        u_Response = True \<rparr>)"

definition mobileUser :: "string \<Rightarrow> PairedDevice \<Rightarrow> nats_user" where
  "mobileUser username d =
     (let prefix = ''resystems.renotify.'' @ username in
      \<lparr> u_Username = NatsUsername (pd_DeviceID d), u_Password = pd_Token d,
        u_Publish = [prefix @ ''.flow.*.response'', prefix @ ''.flow.*.interject'',
          prefix @ ''.device.'' @ pd_DeviceID d @ ''.heartbeat'',
          prefix @ ''.device.'' @ pd_DeviceID d @ ''.telemetry.>'',
          prefix @ ''.svc.*'', ''$JS.ACK.>'', ''$JS.FC.>'', ''$JS.API.CONSUMER.INFO.>''],
        u_Subscribe = [prefix @ ''.>'', ''_INBOX.>''],
        u_Response = True \<rparr>)"

definition BuildAuthConfig :: "string \<Rightarrow> string \<Rightarrow> PairedDevice list \<Rightarrow> nats_user list" where
  "BuildAuthConfig username internalToken devices =
     daemonUser username internalToken # map (mobileUser username) devices"

section \<open>Streams and consumers\<close>

definition StreamName :: string where "StreamName = ''RENOTIFY''"
definition StreamSubjects :: string where "StreamSubjects = ''resystems.renotify.*.flow.>''"
definition TelemetryStreamName :: string where "TelemetryStreamName = ''RENOTIFY_TELEMETRY''"
definition TelemetryStreamSubjects :: string where
  "TelemetryStreamSubjects = ''resystems.renotify.*.device.*.telemetry.>''"

definition MobileConsumerName :: "string \<Rightarrow> string" where
  "MobileConsumerName username = ''mobile-'' @ username"

definition MobileDeviceConsumerName :: "string \<Rightarrow> string \<Rightarrow> string" where
  "MobileDeviceConsumerName username deviceID = ''mobile-'' @ username @ ''-'' @ deviceID"

definition LifecycleConsumerName :: "string \<Rightarrow> string" where
  "LifecycleConsumerName username = ''daemon-lifecycle-'' @ username"

definition InterjectConsumerName :: "string \<Rightarrow> string" where
  "InterjectConsumerName username = ''daemon-interject-'' @ username"

record JetStreamConfig =
  js_MaxAge :: duration
  js_MaxBytes :: int
  js_MaxMsgSize :: int
  js_MaxMsgsPerSubj :: int
  js_DupWindow :: duration

datatype storage = MemoryStorage | FileStorage

record stream_config =
  sc_Name :: string
  sc_Subjects :: "string list"
  sc_Storage :: storage
  sc_MaxAge :: duration
  sc_MaxBytes :: int
  sc_MaxMsgSize :: int
  sc_MaxMsgsPerSubject :: int
  sc_Duplicates :: duration

text \<open>Fields the source leaves out are zero; the constant ones (limits policy, one replica,
  unlimited consumers and messages) are the same for both streams.\<close>

definition streamConfig :: "JetStreamConfig \<Rightarrow> stream_config" where
  "streamConfig cfg = \<lparr> sc_Name = StreamName, sc_Subjects = [StreamSubjects], sc_Storage = MemoryStorage,
     sc_MaxAge = js_MaxAge cfg, sc_MaxBytes = js_MaxBytes cfg, sc_MaxMsgSize = js_MaxMsgSize cfg,
     sc_MaxMsgsPerSubject = js_MaxMsgsPerSubj cfg, sc_Duplicates = js_DupWindow cfg \<rparr>"

definition telemetryStreamConfig :: "JetStreamConfig \<Rightarrow> stream_config" where
  "telemetryStreamConfig cfg = \<lparr> sc_Name = TelemetryStreamName, sc_Subjects = [TelemetryStreamSubjects],
     sc_Storage = FileStorage, sc_MaxAge = 28 * 24 * hour, sc_MaxBytes = 100 * 1024 * 1024,
     sc_MaxMsgSize = js_MaxMsgSize cfg, sc_MaxMsgsPerSubject = 0, sc_Duplicates = js_DupWindow cfg \<rparr>"

record consumer_config =
  cc_Durable :: string
  cc_DeliverSubject :: string
  cc_Filters :: "string list"
  cc_MaxDeliver :: int
  cc_MaxAckPending :: int
  cc_InactiveThreshold :: duration

definition mobileConsumerConfig :: "string \<Rightarrow> consumer_config" where
  "mobileConsumerConfig username = \<lparr> cc_Durable = MobileConsumerName username,
     cc_DeliverSubject = ''resystems.renotify.'' @ username @ ''.mobile.deliver'',
     cc_Filters = [''resystems.renotify.'' @ username @ ''.flow.>''],
     cc_MaxDeliver = 3, cc_MaxAckPending = 256, cc_InactiveThreshold = 0 \<rparr>"

definition mobileDeviceConsumerConfig :: "string \<Rightarrow> string \<Rightarrow> consumer_config" where
  "mobileDeviceConsumerConfig username deviceID = \<lparr> cc_Durable = MobileDeviceConsumerName username deviceID,
     cc_DeliverSubject = ''resystems.renotify.'' @ username @ ''.mobile.'' @ deviceID @ ''.deliver'',
     cc_Filters = [''resystems.renotify.'' @ username @ ''.flow.>''],
     cc_MaxDeliver = 3, cc_MaxAckPending = 256, cc_InactiveThreshold = 0 \<rparr>"

definition lifecycleConsumerConfig :: "string \<Rightarrow> consumer_config" where
  "lifecycleConsumerConfig username =
     (let prefix = ''resystems.renotify.'' @ username @ ''.flow.*.'' in
      \<lparr> cc_Durable = LifecycleConsumerName username, cc_DeliverSubject = '''',
        cc_Filters = [prefix @ ''lifecycle'', prefix @ ''request'', prefix @ ''response''],
        cc_MaxDeliver = 3, cc_MaxAckPending = 64, cc_InactiveThreshold = 5 * minute \<rparr>)"

definition interjectConsumerConfig :: "string \<Rightarrow> consumer_config" where
  "interjectConsumerConfig username = \<lparr> cc_Durable = InterjectConsumerName username, cc_DeliverSubject = '''',
     cc_Filters = [''resystems.renotify.'' @ username @ ''.flow.*.interject''],
     cc_MaxDeliver = 3, cc_MaxAckPending = 64, cc_InactiveThreshold = 5 * minute \<rparr>"

text \<open>
  The JetStream server during \<^verbatim>\<open>EnsureJetStream\<close>: what each call answers. A failed stream
  creation is a permission error (code 403) or another error.
\<close>

datatype js_answer = JS_ok | JS_forbidden | JS_error

record js_server =
  js_new_ok :: bool
  create_stream :: "stream_config \<Rightarrow> js_answer"
  has_stream :: "string \<Rightarrow> bool"
  create_consumer :: "consumer_config \<Rightarrow> bool"

record js_state =
  made_streams :: "stream_config list"
  made_consumers :: "consumer_config list"

datatype js_error = NoHandle | CreateStream string | StreamMissing string | CreateConsumer string

definition isPermissionError :: "js_answer \<Rightarrow> bool" where
  "isPermissionError a = (a = JS_forbidden)"

text \<open>Create or update one stream, or verify that it exists when creation is not permitted.\<close>

definition ensure_stream :: "js_server \<Rightarrow> stream_config \<Rightarrow> js_state \<Rightarrow> js_error option \<times> js_state" where
  "ensure_stream srv sc st =
     (case create_stream srv sc of
        JS_ok \<Rightarrow> (None, st\<lparr> made_streams := made_streams st @ [sc] \<rparr>)
      | err \<Rightarrow>
          if isPermissionError err then
            (if \<not> has_stream srv (sc_Name sc) then (Some (StreamMissing (sc_Name sc)), st) else (None, st))
          else (Some (CreateStream (sc_Name sc)), st))"

fun ensure_consumers :: "js_server \<Rightarrow> consumer_config list \<Rightarrow> js_state \<Rightarrow> js_error option \<times> js_state" where
  "ensure_consumers srv [] st = (None, st)"
| "ensure_consumers srv (cc # ccs) st =
     (if create_consumer srv cc
      then ensure_consumers srv ccs (st\<lparr> made_consumers := made_consumers st @ [cc] \<rparr>)
      else (Some (CreateConsumer (cc_Durable cc)), st))"

definition wanted_consumers :: "string \<Rightarrow> PairedDevice list \<Rightarrow> consumer_config list" where
  "wanted_consumers username devices =
     [mobileConsumerConfig username, lifecycleConsumerConfig username, interjectConsumerConfig username]
     @ map (\<lambda>d. mobileDeviceConsumerConfig username (pd_DeviceID d)) devices"

definition EnsureJetStream ::
    "js_server \<Rightarrow> string \<Rightarrow> PairedDevice list \<Rightarrow> JetStreamConfig \<Rightarrow> js_state \<Rightarrow> js_error option \<times> js_state" where
  "EnsureJetStream srv username devices cfg st =
     (if \<not> js_new_ok srv then (Some NoHandle, st)
      else case ensure_stream srv (streamConfig cfg) st of
        (Some err, st1) \<Rightarrow> (Some err, st1)
      | (None, st1) \<Rightarrow>
          (case ensure_stream srv (telemetryStreamConfig cfg) st1 of
             (Some err, st2) \<Rightarrow> (Some err, st2)
           | (None, st2) \<Rightarrow> ensure_consumers srv (wanted_consumers username devices) st2))"


section \<open>Subject matching\<close>

text \<open>\<^verbatim>\<open>strings.Split(s, ".")\<close>: the tokens of a subject.\<close>

fun split_dot :: "string \<Rightarrow> string list" where
  "split_dot [] = [[]]"
| "split_dot (c # s) =
     (if c = CHR ''.'' then [] # split_dot s
      else (case split_dot s of [] \<Rightarrow> [[c]] | t # ts \<Rightarrow> (c # t) # ts))"

fun match_tokens :: "string list \<Rightarrow> string list \<Rightarrow> bool" where
  "match_tokens [] ts = (ts = [])"
| "match_tokens (p # ps) [] = False"
| "match_tokens (p # ps) (t # ts) =
     (if p = ''>'' \<and> ps = [] then True else (p = ''*'' \<or> p = t) \<and> match_tokens ps ts)"

text \<open>
  The documented behaviour of the server: on subjects without empty tokens a star matches one
  token and a final angle bracket one or more.
\<close>

definition valid_subject :: "string \<Rightarrow> bool" where
  "valid_subject s \<longleftrightarrow> [] \<notin> set (split_dot s)"

definition nats_match :: "(string \<Rightarrow> string \<Rightarrow> bool) \<Rightarrow> bool" where
  "nats_match m \<longleftrightarrow> (\<forall>p s. valid_subject p \<longrightarrow> valid_subject s \<longrightarrow>
     m p s = match_tokens (split_dot p) (split_dot s))"

definition allowed :: "(string \<Rightarrow> string \<Rightarrow> bool) \<Rightarrow> string list \<Rightarrow> string \<Rightarrow> bool" where
  "allowed m pats s = list_ex (\<lambda>p. m p s) pats"

text \<open>A subject token: not empty, no dot, no wildcard.\<close>

definition token :: "string \<Rightarrow> bool" where
  "token t \<longleftrightarrow> t \<noteq> [] \<and> CHR ''.'' \<notin> set t \<and> CHR ''*'' \<notin> set t \<and> CHR ''>'' \<notin> set t"

lemma split_dot_token [simp]: "CHR ''.'' \<notin> set t \<Longrightarrow> split_dot t = [t]"
  by (induction t) auto

lemma split_dot_append [simp]: "CHR ''.'' \<notin> set t \<Longrightarrow> split_dot (t @ CHR ''.'' # s) = t # split_dot s"
  by (induction t) auto

lemma tokenD [simp]:
  assumes "token t"
  shows "CHR ''.'' \<notin> set t" and "t \<noteq> []" and "t \<noteq> ''*''" and "t \<noteq> ''>''"
    and "''*'' \<noteq> t" and "''>'' \<noteq> t" and "[] \<noteq> t"
  using assms by (auto simp: token_def)

lemmas subject_defs = FlowRequestSubject_def FlowResponseSubject_def FlowLifecycleSubject_def
  FlowInterjectSubject_def ServiceFlowsSubject_def ServiceSearchFlowsSubject_def ServiceHistorySubject_def
  ServiceInsertRequestSubject_def ServiceInsertResponseSubject_def ServiceInsertInterjectionSubject_def
  ServiceUpdateActivitySubject_def DeviceControlSubject_def DeviceHeartbeatSubject_def
  ServiceDevicePresenceSubject_def MCPClientToServerSubject_def MCPServerToClientSubject_def
  MCPSessionOpenSubject_def MCPSessionCloseSubject_def

lemma nats_matchD:
  "nats_match m \<Longrightarrow> valid_subject p \<Longrightarrow> valid_subject s \<Longrightarrow> m p s = match_tokens (split_dot p) (split_dot s)"
  by (simp add: nats_match_def)

lemma id_shape_token: "id_shape pre n i \<Longrightarrow> i \<noteq> [] \<Longrightarrow> token i"
  unfolding id_shape_def token_def list_all_iff by force

lemma subject_tokens:
  assumes "token u" and "token x"
  shows "split_dot (FlowRequestSubject u x) = [''resystems'', ''renotify'', u, ''flow'', x, ''request'']"
    and "split_dot (FlowResponseSubject u x) = [''resystems'', ''renotify'', u, ''flow'', x, ''response'']"
    and "split_dot (FlowLifecycleSubject u x) = [''resystems'', ''renotify'', u, ''flow'', x, ''lifecycle'']"
    and "split_dot (FlowInterjectSubject u x) = [''resystems'', ''renotify'', u, ''flow'', x, ''interject'']"
    and "split_dot (DeviceControlSubject u x) = [''resystems'', ''renotify'', u, ''device'', x, ''control'']"
    and "split_dot (DeviceHeartbeatSubject u x) = [''resystems'', ''renotify'', u, ''device'', x, ''heartbeat'']"
    and "split_dot (MCPClientToServerSubject u x) = [''resystems'', ''renotify'', u, ''mcp'', x, ''c2s'']"
    and "split_dot (MCPServerToClientSubject u x) = [''resystems'', ''renotify'', u, ''mcp'', x, ''s2c'']"
  using assms by (simp_all add: subject_defs)

lemma service_tokens:
  assumes "token u"
  shows "split_dot (ServiceFlowsSubject u) = [''resystems'', ''renotify'', u, ''svc'', ''flows'']"
    and "split_dot (ServiceSearchFlowsSubject u) = [''resystems'', ''renotify'', u, ''svc'', ''flows'', ''search'']"
    and "split_dot (ServiceHistorySubject u) = [''resystems'', ''renotify'', u, ''svc'', ''history'']"
    and "split_dot (ServiceDevicePresenceSubject u) = [''resystems'', ''renotify'', u, ''svc'', ''device-presence'']"
    and "split_dot (MCPSessionOpenSubject u) = [''resystems'', ''renotify'', u, ''mcp'', ''open'']"
    and "split_dot (MCPSessionCloseSubject u) = [''resystems'', ''renotify'', u, ''mcp'', ''close'']"
  using assms by (simp_all add: subject_defs)

lemma mobile_tokens:
  assumes "token u" and "token (pd_DeviceID d)"
  shows "map split_dot (u_Publish (mobileUser u d)) =
    [[''resystems'', ''renotify'', u, ''flow'', ''*'', ''response''],
     [''resystems'', ''renotify'', u, ''flow'', ''*'', ''interject''],
     [''resystems'', ''renotify'', u, ''device'', pd_DeviceID d, ''heartbeat''],
     [''resystems'', ''renotify'', u, ''device'', pd_DeviceID d, ''telemetry'', ''>''],
     [''resystems'', ''renotify'', u, ''svc'', ''*''],
     [''$JS'', ''ACK'', ''>''], [''$JS'', ''FC'', ''>''], [''$JS'', ''API'', ''CONSUMER'', ''INFO'', ''>'']]"
  using assms by (simp add: mobileUser_def Let_def)

text \<open>A permission test, reduced to the token lists.\<close>

lemma allowed_tokens:
  assumes m: "nats_match m" and pats: "\<forall>ts \<in> set (map split_dot pats). [] \<notin> set ts" and s: "[] \<notin> set (split_dot s)"
  shows "allowed m pats s \<longleftrightarrow> list_ex (\<lambda>ts. match_tokens ts (split_dot s)) (map split_dot pats)"
  using pats unfolding allowed_def
  by (induction pats) (simp_all add: nats_matchD [OF m] valid_subject_def s)

section \<open>Properties\<close>

text \<open>
  The flow subjects separate. For dot-free names the subjects of two kinds,
  users or flows are equal only when kind, user and flow are, so no message of one flow
  reaches the subscriber of another.
\<close>

theorem flow_subjects_injective:
  assumes "token u" and "token u'" and "token f" and "token f'"
    and "subj \<in> set [FlowRequestSubject, FlowResponseSubject, FlowLifecycleSubject, FlowInterjectSubject]"
    and "subj' \<in> set [FlowRequestSubject, FlowResponseSubject, FlowLifecycleSubject, FlowInterjectSubject]"
  shows "subj u f = subj' u' f' \<longleftrightarrow> u = u' \<and> f = f' \<and> subj = subj'"
proof
  assume eq: "subj u f = subj' u' f'"
  have tok: "split_dot (FlowRequestSubject v g) = [''resystems'', ''renotify'', v, ''flow'', g, ''request'']"
    "split_dot (FlowResponseSubject v g) = [''resystems'', ''renotify'', v, ''flow'', g, ''response'']"
    "split_dot (FlowLifecycleSubject v g) = [''resystems'', ''renotify'', v, ''flow'', g, ''lifecycle'']"
    "split_dot (FlowInterjectSubject v g) = [''resystems'', ''renotify'', v, ''flow'', g, ''interject'']"
    if "token v" "token g" for v g
    using that by (simp_all add: subject_defs)
  from eq have "split_dot (subj u f) = split_dot (subj' u' f')" by simp
  with assms show "u = u' \<and> f = f' \<and> subj = subj'" by (auto simp: tok)
qed simp

theorem flow_subjects_injective_witness:
  "FlowRequestSubject ''a'' ''fl_1'' = FlowResponseSubject ''a'' ''fl_1'' \<longleftrightarrow>
     ''a'' = ''a'' \<and> ''fl_1'' = ''fl_1'' \<and> FlowRequestSubject = FlowResponseSubject"
  by (rule flow_subjects_injective) (simp_all add: token_def)



text \<open>
  The accounts of the server are the daemon's and one per paired device, in
  registry order, each with the token of its device; an id that is not in the registry has no
  account, and ids and accounts correspond one to one.
\<close>

lemma auth_accounts:
  "map u_Username (BuildAuthConfig u tok ds) = ''daemon'' # map (\<lambda>d. ''mobile-'' @ pd_DeviceID d) ds
    \<and> map u_Password (BuildAuthConfig u tok ds) = tok # map pd_Token ds
    \<and> (NatsUsername i \<in> u_Username ` set (BuildAuthConfig u tok ds) \<longleftrightarrow> i \<in> pd_DeviceID ` set ds)
    \<and> (distinct (map u_Username (BuildAuthConfig u tok ds)) \<longleftrightarrow> distinct (map pd_DeviceID ds))"
proof -
  have sel: "u_Username (mobileUser u d) = NatsUsername (pd_DeviceID d)" "u_Password (mobileUser u d) = pd_Token d"
    "u_Username (daemonUser u tok) = ''daemon''" "u_Password (daemonUser u tok) = tok" for d
    by (simp_all add: mobileUser_def daemonUser_def Let_def)
  have n: "map u_Username (BuildAuthConfig u tok ds) = ''daemon'' # map NatsUsername (map pd_DeviceID ds)"
    and p: "map u_Password (BuildAuthConfig u tok ds) = tok # map pd_Token ds"
    by (simp_all add: BuildAuthConfig_def sel)
  have inj: "inj NatsUsername" by (auto simp: inj_def NatsUsername_def)
  then have d: "distinct (map NatsUsername is) \<longleftrightarrow> distinct is" for "is"
    by (metis distinct_map inj_on_subset subset_UNIV)
  have no: "''daemon'' \<noteq> NatsUsername j" for j by (simp add: NatsUsername_def)
  have "u_Username ` set (BuildAuthConfig u tok ds) = insert ''daemon'' (NatsUsername ` pd_DeviceID ` set ds)"
    using arg_cong [OF n, of set] by (simp add: image_image)
  then have "NatsUsername i \<in> u_Username ` set (BuildAuthConfig u tok ds) \<longleftrightarrow> i \<in> pd_DeviceID ` set ds"
    using no [of i] by (simp add: inj_image_mem_iff [OF inj])
  moreover have "distinct (map u_Username (BuildAuthConfig u tok ds)) \<longleftrightarrow> distinct (map pd_DeviceID ds)"
    unfolding n using no by (auto simp: d simp del: map_map)
  moreover have "map NatsUsername (map pd_DeviceID ds) = map (\<lambda>d. ''mobile-'' @ pd_DeviceID d) ds"
    by (simp add: NatsUsername_def)
  ultimately show ?thesis using n p by simp
qed

lemma ensure_consumers_ok:
  "ensure_consumers srv ccs st = (err, st') \<Longrightarrow>
     \<exists>n \<le> length ccs. made_consumers st' = made_consumers st @ take n ccs \<and> made_streams st' = made_streams st
       \<and> list_all (create_consumer srv) (take n ccs)
       \<and> (err = None \<longleftrightarrow> n = length ccs)
       \<and> (\<forall>e. err = Some e \<longrightarrow> n < length ccs \<and> e = CreateConsumer (cc_Durable (ccs ! n)) \<and> \<not> create_consumer srv (ccs ! n))"
proof (induction ccs arbitrary: st)
  case (Cons cc ccs)
  show ?case
  proof (cases "create_consumer srv cc")
    case True
    with Cons.prems Cons.IH obtain n where "n \<le> length ccs"
      "made_consumers st' = made_consumers st @ cc # take n ccs" "made_streams st' = made_streams st"
      "list_all (create_consumer srv) (take n ccs)" "err = None \<longleftrightarrow> n = length ccs"
      "\<forall>e. err = Some e \<longrightarrow> n < length ccs \<and> e = CreateConsumer (cc_Durable (ccs ! n)) \<and> \<not> create_consumer srv (ccs ! n)"
      by fastforce
    with True show ?thesis by (intro exI [of _ "Suc n"]) auto
  next
    case False
    with Cons.prems show ?thesis by (intro exI [of _ 0]) auto
  qed
qed simp

text \<open>
  The outcome of \<^verbatim>\<open>EnsureJetStream\<close>. It succeeds exactly when the handle opens,
  each of the two streams is created or (creation forbidden) found, and every consumer is
  created; then the consumers made are the mobile, lifecycle and interjection consumer and one
  per device, under distinct names when the device ids are distinct.
\<close>

definition stream_ready :: "js_server \<Rightarrow> stream_config \<Rightarrow> bool" where
  "stream_ready srv sc = (case create_stream srv sc of
     JS_ok \<Rightarrow> True | JS_forbidden \<Rightarrow> has_stream srv (sc_Name sc) | JS_error \<Rightarrow> False)"

theorem ensure_jetstream:
  "(case EnsureJetStream srv u ds cfg st of (err, st') \<Rightarrow>
      (err = None \<longleftrightarrow> js_new_ok srv \<and> stream_ready srv (streamConfig cfg)
         \<and> stream_ready srv (telemetryStreamConfig cfg)
         \<and> list_all (create_consumer srv) (wanted_consumers u ds))
    \<and> (if err = None then made_consumers st' = made_consumers st @ wanted_consumers u ds
       else \<exists>n < length (wanted_consumers u ds). made_consumers st' = made_consumers st @ take n (wanted_consumers u ds)))
    \<and> (distinct (map cc_Durable (wanted_consumers u ds)) \<longleftrightarrow> distinct (map pd_DeviceID ds))"
proof
  have es: "(fst (ensure_stream srv sc s) = None \<longleftrightarrow> stream_ready srv sc)
      \<and> made_consumers (snd (ensure_stream srv sc s)) = made_consumers s" for sc s
    by (simp add: ensure_stream_def stream_ready_def isPermissionError_def split: js_answer.split)
  have ec: "err = None \<longleftrightarrow> list_all (create_consumer srv) ccs"
    if "ensure_consumers srv ccs s = (err, s')" for ccs s err s'
    using that by (induction ccs arbitrary: s) (auto split: if_splits)
  obtain e1 s1 where 1: "ensure_stream srv (streamConfig cfg) st = (e1, s1)" by force
  obtain e2 s2 where 2: "ensure_stream srv (telemetryStreamConfig cfg) s1 = (e2, s2)" by force
  obtain e3 s3 where 3: "ensure_consumers srv (wanted_consumers u ds) s2 = (e3, s3)" by force
  from ensure_consumers_ok [OF 3] obtain n where n: "made_consumers s3 = made_consumers s2 @ take n (wanted_consumers u ds)"
    "n \<le> length (wanted_consumers u ds)" "e3 = None \<longleftrightarrow> n = length (wanted_consumers u ds)" by blast
  have pos: "0 < length (wanted_consumers u ds)" by (simp add: wanted_consumers_def)
  have r1: "e1 = None \<longleftrightarrow> stream_ready srv (streamConfig cfg)" "made_consumers s1 = made_consumers st"
    using es [of "streamConfig cfg" st] 1 by simp_all
  have r2: "e2 = None \<longleftrightarrow> stream_ready srv (telemetryStreamConfig cfg)" "made_consumers s2 = made_consumers s1"
    using es [of "telemetryStreamConfig cfg" s1] 2 by simp_all
  have none: "\<exists>k < length (wanted_consumers u ds). take k (wanted_consumers u ds) = []"
    using pos by (intro exI [of _ 0]) simp
  show "case EnsureJetStream srv u ds cfg st of (err, st') \<Rightarrow>
      (err = None \<longleftrightarrow> js_new_ok srv \<and> stream_ready srv (streamConfig cfg)
         \<and> stream_ready srv (telemetryStreamConfig cfg)
         \<and> list_all (create_consumer srv) (wanted_consumers u ds))
    \<and> (if err = None then made_consumers st' = made_consumers st @ wanted_consumers u ds
       else \<exists>n < length (wanted_consumers u ds). made_consumers st' = made_consumers st @ take n (wanted_consumers u ds))"
  proof (cases "js_new_ok srv \<and> e1 = None \<and> e2 = None")
    case True
    then have "EnsureJetStream srv u ds cfg st = (e3, s3)" by (simp add: EnsureJetStream_def 1 2 3)
    with True r1 r2 n ec [OF 3] show ?thesis by (cases e3) (auto simp: le_less)
  next
    case False
    then have "\<exists>e s'. EnsureJetStream srv u ds cfg st = (Some e, s') \<and> made_consumers s' = made_consumers st"
      using r1(2) r2(2) by (auto simp: EnsureJetStream_def 1 2 3 split: option.split)
    with False r1(1) r2(1) none show ?thesis by auto
  qed
next
  define f where "f = (\<lambda>i. ''mobile-'' @ u @ ''-'' @ i)"
  define a b c where "a = ''mobile-'' @ u" and "b = ''daemon-lifecycle-'' @ u" and "c = ''daemon-interject-'' @ u"
  note abc = this
  have eq: "map cc_Durable (wanted_consumers u ds) = a # b # c # map f (map pd_DeviceID ds)"
    by (simp add: abc f_def wanted_consumers_def mobileConsumerConfig_def lifecycleConsumerConfig_def Let_def
        interjectConsumerConfig_def mobileDeviceConsumerConfig_def MobileConsumerName_def
        LifecycleConsumerName_def InterjectConsumerName_def MobileDeviceConsumerName_def)
  have ne: "a \<noteq> b" "a \<noteq> c" "b \<noteq> c" "a \<noteq> f i" "b \<noteq> f i" "c \<noteq> f i" for i
    by (simp_all add: abc f_def)
  have "inj f" by (simp add: inj_def f_def)
  then have "distinct (map f is) \<longleftrightarrow> distinct is" for "is"
    by (metis distinct_map inj_on_subset subset_UNIV)
  with ne show "distinct (map cc_Durable (wanted_consumers u ds)) \<longleftrightarrow> distinct (map pd_DeviceID ds)"
    unfolding eq by (auto simp del: map_map)
qed

end
