(* ===== verification/History.thy ===== *)
theory History
  imports Ledger
begin

text \<open>
  The unified timeline of ledger/history.go: notifications joined with their responses and
  lifecycle events, filtered, merged by time (newest first) and paginated, and the total that
  goes with a page. Sorting (SQLite's \<^verbatim>\<open>ORDER BY\<close>, \<^verbatim>\<open>sort.Slice\<close>) is an argument.
\<close>

section \<open>Definitions\<close>

record HistoryQuery =
  hq_WorkspaceID :: string
  hq_FlowID :: string
  hq_Since :: "time option"
  hq_Until :: "time option"
  hq_Limit :: int
  hq_Offset :: int

record HistoryRecord =
  hr_Type :: string
  hr_Username :: string
  hr_FlowLabel :: string
  hr_WorkspaceName :: string
  hr_WorkspacePath :: string
  hr_Request :: "NotificationRequest option"
  hr_Response :: "NotificationResponse option"
  hr_Lifecycle :: "FlowLifecycleEvent option"

definition HistoryTypeNotification :: string where "HistoryTypeNotification = ''notification''"
definition HistoryTypeLifecycle :: string where "HistoryTypeLifecycle = ''lifecycle''"

definition defaultHistoryLimit :: int where "defaultHistoryLimit = 50"

text \<open>The \<^verbatim>\<open>WHERE\<close> clause both tables share; times are compared as texts.\<close>

definition in_window :: "HistoryQuery \<Rightarrow> string \<Rightarrow> string \<Rightarrow> string \<Rightarrow> bool" where
  "in_window q ws flow ts \<longleftrightarrow>
     (hq_WorkspaceID q = '''' \<or> ws = hq_WorkspaceID q)
   \<and> (hq_FlowID q = '''' \<or> flow = hq_FlowID q)
   \<and> (case hq_Since q of None \<Rightarrow> True | Some t \<Rightarrow> rfc3339 t \<le> ts)
   \<and> (case hq_Until q of None \<Rightarrow> True | Some t \<Rightarrow> ts \<le> rfc3339 t)"

definition request_in :: "HistoryQuery \<Rightarrow> request_row \<Rightarrow> bool" where
  "request_in q r = in_window q (q_workspace_id r) (q_flow_id r) (q_timestamp r)"

definition event_in :: "HistoryQuery \<Rightarrow> event_row \<Rightarrow> bool" where
  "event_in q e = in_window q (e_workspace_id e) (e_flow_id e) (e_timestamp e)"

definition count_history :: "HistoryQuery \<Rightarrow> ledger \<Rightarrow> nat" where
  "count_history q l = length (filter (request_in q) (notification_requests l))
     + length (filter (event_in q) (flow_lifecycle_events l))"

definition strs_of :: "json option \<Rightarrow> string list" where
  "strs_of c = (case c of Some (JArr vs) \<Rightarrow> (case str_elems vs of Some ss \<Rightarrow> ss | None \<Rightarrow> []) | _ \<Rightarrow> [])"

definition scanLifecycleRow :: "event_row \<Rightarrow> HistoryRecord" where
  "scanLifecycleRow e =
     \<lparr> hr_Type = HistoryTypeLifecycle, hr_Username = e_username e, hr_FlowLabel = '''',
       hr_WorkspaceName = '''', hr_WorkspacePath = '''', hr_Request = None, hr_Response = None,
       hr_Lifecycle = Some \<lparr> ev_FlowID = e_flow_id e, ev_DaemonID = e_daemon_id e,
         ev_WorkspaceID = e_workspace_id e, ev_Status = e_status e, ev_Label = null_str (e_label e),
         ev_Metadata = unmarshalMetadata (e_metadata e), ev_Timestamp = parse_or_zero (e_timestamp e) \<rparr> \<rparr>"

definition scan_response :: "response_row \<Rightarrow> NotificationResponse" where
  "scan_response p = \<lparr> resp_RequestID = p_request_id p, resp_Accepted = p_accepted p,
     resp_Action = null_str (p_action p), resp_Text = null_str (p_text p),
     resp_Timestamp = parse_or_zero (p_timestamp p) \<rparr>"

text \<open>A row of the left join: the response is there or all its columns are NULL.\<close>

definition scanHistoryRow :: "request_row \<times> response_row option \<Rightarrow> HistoryRecord" where
  "scanHistoryRow row = (case row of (r, p) \<Rightarrow>
     \<lparr> hr_Type = HistoryTypeNotification, hr_Username = q_username r, hr_FlowLabel = null_str (q_flow_label r),
       hr_WorkspaceName = null_str (q_workspace_name r), hr_WorkspacePath = null_str (q_workspace_path r),
       hr_Request = Some \<lparr> nr_ID = q_id r, nr_FlowID = q_flow_id r, nr_DaemonID = q_daemon_id r,
         nr_WorkspaceID = q_workspace_id r, nr_Title = q_title r, nr_Body = null_str (q_body r),
         nr_ResponseTypes = strs_of (Some (q_response_types r)), nr_Priority = q_priority r,
         nr_Source = q_source r, nr_WorkspaceName = '''', nr_Actions = strs_of (q_actions r),
         nr_TimeoutSec = (case q_timeout_sec r of None \<Rightarrow> 0 | Some n \<Rightarrow> n),
         nr_Timestamp = parse_or_zero (q_timestamp r) \<rparr>,
       hr_Response = map_option scan_response p, hr_Lifecycle = None \<rparr>)"

definition left_join :: "request_row list \<Rightarrow> response_row list \<Rightarrow> (request_row \<times> response_row option) list" where
  "left_join rs ps = concat (map (\<lambda>r. case filter (\<lambda>p. p_request_id p = q_id r) ps of
       [] \<Rightarrow> [(r, None)] | ms \<Rightarrow> map (\<lambda>p. (r, Some p)) ms) rs)"

definition recordTimestamp :: "HistoryRecord \<Rightarrow> time" where
  "recordTimestamp r = (case hr_Request r of Some q \<Rightarrow> nr_Timestamp q
     | None \<Rightarrow> (case hr_Lifecycle r of Some e \<Rightarrow> ev_Timestamp e | None \<Rightarrow> zero_time))"

definition later :: "HistoryRecord \<Rightarrow> HistoryRecord \<Rightarrow> bool" where
  "later a b = (recordTimestamp b < recordTimestamp a)"

definition paginate :: "int \<Rightarrow> int \<Rightarrow> 'a list \<Rightarrow> 'a list" where
  "paginate offset limit xs =
     (let ys = (if 0 < offset \<and> offset < int (length xs) then drop (nat offset) xs
                else if int (length xs) \<le> offset then [] else xs)
      in if limit < int (length ys) then take (nat limit) ys else ys)"

text \<open>The sorting routines: of the two queries and of the merged slice.\<close>

definition QueryHistory ::
    "(request_row \<times> response_row option) sorter \<Rightarrow> event_row sorter \<Rightarrow> HistoryRecord sorter \<Rightarrow>
     faults \<Rightarrow> HistoryQuery \<Rightarrow> ledger \<Rightarrow> db_error + HistoryRecord list \<times> nat" where
  "QueryHistory srt_n srt_e srt_a ft q l =
     (let limit = (if hq_Limit q \<le> 0 then defaultHistoryLimit else hq_Limit q) in
      if ft 0 then Inl Query
      else let total = count_history q l in
      if ft 1 then Inl Query
      else let notifs = map scanHistoryRow (srt_n (\<lambda>a b. q_timestamp (fst b) < q_timestamp (fst a))
             (left_join (filter (request_in q) (notification_requests l)) (notification_responses l))) in
      if ft 2 then Inl Query
      else let lifecycle = map scanLifecycleRow (srt_e (\<lambda>a b. e_timestamp b < e_timestamp a)
             (filter (event_in q) (flow_lifecycle_events l)));
           sorted = srt_a later (notifs @ lifecycle)
      in Inr (paginate (hq_Offset q) limit sorted, total))"

section \<open>Lemmas\<close>

lemma left_join_key:
  "distinct (map p_request_id ps) \<Longrightarrow>
     left_join rs ps = map (\<lambda>r. (r, find (\<lambda>p. p_request_id p = q_id r) ps)) rs"
proof -
  assume d: "distinct (map p_request_id ps)"
  have "(case filter (\<lambda>p. p_request_id p = k) ps of [] \<Rightarrow> [(r, None)] | ms \<Rightarrow> map (\<lambda>p. (r, Some p)) ms)
      = [(r, find (\<lambda>p. p_request_id p = k) ps)]" for r :: request_row and k
    using d
  proof (induction ps)
    case (Cons p ps)
    then show ?case
      by (cases "p_request_id p = k") (auto simp: filter_key_snoc)
  qed simp
  then show ?thesis by (induction rs) (simp_all add: left_join_def)
qed

lemma paginate_eq:
  "0 \<le> offset \<Longrightarrow> 0 \<le> limit \<Longrightarrow> paginate offset limit xs = take (nat limit) (drop (nat offset) xs)"
  by (auto simp: paginate_def Let_def)

text \<open>All records a query selects, in table order.\<close>

definition matching :: "HistoryQuery \<Rightarrow> ledger \<Rightarrow> HistoryRecord list" where
  "matching q l = map (\<lambda>r. scanHistoryRow (r, find (\<lambda>p. p_request_id p = q_id r) (notification_responses l)))
        (filter (request_in q) (notification_requests l))
     @ map scanLifecycleRow (filter (event_in q) (flow_lifecycle_events l))"

lemma length_matching: "length (matching q l) = count_history q l"
  by (simp add: matching_def count_history_def)

lemma QueryHistory_sorted:
  assumes n: "sort_slice srt_n" and e: "sort_slice srt_e" and a: "sort_slice srt_a" and ok: "ledger_ok l"
  obtains sorted where "mset sorted = mset (matching q l)"
    and "sorted_wrt (\<lambda>x y. recordTimestamp y \<le> recordTimestamp x) sorted"
    and "\<And>o' n'. QueryHistory srt_n srt_e srt_a no_faults (q\<lparr> hq_Offset := o', hq_Limit := n' \<rparr>) l
       = Inr (paginate o' (if n' \<le> 0 then defaultHistoryLimit else n') sorted, count_history q l)"
proof -
  let ?ns = "map scanHistoryRow (srt_n (\<lambda>a b. q_timestamp (fst b) < q_timestamp (fst a))
             (left_join (filter (request_in q) (notification_requests l)) (notification_responses l)))"
  let ?es = "map scanLifecycleRow (srt_e (\<lambda>a b. e_timestamp b < e_timestamp a)
             (filter (event_in q) (flow_lifecycle_events l)))"
  have w: "weak_order later" unfolding later_def by (rule weak_order_key)
  have in_q: "request_in (q\<lparr> hq_Offset := o', hq_Limit := n' \<rparr>) = request_in q"
    "event_in (q\<lparr> hq_Offset := o', hq_Limit := n' \<rparr>) = event_in q" for o' n'
    by (auto simp: request_in_def event_in_def in_window_def)
  have "mset (srt_a later (?ns @ ?es)) = mset (?ns @ ?es)" by (rule sort_sliceD(1) [OF a w])
  moreover have "mset ?ns = mset (map scanHistoryRow
      (left_join (filter (request_in q) (notification_requests l)) (notification_responses l)))"
    using sort_sliceD(1) [OF n weak_order_key(2) [of "\<lambda>x. q_timestamp (fst x)"]] by simp
  moreover have "mset ?es = mset (map scanLifecycleRow (filter (event_in q) (flow_lifecycle_events l)))"
    using sort_sliceD(1) [OF e weak_order_key(2) [of e_timestamp]] by simp
  moreover have "distinct (map p_request_id (notification_responses l))" using ok by (simp add: ledger_ok_def)
  ultimately have m: "mset (srt_a later (?ns @ ?es)) = mset (matching q l)"
    by (simp add: matching_def left_join_key o_def del: mset_map)
  have s: "sorted_wrt (\<lambda>x y. recordTimestamp y \<le> recordTimestamp x) (srt_a later (?ns @ ?es))"
    using sort_sliceD(2) [OF a w, of "?ns @ ?es"] by (simp add: later_def not_less)
  have qh: "QueryHistory srt_n srt_e srt_a no_faults (q\<lparr> hq_Offset := o', hq_Limit := n' \<rparr>) l
       = Inr (paginate o' (if n' \<le> 0 then defaultHistoryLimit else n') (srt_a later (?ns @ ?es)), count_history q l)"
    for o' n'
    by (simp add: QueryHistory_def no_faults_def Let_def count_history_def in_q)
  show thesis by (rule that [OF m s qh])
qed

lemma strs_of_Some [simp]: "strs_of (Some (JArr (map JStr a))) = a"
  by (simp add: strs_of_def)

lemma strs_of_None [simp]: "strs_of None = []"
  by (simp add: strs_of_def)

lemma strs_of_if [simp]: "strs_of (if a = [] then None else Some (JArr (map JStr a))) = a"
  by (simp add: strs_of_def)

lemma find_snoc: "\<forall>x \<in> set xs. \<not> P x \<Longrightarrow> P y \<Longrightarrow> find P (xs @ [y]) = Some y"
  by (induction xs) auto

section \<open>Properties\<close>

text \<open>
  C20 (functional): paging through the history. There is one list of all records that match the
  filters, each row of the two tables once and newest first, such that the page at any
  offset is the slice of that list there, of the limit's length (50 when the limit is not
  positive), and the total is the length of the list, whatever the page: so consecutive pages
  neither lose nor repeat a record.
\<close>

theorem history_pages:
  assumes "sort_slice srt_n" and "sort_slice srt_e" and "sort_slice srt_a" and "ledger_ok l"
  shows "\<exists>sorted. mset sorted = mset (matching q l)
    \<and> sorted_wrt (\<lambda>x y. recordTimestamp y \<le> recordTimestamp x) sorted
    \<and> (\<forall>offset \<ge> 0. \<forall>limit.
         QueryHistory srt_n srt_e srt_a no_faults (q\<lparr> hq_Offset := offset, hq_Limit := limit \<rparr>) l
         = Inr (take (nat (if limit \<le> 0 then 50 else limit)) (drop (nat offset) sorted), length sorted))"
proof -
  from QueryHistory_sorted [OF assms] obtain sorted where m: "mset sorted = mset (matching q l)"
    and s: "sorted_wrt (\<lambda>x y. recordTimestamp y \<le> recordTimestamp x) sorted"
    and qh: "\<And>o' n'. QueryHistory srt_n srt_e srt_a no_faults (q\<lparr> hq_Offset := o', hq_Limit := n' \<rparr>) l
       = Inr (paginate o' (if n' \<le> 0 then defaultHistoryLimit else n') sorted, count_history q l)" by blast
  have "length sorted = count_history q l"
    using m length_matching [of q l] by (metis size_mset)
  with m s qh show ?thesis
    by (intro exI [of _ sorted]) (auto simp: paginate_eq defaultHistoryLimit_def)
qed

definition all_history :: HistoryQuery where
  "all_history = \<lparr> hq_WorkspaceID = '''', hq_FlowID = '''', hq_Since = None, hq_Until = None,
     hq_Limit = 0, hq_Offset = 0 \<rparr>"

theorem history_pages_witness:
  "\<exists>sorted. mset sorted = mset (matching all_history (snd (RegisterFlow no_faults a_flow empty_ledger)))
    \<and> QueryHistory insertion_sort insertion_sort insertion_sort no_faults
         (all_history\<lparr> hq_Offset := 0, hq_Limit := 10 \<rparr>) (snd (RegisterFlow no_faults a_flow empty_ledger))
       = Inr (take 10 sorted, length sorted)"
proof -
  have "ledger_ok (snd (RegisterFlow no_faults a_flow empty_ledger))"
    by (rule RegisterFlow_keeps) (simp add: ledger_ok_def empty_ledger_def)
  from history_pages [OF sort_slice_insertion_sort sort_slice_insertion_sort sort_slice_insertion_sort this, of all_history]
  obtain sorted where *: "mset sorted = mset (matching all_history (snd (RegisterFlow no_faults a_flow empty_ledger)))"
    "\<forall>offset \<ge> 0. \<forall>limit. QueryHistory insertion_sort insertion_sort insertion_sort no_faults
         (all_history\<lparr> hq_Offset := offset, hq_Limit := limit \<rparr>) (snd (RegisterFlow no_faults a_flow empty_ledger))
       = Inr (take (nat (if limit \<le> 0 then 50 else limit)) (drop (nat offset) sorted), length sorted)" by blast
  from *(2) have "QueryHistory insertion_sort insertion_sort insertion_sort no_faults
         (all_history\<lparr> hq_Offset := 0, hq_Limit := 10 \<rparr>) (snd (RegisterFlow no_faults a_flow empty_ledger))
       = Inr (take (nat (if (10 :: int) \<le> 0 then 50 else 10)) (drop (nat 0) sorted), length sorted)" by blast
  with *(1) show ?thesis by auto
qed

text \<open>
  C21 (roundtrip): a recorded notification is in the history. After a request with a new id and a
  valid priority is inserted, and then a response to it, the matching records of an unfiltered
  query contain the request as it was sent (its time cut to the second, the workspace name kept
  in the context column) together with that response.
\<close>

theorem history_roundtrip:
  assumes "nr_ID r \<notin> q_id ` set (notification_requests l)"
    and "nr_ID r \<notin> p_request_id ` set (notification_responses l)"
    and "nr_Priority r \<in> {PriorityLow, PriorityNormal, PriorityHigh}"
    and "four_digit_year (nr_Timestamp r)" and "four_digit_year (resp_Timestamp p)"
    and "resp_RequestID p = nr_ID r"
  shows "let l' = snd (InsertResponse fk no_faults p (snd (InsertRequest no_faults wc r l))) in
    \<exists>rec \<in> set (matching all_history l').
      hr_Request rec = Some (r\<lparr> nr_WorkspaceName := '''', nr_Timestamp := nr_Timestamp r div second * second \<rparr>)
    \<and> hr_Response rec = Some (p\<lparr> resp_Timestamp := resp_Timestamp p div second * second \<rparr>)
    \<and> hr_FlowLabel rec = wc_FlowLabel wc \<and> hr_WorkspaceName rec = wc_WorkspaceName wc"
proof -
  let ?q = "request_row_of (wc, r)"
  define prow where "prow = \<lparr> p_request_id = resp_RequestID p, p_accepted = resp_Accepted p,
    p_action = nullString (resp_Action p), p_text = nullString (resp_Text p),
    p_timestamp = rfc3339 (resp_Timestamp p) \<rparr>"
  have ids: "q_id ?q = nr_ID r" "p_request_id prow = nr_ID r"
    by (simp_all add: request_row_of_def prow_def assms(6))
  have "request_ok ?q" using assms(3) by (auto simp: request_ok_def request_row_of_def enum_defs)
  then have ins: "insert_request_row ?q (notification_requests l) = notification_requests l @ [?q]"
    using assms(1) ids by (intro requests.ins_new) simp_all
  have insp: "insert_response_row prow (notification_responses l) = notification_responses l @ [prow]"
    using assms(2) ids by (intro responses.ins_new) simp_all
  define l1 where "l1 = snd (InsertRequest no_faults wc r l)"
  have l1: "notification_requests l1 = notification_requests l @ [?q]"
    "notification_responses l1 = notification_responses l"
    using ins by (simp_all add: l1_def InsertRequest_def no_faults_def request_row_of_def)
  define l2 where "l2 = snd (InsertResponse fk no_faults p l1)"
  have "list_ex (\<lambda>q. q_id q = nr_ID r) (notification_requests l1)" using ids by (simp add: l1)
  then have l2: "notification_requests l2 = notification_requests l @ [?q]"
    "notification_responses l2 = notification_responses l @ [prow]"
    using insp by (simp_all add: l2_def InsertResponse_def no_faults_def Let_def prow_def assms(6) l1)
  have "find (\<lambda>p. p_request_id p = nr_ID r) (notification_responses l @ [prow]) = Some prow"
    using assms(2) ids by (intro find_snoc) (metis image_eqI, simp)
  moreover have "request_in all_history ?q" by (simp add: request_in_def in_window_def all_history_def)
  ultimately have "scanHistoryRow (?q, Some prow) \<in> set (matching all_history l2)"
    using ids by (force simp: matching_def l2)
  moreover have "hr_Request (scanHistoryRow (?q, Some prow))
      = Some (r\<lparr> nr_WorkspaceName := '''', nr_Timestamp := nr_Timestamp r div second * second \<rparr>)"
    using parse_rfc3339_rfc3339 [OF assms(4)]
    by (cases r) (simp add: scanHistoryRow_def request_row_of_def strs_of_if strs_of_Some parse_or_zero_def)
  moreover have "hr_Response (scanHistoryRow (?q, Some prow))
      = Some (p\<lparr> resp_Timestamp := resp_Timestamp p div second * second \<rparr>)"
    using parse_rfc3339_rfc3339 [OF assms(5)]
    by (cases p) (simp add: scanHistoryRow_def scan_response_def prow_def parse_or_zero_def)
  moreover have "hr_FlowLabel (scanHistoryRow (?q, Some prow)) = wc_FlowLabel wc"
    "hr_WorkspaceName (scanHistoryRow (?q, Some prow)) = wc_WorkspaceName wc"
    by (simp_all add: scanHistoryRow_def request_row_of_def)
  ultimately show ?thesis by (auto simp: Let_def l2_def l1_def)
qed

theorem history_roundtrip_witness:
  "\<exists>rec \<in> set (matching all_history (snd (InsertResponse True no_faults
        (zero_resp\<lparr> resp_RequestID := ''ntf_1'', resp_Accepted := Some True, resp_Timestamp := 978307260 * second \<rparr>)
        (snd (InsertRequest no_faults a_context a_request empty_ledger))))).
      hr_Request rec = Some a_request \<and> hr_FlowLabel rec = ''build''"
proof -
  have "four_digit_year (978307200 * second)" "four_digit_year (978307260 * second)"
    by (simp_all add: four_digit_year_def)
  then show ?thesis
    using history_roundtrip [of a_request empty_ledger
        "zero_resp\<lparr> resp_RequestID := ''ntf_1'', resp_Accepted := Some True, resp_Timestamp := 978307260 * second \<rparr>"
        True a_context]
    by (auto simp: a_request_def zero_nr_def zero_resp_def a_context_def empty_ledger_def PriorityNormal_def Let_def)
qed

end
