(* ===== verification/Statesvc.thy ===== *)
theory Statesvc
  imports History
begin

text \<open>
  Package statesvc (cli/internal/statesvc): the commands, queries and results of the daemon's
  request-reply endpoints, with their decoders and encoders. A history record has the fields
  of the ledger's and shares its record.
\<close>

section \<open>Fields that hold structs\<close>

definition d_ptr :: "('a \<Rightarrow> json \<Rightarrow> 'a option) \<Rightarrow> 'a \<Rightarrow> ('r \<Rightarrow> 'a option) \<Rightarrow> ('a option, 'r) upd \<Rightarrow> 'r field" where
  "d_ptr d zero get u v r =
     (if v = JNull then Some (u (\<lambda>_. None) r)
      else map_option (\<lambda>a. u (\<lambda>_. Some a) r) (d (case get r of None \<Rightarrow> zero | Some a \<Rightarrow> a) v))"

fun map_opt :: "('a \<Rightarrow> 'b option) \<Rightarrow> 'a list \<Rightarrow> 'b list option" where
  "map_opt f [] = Some []"
| "map_opt f (x # xs) = Option.bind (f x) (\<lambda>y. map_option ((#) y) (map_opt f xs))"

definition d_list :: "(json \<Rightarrow> 'a option) \<Rightarrow> ('a list, 'r) upd \<Rightarrow> 'r field" where
  "d_list d u v r = (case v of JNull \<Rightarrow> Some (u (\<lambda>_. []) r)
     | JArr vs \<Rightarrow> map_option (\<lambda>xs. u (\<lambda>_. xs) r) (map_opt d vs) | _ \<Rightarrow> None)"

section \<open>Queries\<close>

record FlowsQuery =
  fq_FlowID :: string
  fq_DaemonID :: string
  fq_WorkspaceID :: string

definition zero_fq :: FlowsQuery where
  "zero_fq = \<lparr> fq_FlowID = '''', fq_DaemonID = '''', fq_WorkspaceID = '''' \<rparr>"

definition fq_fields :: "(string \<times> FlowsQuery field) list" where
  "fq_fields = [(''flow_id'', d_str fq_FlowID_update), (''daemon_id'', d_str fq_DaemonID_update),
     (''workspace_id'', d_str fq_WorkspaceID_update)]"

definition dec_fq :: "json \<Rightarrow> FlowsQuery option" where
  "dec_fq = dec_struct fq_fields zero_fq"

definition enc_fq :: "FlowsQuery \<Rightarrow> json" where
  "enc_fq q = JObj (e_str_opt ''flow_id'' (fq_FlowID q) @ e_str_opt ''daemon_id'' (fq_DaemonID q)
     @ e_str_opt ''workspace_id'' (fq_WorkspaceID q))"

record SearchFlowsQuery =
  sfq_Workspace :: string

definition dec_sfq :: "json \<Rightarrow> SearchFlowsQuery option" where
  "dec_sfq = dec_struct [(''workspace'', d_str sfq_Workspace_update)] \<lparr> sfq_Workspace = '''' \<rparr>"

definition enc_sfq :: "SearchFlowsQuery \<Rightarrow> json" where
  "enc_sfq q = JObj (e_str ''workspace'' (sfq_Workspace q))"

definition zero_hq :: HistoryQuery where
  "zero_hq = \<lparr> hq_WorkspaceID = '''', hq_FlowID = '''', hq_Since = None, hq_Until = None,
     hq_Limit = 0, hq_Offset = 0 \<rparr>"

definition hq_fields :: "(string \<times> HistoryQuery field) list" where
  "hq_fields = [(''workspace_id'', d_str hq_WorkspaceID_update), (''flow_id'', d_str hq_FlowID_update),
     (''since'', d_timep hq_Since_update), (''until'', d_timep hq_Until_update),
     (''limit'', d_int hq_Limit_update), (''offset'', d_int hq_Offset_update)]"

definition dec_hq :: "json \<Rightarrow> HistoryQuery option" where
  "dec_hq = dec_struct hq_fields zero_hq"

definition enc_hq :: "HistoryQuery \<Rightarrow> json" where
  "enc_hq q = JObj (e_str_opt ''workspace_id'' (hq_WorkspaceID q) @ e_str_opt ''flow_id'' (hq_FlowID q)
     @ e_timep_opt ''since'' (hq_Since q) @ e_timep_opt ''until'' (hq_Until q)
     @ e_int_opt ''limit'' (hq_Limit q) @ e_int_opt ''offset'' (hq_Offset q))"

section \<open>Commands\<close>

record InsertRequestCmd =
  irc_Username :: string
  irc_FlowLabel :: string
  irc_WorkspaceName :: string
  irc_WorkspacePath :: string
  irc_Request :: NotificationRequest

definition dec_irc :: "json \<Rightarrow> InsertRequestCmd option" where
  "dec_irc = dec_struct
     [(''username'', d_str irc_Username_update), (''flow_label'', d_str irc_FlowLabel_update),
      (''workspace_name'', d_str irc_WorkspaceName_update), (''workspace_path'', d_str irc_WorkspacePath_update),
      (''request'', d_sub (dec_struct nr_fields) irc_Request irc_Request_update)]
     \<lparr> irc_Username = '''', irc_FlowLabel = '''', irc_WorkspaceName = '''', irc_WorkspacePath = '''',
       irc_Request = zero_nr \<rparr>"

definition enc_irc :: "InsertRequestCmd \<Rightarrow> json" where
  "enc_irc c = JObj (e_str ''username'' (irc_Username c) @ e_str_opt ''flow_label'' (irc_FlowLabel c)
     @ e_str_opt ''workspace_name'' (irc_WorkspaceName c) @ e_str_opt ''workspace_path'' (irc_WorkspacePath c)
     @ [(''request'', enc_nr (irc_Request c))])"

record InsertResponseCmd =
  isc_Response :: NotificationResponse

definition dec_isc :: "json \<Rightarrow> InsertResponseCmd option" where
  "dec_isc = dec_struct [(''response'', d_sub (dec_struct resp_fields) isc_Response isc_Response_update)]
     \<lparr> isc_Response = zero_resp \<rparr>"

definition enc_isc :: "InsertResponseCmd \<Rightarrow> json" where
  "enc_isc c = JObj [(''response'', enc_resp (isc_Response c))]"

record InsertInterjectionCmd =
  iic_Username :: string
  iic_Interjection :: InterjectionCommand

definition dec_iic :: "json \<Rightarrow> InsertInterjectionCmd option" where
  "dec_iic = dec_struct [(''username'', d_str iic_Username_update),
      (''interjection'', d_sub (dec_struct ij_fields) iic_Interjection iic_Interjection_update)]
     \<lparr> iic_Username = '''', iic_Interjection = zero_ij \<rparr>"

definition enc_iic :: "InsertInterjectionCmd \<Rightarrow> json" where
  "enc_iic c = JObj (e_str ''username'' (iic_Username c) @ [(''interjection'', enc_ij (iic_Interjection c))])"

record UpdateActivityCmd =
  uac_FlowID :: string
  uac_Timestamp :: time

definition dec_uac :: "json \<Rightarrow> UpdateActivityCmd option" where
  "dec_uac = dec_struct [(''flow_id'', d_str uac_FlowID_update), (''timestamp'', d_time uac_Timestamp_update)]
     \<lparr> uac_FlowID = '''', uac_Timestamp = zero_time \<rparr>"

definition enc_uac :: "UpdateActivityCmd \<Rightarrow> json" where
  "enc_uac c = JObj (e_str ''flow_id'' (uac_FlowID c) @ e_time ''timestamp'' (uac_Timestamp c))"

section \<open>Results\<close>

record FlowEntry =
  fe_FlowID :: string
  fe_DaemonID :: string
  fe_WorkspaceID :: string
  fe_DisplayName :: string
  fe_AbsPath :: string
  fe_Label :: string
  fe_Metadata :: meta
  fe_RegisteredAt :: time
  fe_LastActivity :: time

definition zero_fe :: FlowEntry where
  "zero_fe = \<lparr> fe_FlowID = '''', fe_DaemonID = '''', fe_WorkspaceID = '''', fe_DisplayName = '''',
     fe_AbsPath = '''', fe_Label = '''', fe_Metadata = None, fe_RegisteredAt = zero_time,
     fe_LastActivity = zero_time \<rparr>"

definition fe_fields :: "(string \<times> FlowEntry field) list" where
  "fe_fields = [(''flow_id'', d_str fe_FlowID_update), (''daemon_id'', d_str fe_DaemonID_update),
     (''workspace_id'', d_str fe_WorkspaceID_update), (''display_name'', d_str fe_DisplayName_update),
     (''abs_path'', d_str fe_AbsPath_update), (''label'', d_str fe_Label_update),
     (''metadata'', d_meta fe_Metadata fe_Metadata_update), (''registered_at'', d_time fe_RegisteredAt_update),
     (''last_activity_timestamp'', d_time fe_LastActivity_update)]"

definition enc_fe :: "FlowEntry \<Rightarrow> json" where
  "enc_fe f = JObj (e_str ''flow_id'' (fe_FlowID f) @ e_str ''daemon_id'' (fe_DaemonID f)
     @ e_str ''workspace_id'' (fe_WorkspaceID f) @ e_str_opt ''display_name'' (fe_DisplayName f)
     @ e_str_opt ''abs_path'' (fe_AbsPath f) @ e_str_opt ''label'' (fe_Label f)
     @ e_meta_opt ''metadata'' (fe_Metadata f) @ e_time ''registered_at'' (fe_RegisteredAt f)
     @ e_time ''last_activity_timestamp'' (fe_LastActivity f))"

record FlowsResult =
  fr_Flows :: "FlowEntry list"

definition dec_fr :: "json \<Rightarrow> FlowsResult option" where
  "dec_fr = dec_struct [(''flows'', d_list (dec_struct fe_fields zero_fe) fr_Flows_update)] \<lparr> fr_Flows = [] \<rparr>"

definition enc_fr :: "FlowsResult \<Rightarrow> json" where
  "enc_fr r = JObj [(''flows'', JArr (map enc_fe (fr_Flows r)))]"

record SearchFlowsResult =
  sfr_FlowIDs :: "string list"

definition dec_sfr :: "json \<Rightarrow> SearchFlowsResult option" where
  "dec_sfr = dec_struct [(''flow_ids'', d_strs sfr_FlowIDs_update)] \<lparr> sfr_FlowIDs = [] \<rparr>"

definition enc_sfr :: "SearchFlowsResult \<Rightarrow> json" where
  "enc_sfr r = JObj (e_strs ''flow_ids'' (sfr_FlowIDs r))"

definition zero_hr :: HistoryRecord where
  "zero_hr = \<lparr> hr_Type = '''', hr_Username = '''', hr_FlowLabel = '''', hr_WorkspaceName = '''',
     hr_WorkspacePath = '''', hr_Request = None, hr_Response = None, hr_Lifecycle = None \<rparr>"

definition hr_fields :: "(string \<times> HistoryRecord field) list" where
  "hr_fields = [(''type'', d_str hr_Type_update), (''username'', d_str hr_Username_update),
     (''flow_label'', d_str hr_FlowLabel_update), (''workspace_name'', d_str hr_WorkspaceName_update),
     (''workspace_path'', d_str hr_WorkspacePath_update),
     (''request'', d_ptr (dec_struct nr_fields) zero_nr hr_Request hr_Request_update),
     (''response'', d_ptr (dec_struct resp_fields) zero_resp hr_Response hr_Response_update),
     (''lifecycle'', d_ptr (dec_struct ev_fields) zero_ev hr_Lifecycle hr_Lifecycle_update)]"

definition e_ptr_opt :: "string \<Rightarrow> ('a \<Rightarrow> json) \<Rightarrow> 'a option \<Rightarrow> entries" where
  "e_ptr_opt k e p = (case p of None \<Rightarrow> [] | Some a \<Rightarrow> [(k, e a)])"

definition enc_hr :: "HistoryRecord \<Rightarrow> json" where
  "enc_hr r = JObj (e_str ''type'' (hr_Type r) @ e_str ''username'' (hr_Username r)
     @ e_str_opt ''flow_label'' (hr_FlowLabel r) @ e_str_opt ''workspace_name'' (hr_WorkspaceName r)
     @ e_str_opt ''workspace_path'' (hr_WorkspacePath r) @ e_ptr_opt ''request'' enc_nr (hr_Request r)
     @ e_ptr_opt ''response'' enc_resp (hr_Response r) @ e_ptr_opt ''lifecycle'' enc_ev (hr_Lifecycle r))"

record HistoryQueryResult =
  hqr_Records :: "HistoryRecord list"
  hqr_Total :: int

definition dec_hqr :: "json \<Rightarrow> HistoryQueryResult option" where
  "dec_hqr = dec_struct [(''records'', d_list (dec_struct hr_fields zero_hr) hqr_Records_update),
     (''total'', d_int hqr_Total_update)] \<lparr> hqr_Records = [], hqr_Total = 0 \<rparr>"

definition enc_hqr :: "HistoryQueryResult \<Rightarrow> json" where
  "enc_hqr r = JObj [(''records'', JArr (map enc_hr (hqr_Records r))), (''total'', JNum (hqr_Total r))]"

record DeviceStatus =
  ds_Username :: string
  ds_DeviceID :: string
  ds_PairedAt :: time
  ds_Online :: bool
  ds_LastSeen :: "time option"

definition enc_ds :: "DeviceStatus \<Rightarrow> json" where
  "enc_ds d = JObj (e_str ''username'' (ds_Username d) @ e_str ''device_id'' (ds_DeviceID d)
     @ e_time ''paired_at'' (ds_PairedAt d) @ [(''online'', JBool (ds_Online d))]
     @ e_timep_opt ''last_seen'' (ds_LastSeen d))"

definition enc_dpr :: "DeviceStatus list \<Rightarrow> json" where
  "enc_dpr ds = JObj [(''devices'', JArr (map enc_ds ds))]"

definition enc_wr :: "bool \<Rightarrow> string \<Rightarrow> json" where
  "enc_wr ok err = JObj ([(''ok'', JBool ok)] @ e_str_opt ''error'' err)"

text \<open>Marshalling fails when some time has not a four-digit year.\<close>

definition marshal :: "bool \<Rightarrow> json \<Rightarrow> wire" where
  "marshal times_ok j = (if times_ok then Some j else None)"

section \<open>Round trips\<close>

lemma fold_statesvc_names [simp]:
  "fold_key ''workspace'' = ''workspace''" "fold_key ''since'' = ''since''" "fold_key ''until'' = ''until''"
  "fold_key ''limit'' = ''limit''" "fold_key ''offset'' = ''offset''" "fold_key ''username'' = ''username''"
  "fold_key ''flow_label'' = ''flow_label''" "fold_key ''workspace_path'' = ''workspace_path''"
  "fold_key ''request'' = ''request''" "fold_key ''response'' = ''response''"
  "fold_key ''interjection'' = ''interjection''" "fold_key ''display_name'' = ''display_name''"
  "fold_key ''abs_path'' = ''abs_path''" "fold_key ''registered_at'' = ''registered_at''"
  "fold_key ''last_activity_timestamp'' = ''last_activity_timestamp''" "fold_key ''flows'' = ''flows''"
  "fold_key ''flow_ids'' = ''flow_ids''" "fold_key ''type'' = ''type''" "fold_key ''lifecycle'' = ''lifecycle''"
  "fold_key ''records'' = ''records''" "fold_key ''total'' = ''total''"
  by (rule fold_plain; simp add: plain_char_def)+

lemma dec_e_timep: "dec_fields fs (e_timep_opt k t) r = omit (t = None) (field_at fs k) (JStr (rfc3339nano (the t))) r"
  by (auto simp: e_timep_opt_def omit_def field_at_def dec_fields_Nil split: option.splits)

lemma omit_timep:
  "u (\<lambda>_. None) r = r \<Longrightarrow> (\<And>x. t = Some x \<Longrightarrow> four_digit_year x) \<Longrightarrow>
     omit (t = None) (d_timep u) (JStr (rfc3339nano (the t))) r = Some (u (\<lambda>_. t) r)"
  by (cases t) (simp_all add: omit_def d_timep_def)

lemma dec_single: "dec_fields fs ((k, v) # kvs) r = Option.bind (field_at fs k v r) (dec_fields fs kvs)"
  by (simp add: field_at_def split: option.split)

lemma dec_enc_hq:
  assumes "\<And>t. hq_Since q = Some t \<Longrightarrow> four_digit_year t" and "\<And>t. hq_Until q = Some t \<Longrightarrow> four_digit_year t"
    and "int64 (hq_Limit q)" and "int64 (hq_Offset q)"
  shows "dec_hq (enc_hq q) = Some q"
  using assms by (cases q)
    (simp add: dec_hq_def enc_hq_def dec_encoded dec_e_timep omit_timep hq_fields_def zero_hq_def)

lemma dec_enc_fq: "dec_fq (enc_fq q) = Some q"
  by (cases q) (simp add: dec_fq_def enc_fq_def dec_encoded fq_fields_def zero_fq_def)

lemma dec_enc_sfq: "dec_sfq (enc_sfq q) = Some q"
  by (cases q) (simp add: dec_sfq_def enc_sfq_def dec_encoded)

lemma dec_enc_irc:
  assumes "four_digit_year (nr_Timestamp (irc_Request c))" and "int64 (nr_TimeoutSec (irc_Request c))"
  shows "dec_irc (enc_irc c) = Some c"
  using dec_enc_nr [OF assms, unfolded dec_nr_def]
  by (cases c) (simp add: dec_irc_def enc_irc_def dec_encoded dec_single d_sub_def del: dec_fields.simps(2))

lemma dec_enc_isc:
  assumes "four_digit_year (resp_Timestamp (isc_Response c))"
  shows "dec_isc (enc_isc c) = Some c"
  using dec_enc_resp [OF assms, unfolded dec_resp_def]
  by (cases c) (simp add: dec_isc_def enc_isc_def dec_encoded dec_single d_sub_def del: dec_fields.simps(2))

lemma dec_enc_iic:
  assumes "four_digit_year (ij_Timestamp (iic_Interjection c))"
  shows "dec_iic (enc_iic c) = Some c"
  using dec_enc_ij [OF assms, unfolded dec_ij_def]
  by (cases c) (simp add: dec_iic_def enc_iic_def dec_encoded dec_single d_sub_def del: dec_fields.simps(2))

lemma dec_enc_uac: "four_digit_year (uac_Timestamp c) \<Longrightarrow> dec_uac (enc_uac c) = Some c"
  by (cases c) (simp add: dec_uac_def enc_uac_def dec_encoded)

lemma dec_enc_fe:
  "four_digit_year (fe_RegisteredAt f) \<Longrightarrow> four_digit_year (fe_LastActivity f) \<Longrightarrow> meta_ok (fe_Metadata f) \<Longrightarrow>
     dec_struct fe_fields zero_fe (enc_fe f) = Some (f\<lparr> fe_Metadata := norm_meta (fe_Metadata f) \<rparr>)"
  by (cases f) (simp add: enc_fe_def dec_encoded fe_fields_def zero_fe_def)

lemma map_opt_Some: "(\<And>x. x \<in> set xs \<Longrightarrow> f x = Some (g x)) \<Longrightarrow> map_opt f xs = Some (map g xs)"
  by (induction xs) auto

definition flow_times_ok :: "FlowEntry list \<Rightarrow> bool" where
  "flow_times_ok fs = list_all (\<lambda>f. four_digit_year (fe_RegisteredAt f) \<and> four_digit_year (fe_LastActivity f)) fs"

lemma dec_enc_fr:
  assumes "flow_times_ok (fr_Flows r)" and "list_all (\<lambda>f. meta_ok (fe_Metadata f)) (fr_Flows r)"
  shows "dec_fr (enc_fr r) = Some (r\<lparr> fr_Flows := map (\<lambda>f. f\<lparr> fe_Metadata := norm_meta (fe_Metadata f) \<rparr>) (fr_Flows r) \<rparr>)"
proof -
  have "map_opt (\<lambda>x. dec_struct fe_fields zero_fe (enc_fe x)) (fr_Flows r)
      = Some (map (\<lambda>f. f\<lparr> fe_Metadata := norm_meta (fe_Metadata f) \<rparr>) (fr_Flows r))"
    using assms by (intro map_opt_Some dec_enc_fe) (auto simp: flow_times_ok_def list_all_iff)
  moreover have "map_opt d (map f xs) = map_opt (\<lambda>x. d (f x)) xs" for d :: "json \<Rightarrow> FlowEntry option" and f :: "FlowEntry \<Rightarrow> json" and xs
    by (induction xs) simp_all
  ultimately show ?thesis
    by (cases r) (simp add: dec_fr_def enc_fr_def dec_encoded dec_single d_list_def del: dec_fields.simps(2))
qed

end
