(* ===== verification/Presence.thy ===== *)
theory Presence
  imports Broker Statesvc
begin

text \<open>
  Package presence (cli/internal/presence): the tracker of paired devices, fed by their
  heartbeats, queried for the device list and reloaded after pairing changes.
\<close>

section \<open>Definitions\<close>

record deviceState =
  dv_DeviceID :: string
  dv_PairedAt :: time
  dv_LastSeen :: time

record Tracker =
  tk_username :: string
  tk_staleThreshold :: duration
  tk_devices :: "(string, deviceState) gomap"

definition fresh_device :: "PairedDevice \<Rightarrow> deviceState" where
  "fresh_device d = \<lparr> dv_DeviceID = pd_DeviceID d, dv_PairedAt = pd_PairedAt d, dv_LastSeen = zero_time \<rparr>"

definition new_Tracker :: "string \<Rightarrow> duration \<Rightarrow> PairedDevice list \<Rightarrow> Tracker" where
  "new_Tracker username staleThreshold devices =
     \<lparr> tk_username = username, tk_staleThreshold = staleThreshold,
       tk_devices = fold (\<lambda>d m. gm_set (pd_DeviceID d) (fresh_device d) m) devices [] \<rparr>"

text \<open>The pattern \<^verbatim>\<open>Start\<close> subscribes to.\<close>

definition heartbeat_pattern :: "string \<Rightarrow> string" where
  "heartbeat_pattern username = ''resystems.renotify.'' @ username @ ''.device.*.heartbeat''"

text \<open>\<^verbatim>\<open>Start\<close>: the subscription, when NATS accepts it, or an error; \<^verbatim>\<open>Stop\<close> drains it if there is one.\<close>

definition tracker_Start :: "(string \<Rightarrow> bool) \<Rightarrow> Tracker \<Rightarrow> string option" where
  "tracker_Start subscribe_ok t =
     (let subject = heartbeat_pattern (tk_username t) in if subscribe_ok subject then Some subject else None)"

definition tracker_Stop :: "string option \<Rightarrow> string list \<Rightarrow> string list" where
  "tracker_Stop sub drained = (case sub of None \<Rightarrow> drained | Some subject \<Rightarrow> drained @ [subject])"

definition extractDeviceID :: "string \<Rightarrow> string" where
  "extractDeviceID subject =
     (case index_str ''.device.'' subject of
        None \<Rightarrow> ''''
      | Some i \<Rightarrow>
          (let rest = drop (i + length ''.device.'') subject in
           case index_byte (CHR ''.'') rest of None \<Rightarrow> '''' | Some j \<Rightarrow> take j rest))"

definition handleHeartbeat :: "time \<Rightarrow> string \<Rightarrow> Tracker \<Rightarrow> Tracker" where
  "handleHeartbeat now subject t =
     (let deviceID = extractDeviceID subject in
      if deviceID = '''' then t
      else case gm_get (tk_devices t) deviceID of
        None \<Rightarrow> t
      | Some ds \<Rightarrow> t\<lparr> tk_devices := gm_set deviceID (ds\<lparr> dv_LastSeen := now \<rparr>) (tk_devices t) \<rparr>)"

text \<open>A zero time has never been seen; the order of the result is the map's.\<close>

definition device_status :: "time \<Rightarrow> Tracker \<Rightarrow> deviceState \<Rightarrow> DeviceStatus" where
  "device_status now t ds =
     (let status = \<lparr> ds_Username = tk_username t, ds_DeviceID = dv_DeviceID ds, ds_PairedAt = dv_PairedAt ds,
                     ds_Online = False, ds_LastSeen = None \<rparr>
      in if dv_LastSeen ds \<noteq> zero_time
         then status\<lparr> ds_LastSeen := Some (dv_LastSeen ds),
                      ds_Online := time_sub now (dv_LastSeen ds) < tk_staleThreshold t \<rparr>
         else status)"

definition DevicePresence :: "time \<Rightarrow> Tracker \<Rightarrow> DeviceStatus list" where
  "DevicePresence now t = map (device_status now t) (map snd (tk_devices t))"

definition ReloadDevices :: "PairedDevice list \<Rightarrow> Tracker \<Rightarrow> Tracker" where
  "ReloadDevices devices t =
     (let added = fold (\<lambda>d m. if gm_get m (pd_DeviceID d) = None
                then gm_set (pd_DeviceID d) (fresh_device d) m else m) devices (tk_devices t)
      in t\<lparr> tk_devices := filter (\<lambda>p. fst p \<in> pd_DeviceID ` set devices) added \<rparr>)"

section \<open>Invariant\<close>

text \<open>Keys are unique and name their device.\<close>

definition tracker_ok :: "Tracker \<Rightarrow> bool" where
  "tracker_ok t \<longleftrightarrow> gm_ok (tk_devices t) \<and> list_all (\<lambda>(k, ds). dv_DeviceID ds = k) (tk_devices t)"

lemma gm_set_named:
  "list_all (\<lambda>(k, ds). dv_DeviceID ds = k) m \<Longrightarrow> dv_DeviceID v = k \<Longrightarrow>
     list_all (\<lambda>(k, ds). dv_DeviceID ds = k) (gm_set k v m)"
  by (induction m) (auto simp: gm_set_def)

lemma fold_devices_ok:
  assumes "gm_ok m" and "list_all (\<lambda>(k, ds). dv_DeviceID ds = k) m"
  shows "gm_ok (fold (\<lambda>d m. if c d m then gm_set (pd_DeviceID d) (fresh_device d) m else m) devices m)
    \<and> list_all (\<lambda>(k, ds). dv_DeviceID ds = k)
        (fold (\<lambda>d m. if c d m then gm_set (pd_DeviceID d) (fresh_device d) m else m) devices m)"
  using assms by (induction devices arbitrary: m) (simp_all add: gm_set_named fresh_device_def)

lemma new_Tracker_ok [keeps]: "tracker_ok (new_Tracker u th devices)"
  using fold_devices_ok [of "[]" "\<lambda>_ _. True" devices] by (simp add: tracker_ok_def new_Tracker_def)

lemma handleHeartbeat_ok [keeps]: "tracker_ok t \<Longrightarrow> tracker_ok (handleHeartbeat now s t)"
proof -
  assume t: "tracker_ok t"
  then have "gm_get (tk_devices t) k = Some ds \<Longrightarrow> dv_DeviceID ds = k" for k ds
    by (auto simp: tracker_ok_def list_all_iff dest!: map_of_SomeD)
  with t show ?thesis
    by (auto simp: tracker_ok_def handleHeartbeat_def Let_def gm_set_named split: option.split)
qed

lemma ReloadDevices_ok [keeps]: "tracker_ok t \<Longrightarrow> tracker_ok (ReloadDevices devices t)"
  using fold_devices_ok [of "tk_devices t" "\<lambda>d m. gm_get m (pd_DeviceID d) = None" devices]
  by (auto simp: tracker_ok_def ReloadDevices_def Let_def gm_ok_def list_all_iff distinct_map
      intro: inj_on_subset)

section \<open>Lookups\<close>

lemma get_filter_keys:
  "gm_ok m \<Longrightarrow> gm_get (filter (\<lambda>p. P (fst p)) m) k = (if P k then gm_get m k else None)"
  by (induction m) (auto simp: gm_ok_def)

lemma get_fold_add:
  "gm_get (fold (\<lambda>d m. if gm_get m (pd_DeviceID d) = None
      then gm_set (pd_DeviceID d) (fresh_device d) m else m) devices m) k
   = (case gm_get m k of Some ds \<Rightarrow> Some ds
      | None \<Rightarrow> map_option fresh_device (find (\<lambda>d. pd_DeviceID d = k) devices))"
  by (induction devices arbitrary: m) (auto split: option.splits)

lemma find_in_ids: "k \<in> pd_DeviceID ` set ds \<longleftrightarrow> find (\<lambda>d. pd_DeviceID d = k) ds \<noteq> None"
  by (auto simp: find_None_iff)

lemma get_ReloadDevices:
  assumes "tracker_ok t"
  shows "gm_get (tk_devices (ReloadDevices devices t)) k =
     (if k \<in> pd_DeviceID ` set devices
      then (case gm_get (tk_devices t) k of Some ds \<Rightarrow> Some ds
            | None \<Rightarrow> map_option fresh_device (find (\<lambda>d. pd_DeviceID d = k) devices))
      else None)"
proof -
  let ?m = "fold (\<lambda>d m. if gm_get m (pd_DeviceID d) = None
      then gm_set (pd_DeviceID d) (fresh_device d) m else m) devices (tk_devices t)"
  have "gm_ok ?m" using assms fold_devices_ok [of "tk_devices t" "\<lambda>d m. gm_get m (pd_DeviceID d) = None" devices]
    by (simp add: tracker_ok_def)
  from get_filter_keys [OF this, of "\<lambda>k. k \<in> pd_DeviceID ` set devices" k]
  show ?thesis by (simp add: ReloadDevices_def Let_def get_fold_add)
qed

lemma index_str_skip:
  "c \<notin> set s \<Longrightarrow> index_str (c # p) (s @ c # t) =
     (if prefix p t then Some (length s)
      else map_option (\<lambda>i. Suc (length s + i)) (index_str (c # p) t))"
  by (induction s) (auto simp: option.map_comp o_def)

lemma prefix_token:
  "CHR ''.'' \<notin> set w \<Longrightarrow> CHR ''.'' \<notin> set u \<Longrightarrow> prefix (w @ ''.'') (u @ CHR ''.'' # r) \<longleftrightarrow> u = w"
proof (induction w arbitrary: u)
  case Nil
  then show ?case by (cases u) auto
next
  case (Cons c w)
  then show ?case by (cases u) auto
qed

lemma extract_heartbeat:
  assumes "token u" and "token d"
  shows "extractDeviceID (DeviceHeartbeatSubject u d) = (if u = ''device'' then ''device'' else d)"
proof -
  define rest where "rest = ''device'' @ CHR ''.'' # d @ ''.heartbeat''"
  define tail where "tail = u @ CHR ''.'' # rest"
  define subj where "subj = DeviceHeartbeatSubject u d"
  have subj: "subj = ''resystems'' @ CHR ''.'' # ''renotify'' @ CHR ''.'' # tail"
    by (simp add: subj_def DeviceHeartbeatSubject_def tail_def rest_def)
  have u: "CHR ''.'' \<notin> set u" and d: "CHR ''.'' \<notin> set d" by (rule tokenD(1), rule assms)+
  have d1: "CHR ''.'' \<notin> set ''resystems''" and d2: "CHR ''.'' \<notin> set ''renotify''"
    and d3: "CHR ''.'' \<notin> set ''device''" by simp_all
  have p1: "\<not> prefix ''device.'' (''renotify'' @ CHR ''.'' # tail)" by simp
  have 1: "index_str ''.device.'' subj
      = map_option (\<lambda>i. Suc (length ''resystems'' + i)) (index_str ''.device.'' (''renotify'' @ CHR ''.'' # tail))"
    unfolding subj index_str_skip [OF d1] if_not_P [OF p1] by (rule refl)
  have 2: "index_str ''.device.'' (''renotify'' @ CHR ''.'' # tail)
      = (if prefix ''device.'' tail then Some (length ''renotify'')
         else map_option (\<lambda>i. Suc (length ''renotify'' + i)) (index_str ''.device.'' tail))"
    unfolding index_str_skip [OF d2] by (rule refl)
  have 3: "prefix ''device.'' tail \<longleftrightarrow> u = ''device''"
    using prefix_token [OF d3 u, of rest] by (simp add: tail_def)
  have p4: "prefix ''device.'' rest" by (simp add: rest_def)
  have 4: "index_str ''.device.'' tail = Some (length u)"
    unfolding tail_def index_str_skip [OF u] if_P [OF p4] by (rule refl)
  have byte: "index_byte (CHR ''.'') (d @ ''.heartbeat'') = Some (length d)"
    using index_byte_append [of "CHR ''.''" d "''heartbeat''"] d by simp
  show ?thesis
  proof (cases "u = ''device''")
    case True
    then have i: "index_str ''.device.'' subj = Some 18" unfolding 1 2 using 3 by simp
    have r: "drop 26 subj = rest"
      unfolding subj tail_def True by simp
    show ?thesis using i r True by (simp add: extractDeviceID_def subj_def rest_def)
  next
    case False
    then have i: "index_str ''.device.'' subj = Some (19 + length u)" unfolding 1 2 4 using 3 by simp
    have r: "drop (27 + length u) subj = d @ ''.heartbeat''"
    proof -
      define pre where "pre = ''resystems'' @ CHR ''.'' # ''renotify'' @ CHR ''.'' # u @ ''.device.''"
      have "subj = pre @ d @ ''.heartbeat''" unfolding subj tail_def rest_def pre_def by simp
      moreover have "27 + length u = length pre" by (simp add: pre_def)
      ultimately show ?thesis by simp
    qed
    show ?thesis using i r byte False by (simp add: extractDeviceID_def subj_def)
  qed
qed

text \<open>A tracker that has started hears the heartbeats of its user's devices, and nothing else.\<close>

lemma start_hears:
  assumes "nats_match m" and "tracker_Start ok t = Some pat" and "token (tk_username t)" and "valid_subject subj"
  shows "m pat subj \<longleftrightarrow> (\<exists>d. split_dot subj = [''resystems'', ''renotify'', tk_username t, ''device'', d, ''heartbeat''])"
    and "token d \<Longrightarrow> m pat (DeviceHeartbeatSubject (tk_username t) d)"
proof -
  let ?p = "[''resystems'', ''renotify'', tk_username t, ''device'', ''*'', ''heartbeat'']"
  have pat: "split_dot pat = ?p" "valid_subject pat"
    using assms(2,3) by (auto simp: tracker_Start_def Let_def heartbeat_pattern_def valid_subject_def split: if_splits)
  have m: "m pat s \<longleftrightarrow> match_tokens ?p (split_dot s)" if "valid_subject s" for s
    using nats_matchD [OF assms(1) pat(2) that] by (simp add: pat(1))
  have ends: "match_tokens ps [] \<longleftrightarrow> ps = []" for ps by (cases ps) simp_all
  have "match_tokens ?p ts \<longleftrightarrow> (\<exists>d. ts = [''resystems'', ''renotify'', tk_username t, ''device'', d, ''heartbeat''])" for ts
    using assms(3) by (cases ts; cases "tl ts"; cases "tl (tl ts)"; cases "tl (tl (tl ts))"; cases "tl (tl (tl (tl ts)))";
        cases "tl (tl (tl (tl (tl ts))))") auto
  then show "m pat subj \<longleftrightarrow> (\<exists>d. split_dot subj = [''resystems'', ''renotify'', tk_username t, ''device'', d, ''heartbeat''])"
    by (simp only: m [OF assms(4)])
  show "m pat (DeviceHeartbeatSubject (tk_username t) d)" if "token d"
  proof -
    note ts = subject_tokens(6) [OF assms(3) that]
    then have "valid_subject (DeviceHeartbeatSubject (tk_username t) d)" using assms(3) that by (simp add: valid_subject_def)
    then show ?thesis using assms(3) that by (simp add: m ts)
  qed
qed

section \<open>Properties\<close>

text \<open>
  C28 (functional): presence. After a heartbeat of a registered device at \<open>seen\<close>, the query at
  \<open>now\<close> lists every registered device exactly once, and reports that device as last seen then and
  as online exactly while less than the stale threshold has passed; the heartbeat of a device
  that is not registered changes nothing. The subject's device id is read correctly for every
  user except one named \<^verbatim>\<open>device\<close>.
\<close>

theorem presence_after_heartbeat:
  assumes "tracker_ok t" and "token (tk_username t)" and "token d"
    and "tk_username t \<noteq> ''device''" and "seen \<noteq> zero_time" and "\<bar>now - seen\<bar> < 2 ^ 63"
  shows "let t' = handleHeartbeat seen (DeviceHeartbeatSubject (tk_username t) d) t; res = DevicePresence now t' in
      map ds_DeviceID res = map fst (tk_devices t) \<and> distinct (map ds_DeviceID res)
    \<and> (gm_get (tk_devices t) d = None \<longrightarrow> t' = t)
    \<and> (\<forall>s \<in> set res. ds_DeviceID s = d \<longrightarrow>
         ds_LastSeen s = Some seen \<and> (ds_Online s \<longleftrightarrow> now - seen < tk_staleThreshold t))"
proof -
  let ?t = "handleHeartbeat seen (DeviceHeartbeatSubject (tk_username t) d) t"
  have ext: "extractDeviceID (DeviceHeartbeatSubject (tk_username t) d) = d"
    using extract_heartbeat [OF assms(2,3)] assms(4) by simp
  have t': "?t = (case gm_get (tk_devices t) d of None \<Rightarrow> t
      | Some ds \<Rightarrow> t\<lparr> tk_devices := gm_set d (ds\<lparr> dv_LastSeen := seen \<rparr>) (tk_devices t) \<rparr>)"
    using assms(3) by (simp add: handleHeartbeat_def ext Let_def)
  have ok: "tracker_ok ?t" using assms(1) by (rule handleHeartbeat_ok)
  have keys: "map fst (gm_set k v m) = map fst m" if "gm_get m k \<noteq> None" for k and v :: deviceState and m
    using that by (induction m) (auto simp: gm_set_def)
  have keys': "map fst (tk_devices ?t) = map fst (tk_devices t)"
    by (auto simp: t' keys split: option.split)
  have id: "ds_DeviceID (device_status now tr v) = dv_DeviceID v" for tr v
    by (simp add: device_status_def Let_def)
  have named: "map (\<lambda>x. dv_DeviceID (snd x)) m = map fst m" if "list_all (\<lambda>(k, ds). dv_DeviceID ds = k) m" for m
    using that by (induction m) auto
  have "map ds_DeviceID (DevicePresence now ?t) = map (\<lambda>x. dv_DeviceID (snd x)) (tk_devices ?t)"
    by (simp add: DevicePresence_def id o_def)
  also have "\<dots> = map fst (tk_devices ?t)" by (rule named) (use ok in \<open>simp add: tracker_ok_def\<close>)
  finally have ids: "map ds_DeviceID (DevicePresence now ?t) = map fst (tk_devices t)"
    using keys' by simp
  have dist: "distinct (map fst (tk_devices t))" using assms(1) by (simp add: tracker_ok_def gm_ok_def)
  have "ds_LastSeen s = Some seen \<and> (ds_Online s \<longleftrightarrow> now - seen < tk_staleThreshold t)"
    if s: "s \<in> set (DevicePresence now ?t)" "ds_DeviceID s = d" for s
  proof -
    from s obtain k v where kv: "(k, v) \<in> set (tk_devices ?t)" "s = device_status now ?t v"
      by (auto simp: DevicePresence_def)
    with ok have "dv_DeviceID v = k" by (auto simp: tracker_ok_def list_all_iff)
    with s kv have "k = d" by (simp add: id)
    with kv ok have get: "gm_get (tk_devices ?t) d = Some v" by (auto simp: tracker_ok_def gm_get_in_set)
    then obtain v0 where "gm_get (tk_devices t) d = Some v0" by (cases "gm_get (tk_devices t) d") (auto simp: t')
    with get have "dv_LastSeen v = seen" by (auto simp: t')
    moreover have "tk_staleThreshold ?t = tk_staleThreshold t" by (simp add: t' split: option.split)
    moreover have "time_sub now seen = now - seen" using assms(6) by (simp add: time_sub_def)
    ultimately show ?thesis using kv assms(5) by (simp add: device_status_def Let_def)
  qed
  with ids dist t' show ?thesis by (simp add: Let_def)
qed

definition a_tracker :: Tracker where
  "a_tracker = new_Tracker ''alice'' (3 * minute) [one_device]"

theorem presence_after_heartbeat_witness:
  "let t' = handleHeartbeat 5 (DeviceHeartbeatSubject ''alice'' ''mb_1'') a_tracker; res = DevicePresence minute t' in
     \<forall>s \<in> set res. ds_DeviceID s = ''mb_1'' \<longrightarrow>
        ds_LastSeen s = Some 5 \<and> (ds_Online s \<longleftrightarrow> minute - 5 < 3 * minute)"
proof -
  have "tracker_ok a_tracker" unfolding a_tracker_def by (rule new_Tracker_ok)
  moreover have "tk_username a_tracker = ''alice''" "tk_staleThreshold a_tracker = 3 * minute"
    by (simp_all add: a_tracker_def new_Tracker_def)
  moreover have "token ''alice''" "token ''mb_1''" "5 \<noteq> zero_time"
    by (simp_all add: token_def zero_time_def)
  ultimately show ?thesis
    using presence_after_heartbeat [of a_tracker "''mb_1''" 5 minute] by (simp add: Let_def)
qed

text \<open>
  Reloading after a pairing change. Afterwards the tracked devices are exactly
  those of the registry; a device that stays keeps its last-seen time, a new one starts as
  never seen, and reloading the same registry again changes nothing.
\<close>

theorem reload_devices:
  assumes "tracker_ok t"
  shows "let t' = ReloadDevices devices t in
      (\<forall>k. gm_get (tk_devices t') k =
         (if k \<in> pd_DeviceID ` set devices
          then (case gm_get (tk_devices t) k of Some ds \<Rightarrow> Some ds
                | None \<Rightarrow> map_option fresh_device (find (\<lambda>d. pd_DeviceID d = k) devices))
          else None))
    \<and> tracker_ok t' \<and> (\<forall>k. gm_get (tk_devices (ReloadDevices devices t')) k = gm_get (tk_devices t') k)"
proof -
  have ok: "tracker_ok (ReloadDevices devices t)" using assms by (rule ReloadDevices_ok)
  show ?thesis using get_ReloadDevices [OF assms] get_ReloadDevices [OF ok, of devices] ok
    by (auto simp: Let_def find_in_ids split: option.split)
qed

theorem reload_devices_witness:
  "gm_get (tk_devices (ReloadDevices [] a_tracker)) ''mb_1'' = None"
  using reload_devices [of a_tracker "[]"] new_Tracker_ok [of "''alice''" "3 * minute" "[one_device]"]
  by (simp add: Let_def a_tracker_def)

end
