(* ===== verification/GoDuration.thy ===== *)
theory GoDuration
  imports GoTime
begin

text \<open>\<^verbatim>\<open>time.Duration.String\<close>, as the heartbeat and the commands print durations.\<close>

definition frac_digits :: "nat \<Rightarrow> nat \<Rightarrow> string" where
  "frac_digits prec v =
     (if v = 0 then []
      else CHR ''.'' # rev (dropWhile (\<lambda>c. c = CHR ''0'') (rev (digits prec v))))"

definition nat_text :: "nat \<Rightarrow> string" where
  "nat_text n = digits (ndigits n) n"

text \<open>\<^verbatim>\<open>t.UnixMilli()\<close>.\<close>

definition unix_milli :: "time \<Rightarrow> int" where
  "unix_milli t = t div 1000000"

definition duration_string :: "duration \<Rightarrow> string" where
  "duration_string d =
     (let u = nat \<bar>d\<bar>; sign = (if d < 0 then ''-'' else '''') in
      if u = 0 then ''0s''
      else if u < 1000 then sign @ nat_text u @ ''ns''
      else if u < 1000000 then
        sign @ nat_text (u div 1000) @ frac_digits 3 (u mod 1000) @ [CHR 0xC2, CHR 0xB5, CHR ''s'']
      else if u < 1000000000 then
        sign @ nat_text (u div 1000000) @ frac_digits 6 (u mod 1000000) @ ''ms''
      else
        let s = u div 1000000000; m = s div 60; h = m div 60 in
        sign @ (if h > 0 then nat_text h @ ''h'' else '''')
          @ (if m > 0 then nat_text (m mod 60) @ ''m'' else '''')
          @ nat_text (s mod 60) @ frac_digits 9 (u mod 1000000000) @ ''s'')"

end
