(* ===== verification/Heartbeat.thy ===== *)
theory Heartbeat
  imports Broker GoDuration
begin

text \<open>
  Package heartbeat (cli/internal/heartbeat): the daemon's heartbeat message and its publisher,
  a workspace snapshot that registry updates replace and that every heartbeat copies.
\<close>

section \<open>Definitions\<close>

record FlowInfo =
  fi_FlowID :: string
  fi_Label :: string
  fi_Metadata :: meta
  fi_LastActivity :: time

record WorkspaceInfo =
  wi_WorkspaceID :: string
  wi_DisplayName :: string
  wi_AbsPath :: string
  wi_ActiveFlows :: "FlowInfo list"

record DaemonHeartbeat =
  dh_DaemonID :: string
  dh_Username :: string
  dh_Hostname :: string
  dh_GracePeriod :: string
  dh_DeviceHeartbeatInterval :: string
  dh_Workspaces :: "WorkspaceInfo list"
  dh_Timestamp :: time

definition Subject :: "string \<Rightarrow> string \<Rightarrow> string" where
  "Subject username daemonID = ''resystems.renotify.'' @ username @ ''.daemon.'' @ daemonID @ ''.heartbeat''"

text \<open>The \<^verbatim>\<open>omitempty\<close> of a struct field has no effect: the last activity is always written.\<close>

definition enc_fi :: "FlowInfo \<Rightarrow> json" where
  "enc_fi f = JObj (e_str ''flow_id'' (fi_FlowID f) @ e_str_opt ''label'' (fi_Label f)
     @ e_meta_opt ''metadata'' (fi_Metadata f) @ e_time ''last_activity'' (fi_LastActivity f))"

definition enc_wi :: "WorkspaceInfo \<Rightarrow> json" where
  "enc_wi w = JObj (e_str ''workspace_id'' (wi_WorkspaceID w) @ e_str ''display_name'' (wi_DisplayName w)
     @ e_str ''abs_path'' (wi_AbsPath w) @ [(''active_flows'', JArr (map enc_fi (wi_ActiveFlows w)))])"

definition enc_dh :: "DaemonHeartbeat \<Rightarrow> json" where
  "enc_dh h = JObj (e_str ''daemon_id'' (dh_DaemonID h) @ e_str ''username'' (dh_Username h)
     @ e_str ''hostname'' (dh_Hostname h) @ e_str_opt ''grace_period'' (dh_GracePeriod h)
     @ e_str_opt ''device_heartbeat_interval'' (dh_DeviceHeartbeatInterval h)
     @ [(''workspaces'', JArr (map enc_wi (dh_Workspaces h)))] @ e_time ''timestamp'' (dh_Timestamp h))"

definition hb_times_ok :: "DaemonHeartbeat \<Rightarrow> bool" where
  "hb_times_ok h \<longleftrightarrow> four_digit_year (dh_Timestamp h)
     \<and> list_all (\<lambda>w. list_all (\<lambda>f. four_digit_year (fi_LastActivity f)) (wi_ActiveFlows w)) (dh_Workspaces h)"

text \<open>The publisher; \<open>pb_sent\<close> are the messages handed to NATS, newest last.\<close>

record publisher =
  pb_daemonID :: string
  pb_username :: string
  pb_hostname :: string
  pb_gracePeriod :: duration
  pb_deviceHeartbeatInterval :: duration
  pb_workspaces :: "WorkspaceInfo list"
  pb_running :: bool
  pb_sent :: "(string \<times> DaemonHeartbeat) list"

definition new_publisher :: "string \<Rightarrow> string \<Rightarrow> string \<Rightarrow> duration \<Rightarrow> duration \<Rightarrow> publisher" where
  "new_publisher daemonID username hostname grace deviceInterval =
     \<lparr> pb_daemonID = daemonID, pb_username = username, pb_hostname = hostname, pb_gracePeriod = grace,
       pb_deviceHeartbeatInterval = deviceInterval, pb_workspaces = [], pb_running = False, pb_sent = [] \<rparr>"

definition SetWorkspaces :: "WorkspaceInfo list \<Rightarrow> publisher \<Rightarrow> publisher" where
  "SetWorkspaces ws p = p\<lparr> pb_workspaces := ws \<rparr>"

text \<open>One heartbeat at \<open>now\<close>; \<open>ok\<close> is the answer of the NATS connection.\<close>

definition hb_publish :: "time \<Rightarrow> bool \<Rightarrow> publisher \<Rightarrow> publisher" where
  "hb_publish now ok p =
     (let hb = \<lparr> dh_DaemonID = pb_daemonID p, dh_Username = pb_username p, dh_Hostname = pb_hostname p,
                 dh_GracePeriod = duration_string (pb_gracePeriod p),
                 dh_DeviceHeartbeatInterval = duration_string (pb_deviceHeartbeatInterval p),
                 dh_Workspaces = pb_workspaces p, dh_Timestamp = now \<rparr>
      in if \<not> hb_times_ok hb then p
         else if \<not> ok then p
         else p\<lparr> pb_sent := pb_sent p @ [(Subject (pb_username p) (pb_daemonID p), hb)] \<rparr>)"

definition hb_Start :: "time \<Rightarrow> bool \<Rightarrow> publisher \<Rightarrow> publisher" where
  "hb_Start now ok p = (hb_publish now ok p)\<lparr> pb_running := True \<rparr>"

definition hb_Stop :: "publisher \<Rightarrow> publisher" where
  "hb_Stop p = p\<lparr> pb_running := False \<rparr>"

text \<open>One turn of the ticker loop: a tick publishes, a cancelled context ends the loop.\<close>

definition hb_tick :: "time \<Rightarrow> bool \<Rightarrow> publisher \<Rightarrow> publisher" where
  "hb_tick now ok p = (if pb_running p then hb_publish now ok p else p)"

section \<open>Lemmas\<close>

lemma SetWorkspaces_keeps [simp]:
  "pb_username (SetWorkspaces ws p) = pb_username p" "pb_daemonID (SetWorkspaces ws p) = pb_daemonID p"
  "pb_sent (SetWorkspaces ws p) = pb_sent p" "pb_workspaces (SetWorkspaces ws p) = ws"
  by (simp_all add: SetWorkspaces_def)

lemma hb_publish_keeps [simp]:
  "pb_workspaces (hb_publish now ok p) = pb_workspaces p" "pb_username (hb_publish now ok p) = pb_username p"
  "pb_daemonID (hb_publish now ok p) = pb_daemonID p" "pb_running (hb_publish now ok p) = pb_running p"
  by (simp_all add: hb_publish_def Let_def)

lemma hb_publish_sent:
  "four_digit_year now \<Longrightarrow>
     list_all (\<lambda>w. list_all (\<lambda>f. four_digit_year (fi_LastActivity f)) (wi_ActiveFlows w)) (pb_workspaces p) \<Longrightarrow>
     \<exists>h. pb_sent (hb_publish now True p) = pb_sent p @ [(Subject (pb_username p) (pb_daemonID p), h)]
       \<and> dh_Workspaces h = pb_workspaces p \<and> dh_Timestamp h = now"
  by (simp add: hb_publish_def Let_def hb_times_ok_def)

end
