(* ===== verification/Registry.thy ===== *)
theory Registry
  imports FlowStore Presence Heartbeat
begin

text \<open>
  Package registry (cli/internal/registry): the daemon's service that records the messages of the
  JetStream consumer, reaps stale flows, keeps the heartbeat's workspace snapshot and answers the
  request-reply endpoints. What the outside decides in one operation is an \<open>env\<close>.
\<close>

section \<open>Service and surroundings\<close>

text \<open>A workspace while the snapshot is built.\<close>

record wsInfo =
  ws_displayName :: string
  ws_absPath :: string
  ws_flows :: "FlowInfo list"

text \<open>
  \<open>en_faults n\<close> are the faults of the \<open>n\<close>-th ledger call of the operation, \<open>en_sort_flows\<close> is the
  engine's sort, \<open>en_map_order\<close> the iteration order of a Go map, \<open>en_sort_ws\<close> is \<^verbatim>\<open>sort.Slice\<close>;
  then the clock at the query for stale flows, in the reaping loop and in the heartbeat, and the
  answers of JetStream (per subject) and of the NATS connection.
\<close>

record env =
  en_faults :: "nat \<Rightarrow> faults"
  en_fk :: bool
  en_sort_flows :: "flow_row sorter"
  en_map_order :: "(string, wsInfo) gomap \<Rightarrow> (string \<times> wsInfo) list"
  en_sort_ws :: "WorkspaceInfo sorter"
  en_query_now :: time
  en_now :: time
  en_hb_now :: time
  en_js_ok :: "string \<Rightarrow> bool"
  en_nats_ok :: bool

text \<open>\<open>rs_published\<close> are the lifecycle messages given to JetStream, with their message ids.\<close>

record Service =
  rs_username :: string
  rs_grace :: duration
  rs_db :: ledger
  rs_hb :: publisher
  rs_presence :: "Tracker option"
  rs_subs :: "string list"
  rs_running :: bool
  rs_acked :: "string list"
  rs_published :: "(string \<times> FlowLifecycleEvent \<times> string) list"

section \<open>Workspace snapshot\<close>

definition flow_info :: "ActiveFlow \<Rightarrow> FlowInfo" where
  "flow_info f = \<lparr> fi_FlowID = af_FlowID f, fi_Label = af_Label f, fi_Metadata = af_Metadata f,
     fi_LastActivity = af_LastActivity f \<rparr>"

definition add_flow :: "ActiveFlow \<Rightarrow> (string, wsInfo) gomap \<Rightarrow> (string, wsInfo) gomap" where
  "add_flow f m =
     (let ws = (case gm_get m (af_WorkspaceID f) of
            None \<Rightarrow> \<lparr> ws_displayName = af_DisplayName f, ws_absPath = af_AbsPath f, ws_flows = [] \<rparr>
          | Some ws \<Rightarrow> ws)
      in gm_set (af_WorkspaceID f) (ws\<lparr> ws_flows := ws_flows ws @ [flow_info f] \<rparr>) m)"

definition workspace_info :: "string \<times> wsInfo \<Rightarrow> WorkspaceInfo" where
  "workspace_info p = (case p of (wsID, ws) \<Rightarrow>
     \<lparr> wi_WorkspaceID = wsID, wi_DisplayName = ws_displayName ws, wi_AbsPath = ws_absPath ws,
       wi_ActiveFlows = ws_flows ws \<rparr>)"

definition by_display_name :: "WorkspaceInfo \<Rightarrow> WorkspaceInfo \<Rightarrow> bool" where
  "by_display_name a b = (wi_DisplayName a < wi_DisplayName b)"

definition snapshot :: "env \<Rightarrow> ActiveFlow list \<Rightarrow> WorkspaceInfo list" where
  "snapshot en flows =
     (let byWorkspace = fold add_flow flows []
      in en_sort_ws en by_display_name (map workspace_info (en_map_order en byWorkspace)))"

definition all_flows :: ActiveFlowsQuery where
  "all_flows = \<lparr> afq_FlowID = '''', afq_DaemonID = '''', afq_WorkspaceID = '''' \<rparr>"

text \<open>\<open>n\<close> is the number of the ledger call.\<close>

definition rebuildWorkspaceSnapshot :: "env \<Rightarrow> nat \<Rightarrow> Service \<Rightarrow> Service" where
  "rebuildWorkspaceSnapshot en n s =
     (case ListActiveFlows (en_sort_flows en) (en_faults en n) all_flows (rs_db s) of
        Inl _ \<Rightarrow> s
      | Inr flows \<Rightarrow>
          s\<lparr> rs_hb := hb_publish (en_hb_now en) (en_nats_ok en) (SetWorkspaces (snapshot en flows) (rs_hb s)) \<rparr>)"

section \<open>Lifecycle consumer\<close>

definition subjectSuffix :: "string \<Rightarrow> string" where
  "subjectSuffix subject =
     (case last_index_byte (CHR ''.'') subject of None \<Rightarrow> subject | Some i \<Rightarrow> drop (i + 1) subject)"

definition ack :: "string \<Rightarrow> Service \<Rightarrow> Service" where
  "ack subject s = s\<lparr> rs_acked := rs_acked s @ [subject] \<rparr>"

text \<open>Indexing a Go map with a key that is not there gives the zero value.\<close>

definition meta_get :: "meta \<Rightarrow> string \<Rightarrow> string" where
  "meta_get m k = (case Option.bind m (\<lambda>kv. gm_get kv k) of None \<Rightarrow> '''' | Some v \<Rightarrow> v)"

definition event_flow :: "string \<Rightarrow> FlowLifecycleEvent \<Rightarrow> ActiveFlow" where
  "event_flow username ev =
     \<lparr> af_FlowID = ev_FlowID ev, af_Username = username, af_DaemonID = ev_DaemonID ev,
       af_WorkspaceID = ev_WorkspaceID ev, af_DisplayName = meta_get (ev_Metadata ev) MetaDisplayName,
       af_AbsPath = meta_get (ev_Metadata ev) MetaAbsPath, af_Label = ev_Label ev,
       af_Metadata = ev_Metadata ev, af_RegisteredAt = ev_Timestamp ev, af_LastActivity = ev_Timestamp ev \<rparr>"

definition handleActive :: "env \<Rightarrow> FlowLifecycleEvent \<Rightarrow> Service \<Rightarrow> Service" where
  "handleActive en ev s =
     (let (err, db) = RegisterFlow (en_faults en 0) (event_flow (rs_username s) ev) (rs_db s);
          db = (case err of None \<Rightarrow> db
                | Some _ \<Rightarrow> snd (RefreshFlow (en_faults en 1) (ev_FlowID ev) (ev_Label ev) (ev_Metadata ev)
                                (ev_Timestamp ev) db))
      in s\<lparr> rs_db := db \<rparr>)"

definition handleTerminal :: "env \<Rightarrow> FlowLifecycleEvent \<Rightarrow> Service \<Rightarrow> Service" where
  "handleTerminal en ev s =
     s\<lparr> rs_db := snd (TerminateFlow (en_faults en 0) (ev_FlowID ev) (ev_Status ev) (ev_Timestamp ev) (rs_db s)) \<rparr>"

definition processLifecycleEvent :: "env \<Rightarrow> string \<Rightarrow> wire \<Rightarrow> Service \<Rightarrow> Service" where
  "processLifecycleEvent en subject data s =
     (case unmarshal dec_ev data of
        None \<Rightarrow> ack subject s
      | Some ev \<Rightarrow>
          let s = (if ev_Status ev = FlowActive then handleActive en ev s
                   else if ev_Status ev = FlowCompleted \<or> ev_Status ev = FlowFailed then handleTerminal en ev s
                   else s)
          in rebuildWorkspaceSnapshot en 2 (ack subject s))"

definition processRequest :: "env \<Rightarrow> string \<Rightarrow> wire \<Rightarrow> Service \<Rightarrow> Service" where
  "processRequest en subject data s =
     (case unmarshal dec_nr data of
        None \<Rightarrow> ack subject s
      | Some req \<Rightarrow>
          let wc = \<lparr> wc_Username = rs_username s, wc_FlowLabel = '''', wc_WorkspaceName = '''', wc_WorkspacePath = '''' \<rparr>;
              wc = (case LookupActiveFlow (en_sort_flows en) (en_faults en 0) (nr_FlowID req) (rs_db s) of
                      Inr (Some flow) \<Rightarrow> wc\<lparr> wc_FlowLabel := af_Label flow, wc_WorkspaceName := af_DisplayName flow,
                                            wc_WorkspacePath := af_AbsPath flow \<rparr>
                    | _ \<Rightarrow> wc)
          in ack subject (s\<lparr> rs_db := snd (InsertRequest (en_faults en 1) wc req (rs_db s)) \<rparr>))"

definition processResponse :: "env \<Rightarrow> string \<Rightarrow> wire \<Rightarrow> Service \<Rightarrow> Service" where
  "processResponse en subject data s =
     (if isErrorResponse data then ack subject s
      else case unmarshal dec_resp data of
        None \<Rightarrow> ack subject s
      | Some resp \<Rightarrow> ack subject (s\<lparr> rs_db := snd (InsertResponse (en_fk en) (en_faults en 0) resp (rs_db s)) \<rparr>))"

definition processMessage :: "env \<Rightarrow> string \<Rightarrow> wire \<Rightarrow> Service \<Rightarrow> Service" where
  "processMessage en subject data s =
     (let suffix = subjectSuffix subject in
      if suffix = ''lifecycle'' then processLifecycleEvent en subject data s
      else if suffix = ''request'' then processRequest en subject data s
      else if suffix = ''response'' then processResponse en subject data s
      else ack subject s)"

text \<open>
  The consumer's loop over what its iterator yields. The result says whether it returned; at the end of
  the list it waits for the next message. Any error ends it, that of a cancelled context or another.
\<close>

datatype next_result = Next_message env string wire | Next_error

fun consumeLifecycle :: "next_result list \<Rightarrow> Service \<Rightarrow> bool \<times> Service" where
  "consumeLifecycle [] s = (False, s)"
| "consumeLifecycle (Next_message en subject data # ns) s = consumeLifecycle ns (processMessage en subject data s)"
| "consumeLifecycle (Next_error # ns) s = (True, s)"

section \<open>Reaper\<close>

definition failed_event :: "ActiveFlow \<Rightarrow> time \<Rightarrow> FlowLifecycleEvent" where
  "failed_event f ts =
     \<lparr> ev_FlowID = af_FlowID f, ev_DaemonID = af_DaemonID f, ev_WorkspaceID = af_WorkspaceID f,
       ev_Status = FlowFailed, ev_Label = '''', ev_Metadata = None, ev_Timestamp = ts \<rparr>"

definition publishFailedLifecycle :: "env \<Rightarrow> ActiveFlow \<Rightarrow> time \<Rightarrow> Service \<Rightarrow> Service" where
  "publishFailedLifecycle en f ts s =
     (if \<not> four_digit_year ts then s
      else let subject = FlowLifecycleSubject (rs_username s) (af_FlowID f)
           in if en_js_ok en subject
              then s\<lparr> rs_published := rs_published s @ [(subject, failed_event f ts, af_FlowID f @ ''-reaped'')] \<rparr>
              else s)"

text \<open>One turn of the loop over the stale flows, terminating with the \<open>n\<close>-th ledger call.\<close>

definition reap_flow :: "env \<Rightarrow> nat \<Rightarrow> ActiveFlow \<Rightarrow> Service \<Rightarrow> Service" where
  "reap_flow en n f s =
     (case TerminateFlow (en_faults en n) (af_FlowID f) FlowFailed (en_now en) (rs_db s) of
        (Some _, db) \<Rightarrow> s\<lparr> rs_db := db \<rparr>
      | (None, db) \<Rightarrow> publishFailedLifecycle en f (en_now en) (s\<lparr> rs_db := db \<rparr>))"

fun reap_flows :: "env \<Rightarrow> nat \<Rightarrow> ActiveFlow list \<Rightarrow> Service \<Rightarrow> Service" where
  "reap_flows en n [] s = s"
| "reap_flows en n (f # fs) s = reap_flows en (Suc n) fs (reap_flow en n f s)"

definition reapOnce :: "env \<Rightarrow> Service \<Rightarrow> Service" where
  "reapOnce en s =
     (case ReapStaleFlows (en_faults en 0) (en_query_now en) (rs_grace s) (rs_db s) of
        Inl _ \<Rightarrow> s
      | Inr stale \<Rightarrow>
          let s = reap_flows en 3 stale s
          in if length stale > 0 then rebuildWorkspaceSnapshot en 1 s else s)"

text \<open>One tick of the reaper's ticker; a cancelled context has ended its loop.\<close>

definition runReaper_tick :: "env \<Rightarrow> Service \<Rightarrow> Service" where
  "runReaper_tick en s = (if rs_running s then reapOnce en s else s)"

section \<open>Query endpoints\<close>

text \<open>The data of a request: none, or some bytes. A reply is the bytes it carries.\<close>

type_synonym body = "wire option"

definition query_body :: "(json \<Rightarrow> 'q option) \<Rightarrow> 'q \<Rightarrow> body \<Rightarrow> 'q option" where
  "query_body dec zero b = (case b of None \<Rightarrow> Some zero | Some w \<Rightarrow> unmarshal dec w)"

definition flow_entry :: "ActiveFlow \<Rightarrow> FlowEntry" where
  "flow_entry f = \<lparr> fe_FlowID = af_FlowID f, fe_DaemonID = af_DaemonID f, fe_WorkspaceID = af_WorkspaceID f,
     fe_DisplayName = af_DisplayName f, fe_AbsPath = af_AbsPath f, fe_Label = af_Label f,
     fe_Metadata = af_Metadata f, fe_RegisteredAt = af_RegisteredAt f, fe_LastActivity = af_LastActivity f \<rparr>"

definition or_else :: "wire \<Rightarrow> json \<Rightarrow> wire" where
  "or_else w j = (case w of None \<Rightarrow> Some j | Some d \<Rightarrow> Some d)"

definition handleFlowsQuery :: "env \<Rightarrow> body \<Rightarrow> Service \<Rightarrow> wire" where
  "handleFlowsQuery en data s =
     (let none = JObj [(''flows'', JArr [])] in
      case query_body dec_fq zero_fq data of
        None \<Rightarrow> Some none
      | Some q \<Rightarrow>
          (case ListActiveFlows (en_sort_flows en) (en_faults en 0)
              \<lparr> afq_FlowID = fq_FlowID q, afq_DaemonID = fq_DaemonID q, afq_WorkspaceID = fq_WorkspaceID q \<rparr>
              (rs_db s) of
             Inl _ \<Rightarrow> Some none
           | Inr flows \<Rightarrow>
               let entries = map flow_entry flows
               in or_else (marshal (flow_times_ok entries) (enc_fr \<lparr> fr_Flows = entries \<rparr>)) none))"

definition handleSearchFlowsQuery :: "env \<Rightarrow> body \<Rightarrow> Service \<Rightarrow> wire" where
  "handleSearchFlowsQuery en data s =
     (let none = JObj [(''flow_ids'', JArr [])] in
      case query_body dec_sfq \<lparr> sfq_Workspace = '''' \<rparr> data of
        None \<Rightarrow> Some none
      | Some q \<Rightarrow>
          (case SearchActiveFlows (en_sort_flows en) (en_faults en 0) (sfq_Workspace q) (rs_db s) of
             Inl _ \<Rightarrow> Some none
           | Inr flows \<Rightarrow> Some (enc_sfr \<lparr> sfr_FlowIDs = map af_FlowID flows \<rparr>)))"

definition record_times_ok :: "HistoryRecord \<Rightarrow> bool" where
  "record_times_ok r \<longleftrightarrow>
     (case hr_Request r of None \<Rightarrow> True | Some q \<Rightarrow> four_digit_year (nr_Timestamp q))
   \<and> (case hr_Response r of None \<Rightarrow> True | Some p \<Rightarrow> four_digit_year (resp_Timestamp p))
   \<and> (case hr_Lifecycle r of None \<Rightarrow> True | Some e \<Rightarrow> four_digit_year (ev_Timestamp e))"

definition emptyHistoryResult :: json where
  "emptyHistoryResult = JObj [(''records'', JArr []), (''total'', JNum 0)]"

text \<open>The three sorting routines of the history query come first.\<close>

definition handleHistoryQuery ::
    "(request_row \<times> response_row option) sorter \<Rightarrow> event_row sorter \<Rightarrow> HistoryRecord sorter \<Rightarrow>
     env \<Rightarrow> body \<Rightarrow> Service \<Rightarrow> wire" where
  "handleHistoryQuery srt_n srt_e srt_a en data s =
     (case query_body dec_hq zero_hq data of
        None \<Rightarrow> Some emptyHistoryResult
      | Some q \<Rightarrow>
          (case QueryHistory srt_n srt_e srt_a (en_faults en 0) q (rs_db s) of
             Inl _ \<Rightarrow> Some emptyHistoryResult
           | Inr (records, n) \<Rightarrow>
               or_else (marshal (list_all record_times_ok records)
                   (enc_hqr \<lparr> hqr_Records = records, hqr_Total = int n \<rparr>)) emptyHistoryResult))"

definition handleDevicePresence :: "time \<Rightarrow> Service \<Rightarrow> wire" where
  "handleDevicePresence now s =
     (let devices = (case rs_presence s of None \<Rightarrow> [] | Some t \<Rightarrow> DevicePresence now t)
      in marshal (list_all (\<lambda>d. four_digit_year (ds_PairedAt d)
             \<and> (case ds_LastSeen d of None \<Rightarrow> True | Some t \<Rightarrow> four_digit_year t)) devices)
           (enc_dpr devices))"

section \<open>Write endpoints\<close>

definition okResult :: json where
  "okResult = JObj [(''ok'', JBool True)]"

definition writeError :: "string \<Rightarrow> wire" where
  "writeError text = Some (enc_wr False text)"

text \<open>
  \<open>txt\<close> is the text of a decoding error, a function of the data that \<^verbatim>\<open>encoding/json\<close> decides.
\<close>

definition write_endpoint ::
    "(wire \<Rightarrow> string) \<Rightarrow> (json \<Rightarrow> 'c option) \<Rightarrow> ('c \<Rightarrow> ledger \<Rightarrow> db_error option \<times> ledger) \<Rightarrow>
     wire \<Rightarrow> Service \<Rightarrow> wire \<times> Service" where
  "write_endpoint txt dec op data s =
     (case unmarshal dec data of
        None \<Rightarrow> (writeError (''unmarshal: '' @ txt data), s)
      | Some cmd \<Rightarrow> (Some okResult, s\<lparr> rs_db := snd (op cmd (rs_db s)) \<rparr>))"

definition handleInsertRequest :: "(wire \<Rightarrow> string) \<Rightarrow> env \<Rightarrow> wire \<Rightarrow> Service \<Rightarrow> wire \<times> Service" where
  "handleInsertRequest txt en = write_endpoint txt dec_irc
     (\<lambda>cmd. InsertRequest (en_faults en 0)
        \<lparr> wc_Username = irc_Username cmd, wc_FlowLabel = irc_FlowLabel cmd,
          wc_WorkspaceName = irc_WorkspaceName cmd, wc_WorkspacePath = irc_WorkspacePath cmd \<rparr> (irc_Request cmd))"

definition handleInsertResponse :: "(wire \<Rightarrow> string) \<Rightarrow> env \<Rightarrow> wire \<Rightarrow> Service \<Rightarrow> wire \<times> Service" where
  "handleInsertResponse txt en = write_endpoint txt dec_isc
     (\<lambda>cmd. InsertResponse (en_fk en) (en_faults en 0) (isc_Response cmd))"

definition handleInsertInterjection :: "(wire \<Rightarrow> string) \<Rightarrow> env \<Rightarrow> wire \<Rightarrow> Service \<Rightarrow> wire \<times> Service" where
  "handleInsertInterjection txt en = write_endpoint txt dec_iic
     (\<lambda>cmd. InsertInterjection (en_faults en 0)
        \<lparr> wc_Username = iic_Username cmd, wc_FlowLabel = '''', wc_WorkspaceName = '''', wc_WorkspacePath = '''' \<rparr>
        (iic_Interjection cmd))"

definition handleUpdateActivity :: "(wire \<Rightarrow> string) \<Rightarrow> env \<Rightarrow> wire \<Rightarrow> Service \<Rightarrow> wire \<times> Service" where
  "handleUpdateActivity txt en = write_endpoint txt dec_uac
     (\<lambda>cmd. UpdateFlowActivity (en_faults en 0) (uac_FlowID cmd) (uac_Timestamp cmd))"

section \<open>Start and stop\<close>

definition endpoint_subjects :: "string \<Rightarrow> string list" where
  "endpoint_subjects u =
     [ServiceFlowsSubject u, ServiceSearchFlowsSubject u, ServiceHistorySubject u,
      ServiceInsertRequestSubject u, ServiceInsertResponseSubject u, ServiceInsertInterjectionSubject u,
      ServiceUpdateActivitySubject u, ServiceDevicePresenceSubject u]"

text \<open>Subscribe in order until one fails; the ones before stay subscribed.\<close>

fun subscribe_all :: "(string \<Rightarrow> bool) \<Rightarrow> string list \<Rightarrow> Service \<Rightarrow> bool \<times> Service" where
  "subscribe_all ok [] s = (True, s)"
| "subscribe_all ok (subj # subjs) s =
     (if ok subj then subscribe_all ok subjs (s\<lparr> rs_subs := rs_subs s @ [subj] \<rparr>) else (False, s))"

text \<open>
  The environments are those of the reaping pass and of the rebuild; the result says whether the
  service started.
\<close>

definition registry_Start :: "bool \<Rightarrow> (string \<Rightarrow> bool) \<Rightarrow> env \<Rightarrow> env \<Rightarrow> Service \<Rightarrow> bool \<times> Service" where
  "registry_Start consumer_ok subscribe_ok en en' s =
     (if \<not> consumer_ok then (False, s)
      else case subscribe_all subscribe_ok (endpoint_subjects (rs_username s)) (s\<lparr> rs_running := True \<rparr>) of
        (False, s) \<Rightarrow> (False, s\<lparr> rs_running := False \<rparr>)
      | (True, s) \<Rightarrow> (True, rebuildWorkspaceSnapshot en' 0 (reapOnce en s)))"

definition registry_Stop :: "Service \<Rightarrow> Service" where
  "registry_Stop s = s\<lparr> rs_running := False, rs_subs := [] \<rparr>"

end
