(* ===== verification/RegistryLaws.thy ===== *)
theory RegistryLaws
  imports Registry
begin

text \<open>
  What the registry service guarantees: its handling of lifecycle events against a map of active
  flows, the heartbeat snapshot against the table, the reaper against its own messages, and the
  replies of its endpoints.
\<close>

section \<open>Workspace snapshot\<close>

definition permutes :: "('a list \<Rightarrow> 'a list) \<Rightarrow> bool" where
  "permutes order \<longleftrightarrow> (\<forall>m. mset (order m) = mset m)"

text \<open>The state of the grouping loop: the flows seen so far, by workspace, in order.\<close>

definition in_workspace :: "string \<Rightarrow> ActiveFlow list \<Rightarrow> ActiveFlow list" where
  "in_workspace w flows = filter (\<lambda>f. af_WorkspaceID f = w) flows"

definition grouped :: "ActiveFlow list \<Rightarrow> (string, wsInfo) gomap \<Rightarrow> bool" where
  "grouped flows m \<longleftrightarrow> gm_ok m \<and>
     (\<forall>w. gm_get m w = (case in_workspace w flows of [] \<Rightarrow> None
        | f # fs \<Rightarrow> Some \<lparr> ws_displayName = af_DisplayName f, ws_absPath = af_AbsPath f,
                        ws_flows = map flow_info (f # fs) \<rparr>))"

lemma grouped_add: "grouped flows m \<Longrightarrow> grouped (flows @ [f]) (add_flow f m)"
  by (auto simp: grouped_def add_flow_def Let_def in_workspace_def split: list.splits)

lemma grouped_fold: "grouped seen m \<Longrightarrow> grouped (seen @ flows) (fold add_flow flows m)"
proof (induction flows arbitrary: seen m)
  case (Cons f flows)
  from Cons.IH [OF grouped_add [OF Cons.prems, of f]] show ?case by simp
qed simp

lemma grouped_all: "grouped flows (fold add_flow flows [])"
  using grouped_fold [of "[]" "[]" flows] by (simp add: grouped_def in_workspace_def)

lemma snapshot_mset:
  assumes "sort_slice (en_sort_ws en)" and "permutes (en_map_order en)"
  shows "mset (snapshot en flows) = mset (map workspace_info (fold add_flow flows []))"
    and "sorted_wrt (\<lambda>a b. wi_DisplayName a \<le> wi_DisplayName b) (snapshot en flows)"
proof -
  have w: "weak_order by_display_name" unfolding by_display_name_def by (rule weak_order_key)
  show "mset (snapshot en flows) = mset (map workspace_info (fold add_flow flows []))"
    using sort_sliceD(1) [OF assms(1) w] assms(2) by (simp add: snapshot_def Let_def permutes_def)
  show "sorted_wrt (\<lambda>a b. wi_DisplayName a \<le> wi_DisplayName b) (snapshot en flows)"
    using sort_sliceD(2) [OF assms(1) w] by (simp add: snapshot_def Let_def by_display_name_def not_less)
qed

lemma snapshot_exact:
  assumes "sort_slice (en_sort_ws en)" and "permutes (en_map_order en)"
  shows "distinct (map wi_WorkspaceID (snapshot en flows))"
    and "w \<in> set (snapshot en flows) \<Longrightarrow>
           wi_ActiveFlows w = map flow_info (in_workspace (wi_WorkspaceID w) flows) \<and> wi_ActiveFlows w \<noteq> []"
    and "wi_WorkspaceID ` set (snapshot en flows) = af_WorkspaceID ` set flows"
proof -
  let ?m = "fold add_flow flows []"
  have g: "grouped flows ?m" by (rule grouped_all)
  note ms = snapshot_mset(1) [OF assms, of flows]
  have id: "wi_WorkspaceID (workspace_info p) = fst p" for p by (cases p) (simp add: workspace_info_def)
  have "mset (map wi_WorkspaceID (snapshot en flows)) = mset (map fst ?m)"
    using ms by (metis (no_types, lifting) id list.map_comp map_eq_conv mset_map o_apply)
  then show "distinct (map wi_WorkspaceID (snapshot en flows))"
    using g by (metis grouped_def gm_ok_def mset_eq_imp_distinct_iff)
  have set: "set (snapshot en flows) = workspace_info ` set ?m" using mset_eq_setD [OF ms] by simp
  show "wi_ActiveFlows w = map flow_info (in_workspace (wi_WorkspaceID w) flows) \<and> wi_ActiveFlows w \<noteq> []"
    if "w \<in> set (snapshot en flows)"
  proof -
    from that set obtain k ws where kv: "(k, ws) \<in> set ?m" "w = workspace_info (k, ws)" by auto
    have "gm_ok ?m" using g by (simp add: grouped_def)
    from gm_get_in_set [OF this, of k ws] kv(1) have "gm_get ?m k = Some ws" by blast
    with g have "ws_flows ws = map flow_info (in_workspace k flows) \<and> ws_flows ws \<noteq> []"
      by (auto simp: grouped_def split: list.splits)
    with kv show ?thesis by (auto simp: workspace_info_def)
  qed
  have "k \<in> fst ` set ?m \<longleftrightarrow> k \<in> af_WorkspaceID ` set flows" for k
  proof -
    have "k \<in> fst ` set ?m \<longleftrightarrow> gm_get ?m k \<noteq> None" by (simp add: map_of_eq_None_iff)
    also have "\<dots> \<longleftrightarrow> in_workspace k flows \<noteq> []" using g by (auto simp: grouped_def split: list.splits)
    also have "\<dots> \<longleftrightarrow> k \<in> af_WorkspaceID ` set flows" by (auto simp: in_workspace_def filter_empty_conv)
    finally show ?thesis .
  qed
  then show "wi_WorkspaceID ` set (snapshot en flows) = af_WorkspaceID ` set flows"
    by (auto simp: set id image_image)
qed

text \<open>What a snapshot says, flattened: each active flow under its workspace.\<close>

definition flat :: "WorkspaceInfo list \<Rightarrow> (string \<times> FlowInfo) multiset" where
  "flat ws = mset (concat (map (\<lambda>w. map (Pair (wi_WorkspaceID w)) (wi_ActiveFlows w)) ws))"

lemma flat_mset: "mset ws = mset ws' \<Longrightarrow> flat ws = flat ws'"
proof -
  have "flat ws = (\<Sum>w \<in># mset ws. mset (map (Pair (wi_WorkspaceID w)) (wi_ActiveFlows w)))" for ws
    unfolding flat_def by (induction ws) simp_all
  then show "mset ws = mset ws' \<Longrightarrow> flat ws = flat ws'" by simp
qed

lemma flat_add: "flat (map workspace_info (add_flow f m))
    = flat (map workspace_info m) + {# (af_WorkspaceID f, flow_info f) #}" if "gm_ok m"
  using that
proof (induction m)
  case Nil
  then show ?case by (simp add: flat_def add_flow_def gm_set_def workspace_info_def)
next
  case (Cons p m)
  obtain k ws where p: "p = (k, ws)" by force
  show ?case
  proof (cases "k = af_WorkspaceID f")
    case True
    with Cons.prems have "gm_get m (af_WorkspaceID f) = None" by (auto simp: p gm_ok_def map_of_eq_None_iff)
    with True show ?thesis by (simp add: p flat_def add_flow_def gm_set_def workspace_info_def Let_def)
  next
    case False
    then have "add_flow f (p # m) = p # add_flow f m" by (simp add: p add_flow_def gm_set_def Let_def)
    with Cons show ?thesis by (simp add: flat_def gm_ok_def)
  qed
qed

lemma flat_fold:
  "gm_ok m \<Longrightarrow> gm_ok (fold add_flow flows m) \<and> flat (map workspace_info (fold add_flow flows m))
     = flat (map workspace_info m) + mset (map (\<lambda>f. (af_WorkspaceID f, flow_info f)) flows)"
proof (induction flows arbitrary: m)
  case (Cons f flows)
  have "gm_ok (add_flow f m)" using Cons.prems by (simp add: add_flow_def Let_def)
  from Cons.IH [OF this] show ?case by (simp add: flat_add [OF Cons.prems])
qed simp

lemma flat_snapshot:
  assumes "sort_slice (en_sort_ws en)" and "permutes (en_map_order en)"
  shows "flat (snapshot en flows) = mset (map (\<lambda>f. (af_WorkspaceID f, flow_info f)) flows)"
  using flat_mset [OF snapshot_mset(1) [OF assms, of flows]] flat_fold [of "[]" flows]
  by (simp add: flat_def)

section \<open>Handlers and the ledger\<close>

lemma rebuild_keeps [simp]:
  "rs_db (rebuildWorkspaceSnapshot en n s) = rs_db s"
  "rs_username (rebuildWorkspaceSnapshot en n s) = rs_username s"
  "rs_acked (rebuildWorkspaceSnapshot en n s) = rs_acked s"
  "rs_published (rebuildWorkspaceSnapshot en n s) = rs_published s"
  "rs_running (rebuildWorkspaceSnapshot en n s) = rs_running s"
  by (simp_all add: rebuildWorkspaceSnapshot_def split: sum.split)

lemma ack_keeps [simp]:
  "rs_db (ack x s) = rs_db s" "rs_hb (ack x s) = rs_hb s" "rs_username (ack x s) = rs_username s"
  "rs_acked (ack x s) = rs_acked s @ [x]"
  by (simp_all add: ack_def)

lemma handle_keeps [simp]:
  "rs_acked (handleActive en ev s) = rs_acked s" "rs_acked (handleTerminal en ev s) = rs_acked s"
  "rs_hb (handleActive en ev s) = rs_hb s" "rs_hb (handleTerminal en ev s) = rs_hb s"
  by (simp_all add: handleActive_def handleTerminal_def Let_def split: prod.split)

lemmas process_defs = processMessage_def processLifecycleEvent_def processRequest_def processResponse_def

lemma handleActive_db: "rs_db (handleActive en ev s) =
    (let r = RegisterFlow (en_faults en 0) (event_flow (rs_username s) ev) (rs_db s) in
     if fst r = None then snd r
     else snd (RefreshFlow (en_faults en 1) (ev_FlowID ev) (ev_Label ev) (ev_Metadata ev) (ev_Timestamp ev) (snd r)))"
  by (simp add: handleActive_def Let_def split: prod.split option.split)

lemma handleActive_ok [keeps]: "ledger_ok (rs_db s) \<Longrightarrow> ledger_ok (rs_db (handleActive en ev s))"
  by (simp add: handleActive_db Let_def keeps)

lemma handleTerminal_ok [keeps]: "ledger_ok (rs_db s) \<Longrightarrow> ledger_ok (rs_db (handleTerminal en ev s))"
  by (simp add: handleTerminal_def keeps)

lemma processMessage_ok [keeps]: "ledger_ok (rs_db s) \<Longrightarrow> ledger_ok (rs_db (processMessage en subj data s))"
  by (simp add: process_defs Let_def keeps split: option.split)

text \<open>The lifecycle messages as operations on a map of active flows.\<close>

definition lifecycle_spec ::
    "string \<Rightarrow> FlowLifecycleEvent \<Rightarrow> (string \<Rightarrow> ActiveFlow option) \<Rightarrow> string \<Rightarrow> ActiveFlow option" where
  "lifecycle_spec username ev m =
     (if ev_Status ev = FlowActive
      then m(ev_FlowID ev \<mapsto> (case m (ev_FlowID ev) of
               None \<Rightarrow> registered (event_flow username ev)
             | Some f \<Rightarrow> refreshed (ev_Label ev, ev_Metadata ev, ev_Timestamp ev) f))
      else if ev_Status ev \<in> {FlowCompleted, FlowFailed} then m(ev_FlowID ev := None)
      else m)"

text \<open>
  C4 (refinement): the active-flow table implements a map from flow ids to flows. Whatever
  statement of the ledger fails, a lifecycle message changes the flows shown either as the map
  operation says (an active event inserts the flow or replaces label, metadata and activity time; a
  terminal event removes it) or not at all; without faults it is always the former.
\<close>

theorem lifecycle_refines:
  assumes "subjectSuffix subject = ''lifecycle''" and "unmarshal dec_ev data = Some ev"
  shows "let m = shown_flow (rs_db s); m' = shown_flow (rs_db (processMessage en subject data s)) in
      (m' = m \<or> m' = lifecycle_spec (rs_username s) ev m)
    \<and> ((\<forall>n. en_faults en n = no_faults) \<longrightarrow> m' = lifecycle_spec (rs_username s) ev m)"
proof -
  let ?s' = "if ev_Status ev = FlowActive then handleActive en ev s
      else if ev_Status ev = FlowCompleted \<or> ev_Status ev = FlowFailed then handleTerminal en ev s else s"
  have db: "rs_db (processMessage en subject data s) = rs_db ?s'"
    using assms by (simp add: process_defs Let_def)
  have fid: "ev_FlowID ev = af_FlowID (event_flow (rs_username s) ev)" by (simp add: event_flow_def)
  have act: "rs_db (handleActive en ev s) =
     (if fst (RegisterFlow (en_faults en 0) (event_flow (rs_username s) ev) (rs_db s)) = None
      then snd (RegisterFlow (en_faults en 0) (event_flow (rs_username s) ev) (rs_db s))
      else snd ((\<lambda>(label, m, t). RefreshFlow (en_faults en 1) (ev_FlowID ev) label m t)
           (ev_Label ev, ev_Metadata ev, ev_Timestamp ev)
           (snd (RegisterFlow (en_faults en 0) (event_flow (rs_username s) ev) (rs_db s)))))"
    by (simp add: handleActive_db Let_def)
  have ter: "rs_db (handleTerminal en ev s) = snd ((\<lambda>(status, t). TerminateFlow (en_faults en 0) (ev_FlowID ev) status t)
      (ev_Status ev, ev_Timestamp ev) (rs_db s))"
    by (simp add: handleTerminal_def)
  have ne: "FlowCompleted \<noteq> FlowActive" "FlowFailed \<noteq> FlowActive" by (simp_all add: enum_defs)
  consider (active) "ev_Status ev = FlowActive" | (terminal) "ev_Status ev \<in> {FlowCompleted, FlowFailed}"
    | (other) "ev_Status ev \<notin> {FlowActive, FlowCompleted, FlowFailed}" by blast
  then show ?thesis
  proof cases
    case active
    from fs.upsert_cases [OF fid act] have 1: "rs_db ?s' = rs_db s \<or>
        shown_flow (rs_db ?s') = lifecycle_spec (rs_username s) ev (shown_flow (rs_db s))"
      using active by (simp add: lifecycle_spec_def)
    have 2: "shown_flow (rs_db ?s') = lifecycle_spec (rs_username s) ev (shown_flow (rs_db s))"
      if "\<forall>n. en_faults en n = no_faults"
      using fs.upsert_good [OF fid, of "rs_db (handleActive en ev s)" "rs_db s"
          "(ev_Label ev, ev_Metadata ev, ev_Timestamp ev)"] act active that
      by (simp add: lifecycle_spec_def)
    from 1 2 show ?thesis by (auto simp: Let_def db)
  next
    case terminal
    with ne have s': "?s' = handleTerminal en ev s" by auto
    have 1: "rs_db ?s' = rs_db s \<or>
        shown_flow (rs_db ?s') = lifecycle_spec (rs_username s) ev (shown_flow (rs_db s))"
      using fs.remove_cases [of "en_faults en 0" "ev_FlowID ev" "(ev_Status ev, ev_Timestamp ev)" "rs_db s"]
        terminal ne unfolding s' ter by (auto simp: lifecycle_spec_def)
    have 2: "shown_flow (rs_db ?s') = lifecycle_spec (rs_username s) ev (shown_flow (rs_db s))"
      if "\<forall>n. en_faults en n = no_faults"
      using fs.remove_good [of "ev_FlowID ev" "(ev_Status ev, ev_Timestamp ev)" "rs_db s"] that
        terminal ne unfolding s' ter by (auto simp: lifecycle_spec_def)
    from 1 2 show ?thesis by (auto simp: Let_def db)
  next
    case other
    then show ?thesis by (simp add: Let_def db lifecycle_spec_def)
  qed
qed

text \<open>Surroundings that never fail, for the witnesses, and a service over an empty ledger.\<close>

definition calm :: env where
  "calm = \<lparr> en_faults = (\<lambda>_. no_faults), en_fk = True, en_sort_flows = insertion_sort, en_map_order = (\<lambda>m. m),
     en_sort_ws = insertion_sort, en_query_now = 978307200 * second, en_now = 978307200 * second,
     en_hb_now = 978307200 * second, en_js_ok = (\<lambda>_. True), en_nats_ok = True \<rparr>"

definition a_service :: Service where
  "a_service = \<lparr> rs_username = ''alice'', rs_grace = 15 * minute, rs_db = empty_ledger,
     rs_hb = new_publisher ''dn_1'' ''alice'' ''host'' (15 * minute) minute, rs_presence = None,
     rs_subs = [], rs_running = True, rs_acked = [], rs_published = [] \<rparr>"

definition a_start :: FlowLifecycleEvent where
  "a_start = zero_ev\<lparr> ev_FlowID := ''fl_1'', ev_WorkspaceID := ''ws_1'', ev_Status := FlowActive,
     ev_Timestamp := 978307200 * second \<rparr>"

theorem lifecycle_refines_witness:
  "shown_flow (rs_db (processMessage calm ''flow.fl_1.lifecycle'' (Some (enc_ev a_start)) a_service)) ''fl_1''
     = Some (registered (event_flow ''alice'' a_start))"
proof -
  have "dec_ev (enc_ev a_start) = Some (a_start\<lparr> ev_Metadata := norm_meta (ev_Metadata a_start) \<rparr>)"
    by (rule dec_enc_ev) (simp_all add: a_start_def four_digit_year_def meta_ok_def zero_ev_def)
  then have "unmarshal dec_ev (Some (enc_ev a_start)) = Some a_start"
    by (simp add: unmarshal_def a_start_def zero_ev_def norm_meta_def)
  moreover have "subjectSuffix ''flow.fl_1.lifecycle'' = ''lifecycle''" by (simp add: subjectSuffix_def)
  moreover have "shown_flow (rs_db a_service) ''fl_1'' = None"
    by (simp add: a_service_def empty_ledger_def shown_flow_def)
  moreover have "ev_Status a_start = FlowActive" "ev_FlowID a_start = ''fl_1''" "rs_username a_service = ''alice''"
    "\<forall>n. en_faults calm n = no_faults"
    by (simp_all add: a_start_def a_service_def calm_def)
  ultimately show ?thesis
    using lifecycle_refines [of "''flow.fl_1.lifecycle''" "Some (enc_ev a_start)" a_start a_service calm]
    by (simp add: Let_def lifecycle_spec_def)
qed

lemma processMessage_acked: "rs_acked (processMessage en subject data s) = rs_acked s @ [subject]"
  by (simp add: process_defs Let_def split: option.split)

fun next_subject :: "next_result \<Rightarrow> string" where
  "next_subject (Next_message en subject data) = subject"
| "next_subject Next_error = ''''"

lemma consumer_run:
  "consumeLifecycle ns s = (Next_error \<in> set ns, snd (consumeLifecycle ns s))
   \<and> rs_acked (snd (consumeLifecycle ns s)) = rs_acked s @ map next_subject (takeWhile (\<lambda>n. n \<noteq> Next_error) ns)
   \<and> (ledger_ok (rs_db s) \<longrightarrow> ledger_ok (rs_db (snd (consumeLifecycle ns s))))"
  by (induction ns s rule: consumeLifecycle.induct) (auto simp: processMessage_acked prod_eq_iff intro: processMessage_ok)



section \<open>The heartbeat follows the table\<close>

text \<open>Surroundings whose sorts and map order are proper and in which listing the flows works.\<close>

definition reliable :: "env \<Rightarrow> bool" where
  "reliable en \<longleftrightarrow> sort_slice (en_sort_flows en) \<and> sort_slice (en_sort_ws en) \<and> permutes (en_map_order en)
     \<and> (\<forall>n < 3. \<not> en_faults en n 0)"

text \<open>What the daemon does to a running registry: the consumer, the reaper, the endpoints, the ticker.\<close>

inductive registry_step :: "Service \<Rightarrow> Service \<Rightarrow> bool" where
  message: "reliable en \<Longrightarrow> registry_step s (processMessage en subject data s)"
| reap: "reliable en \<Longrightarrow> registry_step s (runReaper_tick en s)"
| heartbeat: "registry_step s (s\<lparr> rs_hb := hb_tick now ok (rs_hb s) \<rparr>)"
| request: "registry_step s (snd (handleInsertRequest txt en data s))"
| response: "registry_step s (snd (handleInsertResponse txt en data s))"
| interjection: "registry_step s (snd (handleInsertInterjection txt en data s))"
| activity: "registry_step s (snd (handleUpdateActivity txt en data s))"
| devices: "registry_step s (s\<lparr> rs_presence := p \<rparr>)"

inductive_cases registry_stepE: "registry_step s s'"

definition listed :: "WorkspaceInfo list \<Rightarrow> (string \<times> string) multiset" where
  "listed ws = image_mset (\<lambda>(w, f). (w, fi_FlowID f)) (flat ws)"

definition active :: "ledger \<Rightarrow> (string \<times> string) multiset" where
  "active l = mset (map (\<lambda>r. (a_workspace_id r, a_flow_id r)) (active_flows l))"

definition synced :: "Service \<Rightarrow> bool" where
  "synced s \<longleftrightarrow> listed (pb_workspaces (rs_hb s)) = active (rs_db s)"

lemma synced_rebuild:
  assumes "reliable en" and "n < 3"
  shows "synced (rebuildWorkspaceSnapshot en n s)"
proof -
  have all: "filter (flow_matches all_flows) rs = rs" for rs by (simp add: flow_matches_def all_flows_def)
  have w: "weak_order newest_first" unfolding newest_first_def by (rule weak_order_key)
  let ?flows = "map scan_flow (en_sort_flows en newest_first (active_flows (rs_db s)))"
  have "mset (en_sort_flows en newest_first (active_flows (rs_db s))) = mset (active_flows (rs_db s))"
    using assms(1) sort_sliceD(1) [OF _ w] by (simp add: reliable_def)
  then have "mset (map (\<lambda>f. (af_WorkspaceID f, af_FlowID f)) ?flows) = active (rs_db s)"
    by (simp add: active_def scan_flow_def o_def)
  moreover have "flat (snapshot en ?flows) = mset (map (\<lambda>f. (af_WorkspaceID f, flow_info f)) ?flows)"
    using assms(1) by (intro flat_snapshot) (simp_all add: reliable_def)
  then have "listed (snapshot en ?flows) = mset (map (\<lambda>f. (af_WorkspaceID f, af_FlowID f)) ?flows)"
    by (simp add: listed_def image_mset.compositionality o_def flow_info_def)
  ultimately show ?thesis
    using assms by (simp add: synced_def rebuildWorkspaceSnapshot_def ListActiveFlows_def all reliable_def)
qed

lemma active_simps [simp]:
  "active (snd (InsertRequest ft wc r l)) = active l" "active (snd (InsertResponse fk ft p l)) = active l"
  "active (snd (InsertInterjection ft wc i l)) = active l" "active (snd (UpdateFlowActivity ft k t l)) = active l"
proof -
  show "active (snd (UpdateFlowActivity ft k t l)) = active l"
    unfolding active_def UpdateFlowActivity_def by (simp add: o_def if_distrib cong: if_cong)
qed (simp_all add: active_def InsertRequest_def InsertResponse_def InsertInterjection_def Let_def)

lemma synced_same: "synced s \<Longrightarrow> active (rs_db s') = active (rs_db s) \<Longrightarrow>
    pb_workspaces (rs_hb s') = pb_workspaces (rs_hb s) \<Longrightarrow> synced s'"
  by (simp add: synced_def)

lemma synced_message: "reliable en \<Longrightarrow> synced s \<Longrightarrow> synced (processMessage en subject data s)"
  by (auto simp: process_defs Let_def synced_rebuild split: option.split
      elim!: synced_same)

lemma reap_flow_db [simp]:
  "rs_db (reap_flow en n f s) = snd (TerminateFlow (en_faults en n) (af_FlowID f) FlowFailed (en_now en) (rs_db s))"
  by (simp add: reap_flow_def publishFailedLifecycle_def Let_def split: prod.split option.split)

lemma reap_ok [keeps]: "ledger_ok (rs_db s) \<Longrightarrow> ledger_ok (rs_db (reap_flows en n fs s))"
  by (induction fs arbitrary: n s) (simp_all add: keeps)

lemma reapOnce_ok [keeps]: "ledger_ok (rs_db s) \<Longrightarrow> ledger_ok (rs_db (reapOnce en s))"
  by (simp add: reapOnce_def Let_def keeps split: sum.split)

lemma synced_reap: "reliable en \<Longrightarrow> synced s \<Longrightarrow> synced (reapOnce en s)"
  by (auto simp: reapOnce_def Let_def synced_rebuild split: sum.split)

lemma write_endpoint_db: "P (rs_db s) \<Longrightarrow> (\<And>c. P (snd (op c (rs_db s)))) \<Longrightarrow>
    P (rs_db (snd (write_endpoint txt dec op data s)))"
  by (simp add: write_endpoint_def split: option.split)

lemma write_endpoint_hb: "rs_hb (snd (write_endpoint txt dec op data s)) = rs_hb s"
  by (simp add: write_endpoint_def split: option.split)

lemmas write_defs = handleInsertRequest_def handleInsertResponse_def handleInsertInterjection_def
  handleUpdateActivity_def

lemma write_synced: "synced s \<Longrightarrow> (\<And>c. active (snd (op c (rs_db s))) = active (rs_db s)) \<Longrightarrow>
    synced (snd (write_endpoint txt dec op data s))"
  by (simp add: write_endpoint_def synced_def split: option.split)

lemma step_keeps:
  "registry_step s s' \<Longrightarrow> synced s \<and> ledger_ok (rs_db s) \<Longrightarrow> synced s' \<and> ledger_ok (rs_db s')"
proof (induction rule: registry_step.induct)
  case (message en s subject data)
  then show ?case by (simp add: synced_message keeps)
next
  case (reap en s)
  then show ?case by (simp add: runReaper_tick_def synced_reap keeps)
next
  case (heartbeat s now ok)
  then show ?case by (simp add: synced_def hb_tick_def)
next
  case (request s e en data)
  then show ?case by (simp add: write_defs write_synced write_endpoint_db [where P = ledger_ok] keeps)
next
  case (response s e en data)
  then show ?case by (simp add: write_defs write_synced write_endpoint_db [where P = ledger_ok] keeps)
next
  case (interjection s e en data)
  then show ?case by (simp add: write_defs write_synced write_endpoint_db [where P = ledger_ok] keeps)
next
  case (activity s e en data)
  then show ?case by (simp add: write_defs write_synced write_endpoint_db [where P = ledger_ok] keeps)
next
  case (devices s p)
  then show ?case by (simp add: synced_def)
qed

lemma steps_keep:
  "rtranclp registry_step s s' \<Longrightarrow> synced s \<and> ledger_ok (rs_db s) \<Longrightarrow> synced s' \<and> ledger_ok (rs_db s')"
  by (induction rule: rtranclp_induct) (use step_keeps in blast)+

lemma subscribe_all_db: "subscribe_all ok subjs s = (b, s') \<Longrightarrow> rs_db s' = rs_db s"
  by (induction ok subjs s rule: subscribe_all.induct) (auto split: if_splits)


text \<open>A service whose heartbeat runs, just started, and after its first flow.\<close>

definition beating :: Service where
  "beating = a_service\<lparr> rs_hb := (rs_hb a_service)\<lparr> pb_running := True \<rparr> \<rparr>"

definition started :: Service where
  "started = snd (registry_Start True (\<lambda>_. True) calm calm beating)"

definition after_message :: Service where
  "after_message = processMessage calm ''flow.fl_1.lifecycle'' (Some (enc_ev a_start)) started"

lemma calm_reliable: "reliable calm"
  by (simp add: reliable_def calm_def sort_slice_insertion_sort permutes_def no_faults_def)

lemma subscribe_succeeds: "fst (subscribe_all (\<lambda>_. True) subjs s)"
  by (induction subjs arbitrary: s) simp_all

lemma Start_succeeds: "registry_Start True (\<lambda>_. True) en en' s = (True, snd (registry_Start True (\<lambda>_. True) en en' s))"
  using subscribe_succeeds by (auto simp: registry_Start_def split: prod.split bool.split) (metis fst_conv)

lemma a_start_decodes: "unmarshal dec_ev (Some (enc_ev a_start)) = Some a_start"
proof -
  have "dec_ev (enc_ev a_start) = Some (a_start\<lparr> ev_Metadata := norm_meta (ev_Metadata a_start) \<rparr>)"
    by (rule dec_enc_ev) (simp_all add: a_start_def four_digit_year_def meta_ok_def zero_ev_def)
  then show ?thesis by (simp add: unmarshal_def a_start_def zero_ev_def norm_meta_def)
qed

lemma started_db: "rs_db started = empty_ledger"
proof -
  obtain s' where "subscribe_all (\<lambda>_. True) (endpoint_subjects (rs_username beating)) (beating\<lparr> rs_running := True \<rparr>) = (True, s')"
    using subscribe_succeeds by (metis prod.collapse)
  moreover from this have "rs_db s' = empty_ledger" using subscribe_all_db by (fastforce simp: beating_def a_service_def)
  ultimately show ?thesis
    by (simp add: started_def registry_Start_def reapOnce_def ReapStaleFlows_def empty_ledger_def Let_def calm_def no_faults_def)
qed

lemma after_message_flows:
  obtains r where "active_flows (rs_db after_message) = [r]" "a_flow_id r = ''fl_1''" "a_last_activity r = rfc3339 (978307200 * second)"
proof -
  have "subjectSuffix ''flow.fl_1.lifecycle'' = ''lifecycle''" by (simp add: subjectSuffix_def)
  then have "rs_db after_message = rs_db (handleActive calm a_start started)"
    by (simp add: after_message_def processMessage_def processLifecycleEvent_def a_start_decodes keeps ack_def)
      (simp add: a_start_def)
  with that show ?thesis
    by (simp add: handleActive_def started_db RegisterFlow_def insert_flow_row_def Let_def calm_def no_faults_def
        empty_ledger_def event_flow_def) (simp add: a_start_def)
qed

text \<open>What never changes in a heartbeat publisher.\<close>

definition hb_id :: "Service \<Rightarrow> bool \<times> string \<times> string" where
  "hb_id s = (pb_running (rs_hb s), pb_username (rs_hb s), pb_daemonID (rs_hb s))"

lemma rebuild_hb_id: "hb_id (rebuildWorkspaceSnapshot en n s) = hb_id s"
  by (simp add: hb_id_def rebuildWorkspaceSnapshot_def SetWorkspaces_def split: sum.split)

lemma subscribe_all_hb: "subscribe_all ok subjs s = (b, s') \<Longrightarrow> rs_hb s' = rs_hb s"
  by (induction ok subjs s rule: subscribe_all.induct) (auto split: if_splits)

lemma started_hb_id: "hb_id started = (True, ''alice'', ''dn_1'')"
proof -
  obtain s' where sub: "subscribe_all (\<lambda>_. True) (endpoint_subjects (rs_username beating)) (beating\<lparr> rs_running := True \<rparr>) = (True, s')"
    using subscribe_succeeds by (metis prod.collapse)
  then have "rs_db s' = empty_ledger" using subscribe_all_db by (fastforce simp: beating_def a_service_def)
  then have "reapOnce calm s' = s'"
    by (simp add: reapOnce_def ReapStaleFlows_def empty_ledger_def Let_def calm_def no_faults_def)
  then have "hb_id started = hb_id s'" using sub by (simp add: started_def registry_Start_def rebuild_hb_id)
  then show ?thesis using subscribe_all_hb [OF sub]
    by (simp add: hb_id_def beating_def a_service_def new_publisher_def)
qed

lemma after_message_hb_id: "hb_id after_message = (True, ''alice'', ''dn_1'')"
proof -
  have "hb_id after_message = hb_id (ack ''flow.fl_1.lifecycle'' (handleActive calm a_start started))"
    by (simp add: after_message_def processMessage_def subjectSuffix_def processLifecycleEvent_def a_start_decodes rebuild_hb_id)
      (simp add: a_start_def)
  also have "\<dots> = hb_id started" by (simp add: hb_id_def ack_def handleActive_def split: prod.split)
  finally show ?thesis by (simp add: started_hb_id)
qed

lemma after_message_hb:
  "list_all (\<lambda>w. list_all (\<lambda>f. four_digit_year (fi_LastActivity f)) (wi_ActiveFlows w)) (pb_workspaces (rs_hb after_message))"
  "pb_running (rs_hb after_message)" "pb_username (rs_hb after_message) = ''alice''" "pb_daemonID (rs_hb after_message) = ''dn_1''"
proof -
  obtain r where r: "active_flows (rs_db after_message) = [r]" "a_last_activity r = rfc3339 (978307200 * second)"
    by (rule after_message_flows)
  have t: "parse_or_zero (rfc3339 (978307200 * second)) = 978307200 * second"
    using parse_rfc3339_rfc3339 [of "978307200 * second"] by (simp add: parse_or_zero_def four_digit_year_def)
  have "four_digit_year (af_LastActivity (scan_flow r))" unfolding scan_flow_def using r(2) t by (simp add: four_digit_year_def)
  moreover have "\<exists>s. after_message = rebuildWorkspaceSnapshot calm 2 s"
    by (simp add: after_message_def processMessage_def subjectSuffix_def processLifecycleEvent_def a_start_decodes) blast
  then obtain s where s: "after_message = rebuildWorkspaceSnapshot calm 2 s" by blast
  have "active_flows (rs_db s) = [r]" using r(1) unfolding s by simp
  then have "pb_workspaces (rs_hb after_message) = snapshot calm [scan_flow r]"
    by (simp add: s rebuildWorkspaceSnapshot_def ListActiveFlows_def calm_def no_faults_def flow_matches_def all_flows_def)
  ultimately show "list_all (\<lambda>w. list_all (\<lambda>f. four_digit_year (fi_LastActivity f)) (wi_ActiveFlows w)) (pb_workspaces (rs_hb after_message))"
    by (simp add: snapshot_def add_flow_def workspace_info_def flow_info_def calm_def gm_set_def)
  show "pb_running (rs_hb after_message)" "pb_username (rs_hb after_message) = ''alice''" "pb_daemonID (rs_hb after_message) = ''dn_1''"
    using after_message_hb_id by (simp_all add: hb_id_def)
qed


section \<open>The reaper and its own messages\<close>

text \<open>A flow that is gone and whose event at that second is in the log.\<close>

definition closed_out :: "ledger \<Rightarrow> string \<Rightarrow> time \<Rightarrow> bool" where
  "closed_out l i t \<longleftrightarrow> i \<notin> a_flow_id ` set (active_flows l)
     \<and> (i, rfc3339 t) \<in> (\<lambda>e. (e_flow_id e, e_timestamp e)) ` set (flow_lifecycle_events l)"

lemma closed_out_gone: "closed_out l i t \<Longrightarrow> r \<in> set (active_flows l) \<Longrightarrow> a_flow_id r \<noteq> i"
  unfolding closed_out_def by blast

lemma closed_out_noop:
  assumes "closed_out l i t"
  shows "snd (TerminateFlow ft i status t l) = l"
proof -
  let ?ev = "terminal_event i status t (find (\<lambda>r. a_flow_id r = i) (active_flows l))"
  have "e_flow_id ?ev = i" "e_timestamp ?ev = rfc3339 t"
    by (simp_all add: terminal_event_def split: option.split)
  with assms have "insert_event_row ?ev (flow_lifecycle_events l) = flow_lifecycle_events l"
    by (intro events.ins_old) (simp add: closed_out_def)
  moreover have "filter (\<lambda>r. a_flow_id r \<noteq> i) (active_flows l) = active_flows l"
    using closed_out_gone [OF assms] by (intro filter_True) blast
  ultimately show ?thesis by (simp add: TerminateFlow_def Let_def)
qed

lemma closed_out_keeps: "closed_out l i t \<Longrightarrow> closed_out (snd (TerminateFlow ft k status t' l)) i t"
proof -
  assume c: "closed_out l i t"
  then obtain e where "e \<in> set (flow_lifecycle_events l)" "(i, rfc3339 t) = (e_flow_id e, e_timestamp e)"
    by (auto simp: closed_out_def)
  then have "(i, rfc3339 t) \<in> (\<lambda>e. (e_flow_id e, e_timestamp e)) ` set (insert_event_row ev (flow_lifecycle_events l))" for ev
    using events.ins_keeps [of e "flow_lifecycle_events l" ev] by auto
  with c show ?thesis by (auto simp: closed_out_def TerminateFlow_def Let_def)
qed

lemma terminate_closes:
  assumes "fst (TerminateFlow ft i FlowFailed t l) = None"
  shows "closed_out (snd (TerminateFlow ft i FlowFailed t l)) i t"
proof -
  let ?ev = "terminal_event i FlowFailed t (find (\<lambda>r. a_flow_id r = i) (active_flows l))"
  have ev: "e_flow_id ?ev = i" "e_timestamp ?ev = rfc3339 t" "event_ok ?ev"
    by (simp_all add: terminal_event_def event_ok_def enum_defs split: option.split)
  from events.ins_present [OF ev(3)] ev(1,2)
  have "(i, rfc3339 t) \<in> (\<lambda>e. (e_flow_id e, e_timestamp e)) ` set (insert_event_row ?ev (flow_lifecycle_events l))"
    by simp
  with assms show ?thesis by (auto simp: closed_out_def TerminateFlow_def Let_def split: if_splits)
qed

definition announced :: "env \<Rightarrow> Service \<Rightarrow> string \<times> FlowLifecycleEvent \<times> string \<Rightarrow> bool" where
  "announced en s m \<longleftrightarrow> (\<exists>f. m = (FlowLifecycleSubject (rs_username s) (af_FlowID f), failed_event f (en_now en),
       af_FlowID f @ ''-reaped'') \<and> four_digit_year (en_now en) \<and> closed_out (rs_db s) (af_FlowID f) (en_now en))"

lemma announced_step:
  assumes "announced en s m"
  shows "announced en (reap_flow en n f s) m"
proof -
  have "rs_username (reap_flow en n f s) = rs_username s"
    by (simp add: reap_flow_def publishFailedLifecycle_def Let_def split: prod.split option.split)
  with assms show ?thesis by (auto simp: announced_def closed_out_keeps)
qed

lemma reap_flow_announces:
  "m \<in> set (rs_published (reap_flow en n f s)) - set (rs_published s) \<Longrightarrow> announced en (reap_flow en n f s) m"
proof -
  assume m: "m \<in> set (rs_published (reap_flow en n f s)) - set (rs_published s)"
  then have ok: "fst (TerminateFlow (en_faults en n) (af_FlowID f) FlowFailed (en_now en) (rs_db s)) = None"
    and new: "m = (FlowLifecycleSubject (rs_username s) (af_FlowID f), failed_event f (en_now en), af_FlowID f @ ''-reaped'')"
      "four_digit_year (en_now en)"
    by (auto simp: reap_flow_def publishFailedLifecycle_def Let_def split: prod.splits option.splits if_splits)
  have "rs_username (reap_flow en n f s) = rs_username s"
    by (simp add: reap_flow_def publishFailedLifecycle_def Let_def split: prod.split option.split)
  with terminate_closes [OF ok] new show ?thesis by (auto simp: announced_def)
qed

lemma reap_flows_announced:
  "(\<forall>m \<in> set (rs_published s) - P. announced en s m) \<Longrightarrow>
   \<forall>m \<in> set (rs_published (reap_flows en n fs s)) - P. announced en (reap_flows en n fs s) m"
proof (induction fs arbitrary: n s)
  case (Cons f fs)
  have "announced en (reap_flow en n f s) m" if "m \<in> set (rs_published (reap_flow en n f s)) - P" for m
  proof (cases "m \<in> set (rs_published s)")
    case True
    with Cons.prems that show ?thesis by (intro announced_step) blast
  next
    case False
    with that show ?thesis by (intro reap_flow_announces) blast
  qed
  then show ?case using Cons.IH by simp
qed simp

lemma suffix_append: "CHR ''.'' \<notin> set t \<Longrightarrow> subjectSuffix (p @ CHR ''.'' # t) = t"
  by (simp add: subjectSuffix_def last_index_byte_append)

lemma lifecycle_suffix: "subjectSuffix (FlowLifecycleSubject u x) = ''lifecycle''"
proof -
  define p where "p = ''resystems.renotify.'' @ u @ ''.flow.'' @ x"
  have "FlowLifecycleSubject u x = p @ CHR ''.'' # ''lifecycle''"
    by (simp add: FlowLifecycleSubject_def p_def)
  then show ?thesis using suffix_append [of "''lifecycle''" p] by simp
qed


definition idle_service :: Service where
  "idle_service = a_service\<lparr> rs_db := snd (RegisterFlow no_faults a_flow empty_ledger) \<rparr>"

definition later_env :: env where
  "later_env = calm\<lparr> en_query_now := 978308400 * second, en_now := 978308400 * second \<rparr>"

lemma idle_flow:
  obtains r where "active_flows (rs_db idle_service) = [r]" "a_flow_id r = ''fl_1''"
    "a_last_activity r = rfc3339 (978307200 * second)"
  by (simp add: idle_service_def RegisterFlow_def no_faults_def insert_flow_row_def empty_ledger_def a_flow_def Let_def)

lemma idle_reaped:
  "\<exists>ev. (FlowLifecycleSubject ''alice'' ''fl_1'', ev, ''fl_1-reaped'') \<in> set (rs_published (reapOnce later_env idle_service))
     \<and> ev_FlowID ev = ''fl_1''"
proof (rule idle_flow)
  fix r assume r: "active_flows (rs_db idle_service) = [r]" "a_flow_id r = ''fl_1''"
    "a_last_activity r = rfc3339 (978307200 * second)"
  have "rfc3339 (978307200 * second) < rfc3339 (978308400 * second - 15 * minute)"
    by (subst rfc3339_less(1)) (simp_all add: four_digit_year_def)
  then have stale: "ReapStaleFlows (en_faults later_env 0) (en_query_now later_env) (rs_grace idle_service) (rs_db idle_service)
      = Inr [scan_flow r]"
    using r by (simp add: ReapStaleFlows_def later_env_def calm_def no_faults_def idle_service_def a_service_def)
  have "four_digit_year (978308400 * second)" by (simp add: four_digit_year_def)
  moreover obtain db where "TerminateFlow no_faults ''fl_1'' FlowFailed (978308400 * second) (rs_db idle_service) = (None, db)"
    by (simp add: TerminateFlow_def no_faults_def Let_def)
  moreover have "af_FlowID (scan_flow r) = ''fl_1''" by (simp add: scan_flow_def r)
  moreover have "en_faults later_env 3 = no_faults" "en_now later_env = 978308400 * second" "en_js_ok later_env x"
    "rs_username idle_service = ''alice''" "rs_published idle_service = []" for x
    by (simp_all add: later_env_def calm_def idle_service_def a_service_def)
  ultimately have "rs_published (reapOnce later_env idle_service)
      = [(FlowLifecycleSubject ''alice'' ''fl_1'', failed_event (scan_flow r) (978308400 * second), ''fl_1-reaped'')]"
    by (simp add: reapOnce_def stale Let_def reap_flow_def publishFailedLifecycle_def)
  then show ?thesis by (simp add: failed_event_def scan_flow_def r)
qed


section \<open>Endpoints\<close>

text \<open>A flow as a client of the daemon sees it, the filter its query asks for, and rows that can be sent.\<close>

definition client_entry :: "flow_row \<Rightarrow> FlowEntry" where
  "client_entry r = (flow_entry (scan_flow r))\<lparr> fe_Metadata := norm_meta (unmarshalMetadata (a_metadata r)) \<rparr>"

definition flow_filter :: "FlowsQuery \<Rightarrow> ActiveFlowsQuery" where
  "flow_filter q = \<lparr> afq_FlowID = fq_FlowID q, afq_DaemonID = fq_DaemonID q, afq_WorkspaceID = fq_WorkspaceID q \<rparr>"

definition rows_ok :: "ledger \<Rightarrow> bool" where
  "rows_ok l \<longleftrightarrow> (\<forall>r \<in> set (active_flows l). four_digit_year (parse_or_zero (a_registered_at r))
     \<and> four_digit_year (parse_or_zero (a_last_activity r)) \<and> meta_ok (unmarshalMetadata (a_metadata r)))"

lemma sorted_rows:
  assumes "sort_slice srt"
  shows "mset (srt newest_first rows) = mset rows" and "set (srt newest_first rows) = set rows"
proof -
  have w: "weak_order newest_first" unfolding newest_first_def by (rule weak_order_key)
  show "mset (srt newest_first rows) = mset rows" "set (srt newest_first rows) = set rows"
    by (rule sort_sliceD(1) [OF assms w], rule sort_sliceD(3) [OF assms w])
qed

lemma flows_reply_decoded:
  assumes "sort_slice (en_sort_flows en)" and "\<not> en_faults en 0 0" and "rows_ok (rs_db s)"
  shows "unmarshal dec_fr (handleFlowsQuery en (Some (Some (enc_fq q))) s)
     = Some \<lparr> fr_Flows = map client_entry (en_sort_flows en newest_first
                (filter (flow_matches (flow_filter q)) (active_flows (rs_db s)))) \<rparr>"
proof -
  let ?rows = "en_sort_flows en newest_first (filter (flow_matches (flow_filter q)) (active_flows (rs_db s)))"
  let ?entries = "map (\<lambda>r. flow_entry (scan_flow r)) ?rows"
  have sub: "set ?rows \<subseteq> set (active_flows (rs_db s))" by (simp add: sorted_rows(2) [OF assms(1)])
  have fields: "fe_RegisteredAt (flow_entry (scan_flow r)) = parse_or_zero (a_registered_at r)"
    "fe_LastActivity (flow_entry (scan_flow r)) = parse_or_zero (a_last_activity r)"
    "fe_Metadata (flow_entry (scan_flow r)) = unmarshalMetadata (a_metadata r)" for r
    by (simp_all add: flow_entry_def scan_flow_def)
  have ok: "flow_times_ok ?entries" "list_all (\<lambda>f. meta_ok (fe_Metadata f)) ?entries"
    using sub assms(3) by (auto simp: flow_times_ok_def list_all_iff fields rows_ok_def)
  have "handleFlowsQuery en (Some (Some (enc_fq q))) s = Some (enc_fr \<lparr> fr_Flows = ?entries \<rparr>)"
    using assms(2) ok(1)
    by (simp add: handleFlowsQuery_def query_body_def unmarshal_def dec_enc_fq ListActiveFlows_def Let_def
        marshal_def or_else_def o_def flow_filter_def)
  then show ?thesis
    using dec_enc_fr [of "\<lparr> fr_Flows = ?entries \<rparr>"] ok by (simp add: unmarshal_def client_entry_def fields)
qed

text \<open>
  The flow query. When listing works, the reply to a client's query decodes, with
  the client's decoder, to exactly the active flows that match the query (metadata as a map again);
  to an empty query the daemon lists them all; data that do not decode get the empty list.
\<close>

theorem flows_query_reply:
  assumes "sort_slice (en_sort_flows en)" and "\<not> en_faults en 0 0"
    and "\<forall>r \<in> set (active_flows (rs_db s)). four_digit_year (parse_or_zero (a_registered_at r))
           \<and> four_digit_year (parse_or_zero (a_last_activity r)) \<and> meta_ok (unmarshalMetadata (a_metadata r))"
  shows "\<exists>flows. Option.bind (handleFlowsQuery en (Some (Some (enc_fq q))) s) dec_fr = Some \<lparr> fr_Flows = flows \<rparr>
      \<and> mset flows = mset (map (\<lambda>r. (flow_entry (scan_flow r))\<lparr> fe_Metadata := norm_meta (unmarshalMetadata (a_metadata r)) \<rparr>)
          (filter (flow_matches \<lparr> afq_FlowID = fq_FlowID q, afq_DaemonID = fq_DaemonID q, afq_WorkspaceID = fq_WorkspaceID q \<rparr>)
             (active_flows (rs_db s))))
      \<and> handleFlowsQuery en None s = handleFlowsQuery en (Some (Some (enc_fq zero_fq))) s
      \<and> handleFlowsQuery en (Some None) s = Some (JObj [(''flows'', JArr [])])"
proof -
  let ?rows = "filter (flow_matches (flow_filter q)) (active_flows (rs_db s))"
  have "rows_ok (rs_db s)" using assms(3) by (simp add: rows_ok_def)
  from flows_reply_decoded [OF assms(1,2) this, of q]
  have "Option.bind (handleFlowsQuery en (Some (Some (enc_fq q))) s) dec_fr
      = Some \<lparr> fr_Flows = map client_entry (en_sort_flows en newest_first ?rows) \<rparr>" by (simp add: unmarshal_def)
  moreover have "mset (map client_entry (en_sort_flows en newest_first ?rows)) = mset (map client_entry ?rows)"
    by (simp only: mset_map sorted_rows(1) [OF assms(1)])
  moreover have "handleFlowsQuery en None s = handleFlowsQuery en (Some (Some (enc_fq zero_fq))) s"
    by (simp add: handleFlowsQuery_def query_body_def unmarshal_def dec_enc_fq)
  moreover have "handleFlowsQuery en (Some None) s = Some (JObj [(''flows'', JArr [])])"
    by (simp add: handleFlowsQuery_def query_body_def unmarshal_def Let_def)
  ultimately show ?thesis unfolding client_entry_def flow_filter_def by auto
qed

theorem flows_query_reply_witness:
  "\<exists>flows. Option.bind (handleFlowsQuery calm (Some (Some (enc_fq zero_fq))) idle_service) dec_fr = Some \<lparr> fr_Flows = flows \<rparr>
      \<and> length flows = 1"
proof -
  have t: "parse_or_zero (rfc3339 (978307200 * second)) = 978307200 * second"
    using parse_rfc3339_rfc3339 [of "978307200 * second"] by (simp add: parse_or_zero_def four_digit_year_def)
  obtain r where r: "active_flows (rs_db idle_service) = [r]" "a_registered_at r = rfc3339 (978307200 * second)"
    "a_last_activity r = rfc3339 (978307200 * second)" "a_metadata r = None"
    by (simp add: idle_service_def RegisterFlow_def no_faults_def insert_flow_row_def empty_ledger_def a_flow_def
        Let_def marshalMetadata_def)
  have "four_digit_year (978307200 * second)" by (simp add: four_digit_year_def)
  then have "four_digit_year (parse_or_zero (a_registered_at r))" "four_digit_year (parse_or_zero (a_last_activity r))"
    unfolding r t by -
  moreover have "meta_ok (unmarshalMetadata (a_metadata r))" by (simp add: r unmarshalMetadata_def meta_ok_def)
  ultimately have "\<forall>r \<in> set (active_flows (rs_db idle_service)). four_digit_year (parse_or_zero (a_registered_at r))
           \<and> four_digit_year (parse_or_zero (a_last_activity r)) \<and> meta_ok (unmarshalMetadata (a_metadata r))"
    by (simp add: r(1))
  moreover have "sort_slice (en_sort_flows calm)" "\<not> en_faults calm 0 0"
    by (simp_all add: calm_def sort_slice_insertion_sort no_faults_def)
  ultimately obtain flows where "Option.bind (handleFlowsQuery calm (Some (Some (enc_fq zero_fq))) idle_service) dec_fr = Some \<lparr> fr_Flows = flows \<rparr>"
    and ms: "mset flows = mset (map (\<lambda>r. (flow_entry (scan_flow r))\<lparr> fe_Metadata := norm_meta (unmarshalMetadata (a_metadata r)) \<rparr>)
          (filter (flow_matches \<lparr> afq_FlowID = fq_FlowID zero_fq, afq_DaemonID = fq_DaemonID zero_fq, afq_WorkspaceID = fq_WorkspaceID zero_fq \<rparr>)
             (active_flows (rs_db idle_service))))"
    using flows_query_reply [of calm idle_service zero_fq] by blast
  moreover have "length flows = 1" using mset_eq_length [OF ms] by (simp add: r flow_matches_def zero_fq_def)
  ultimately show ?thesis by blast
qed

text \<open>The write endpoints confirm a command whose statement failed: the error is dropped.\<close>

lemma write_endpoint_ignores_errors:
  assumes "en_faults en 0 0" and "four_digit_year (nr_Timestamp (irc_Request cmd))"
    and "int64 (nr_TimeoutSec (irc_Request cmd))"
  shows "handleInsertRequest txt en (Some (enc_irc cmd)) s = (Some okResult, s)"
  using dec_enc_irc [OF assms(2,3)] assms(1)
  by (simp add: handleInsertRequest_def write_endpoint_def unmarshal_def InsertRequest_def)

end
