(* ===== verification/Migrate.thy ===== *)
theory Migrate
  imports Prelude
begin

text \<open>
  Schema migration of the ledger database (ledger.go: \<^verbatim>\<open>Open\<close>, \<^verbatim>\<open>migrate\<close>) and its wrapper as a
  daemon subsystem (ledger/subsystem.go): the schema as the set of tables and columns it has,
  each migration one transaction, with a fault at any statement.
\<close>

section \<open>Definitions\<close>

text \<open>
  A database file: its user version, whether the tables of version 1 exist, and the columns the
  later versions add. Adding a column twice is an error of SQLite, as is altering a table that
  is not there.
\<close>

record database =
  user_version :: nat
  v1_tables :: bool
  v2_columns :: bool
  v3_columns :: bool

definition new_database :: database where
  "new_database = \<lparr> user_version = 0, v1_tables = False, v2_columns = False, v3_columns = False \<rparr>"

type_synonym stmt_faults = "nat \<Rightarrow> bool"

datatype open_error =
    Mkdir | Open_driver | Pragma | ReadVersion
  | BeginTx nat | ApplySchema nat | SetVersion nat | CommitTx nat

definition exec_schema :: "nat \<Rightarrow> database \<Rightarrow> database option" where
  "exec_schema v d =
     (if v = 1 then Some (d\<lparr> v1_tables := True \<rparr>)
      else if v = 2 then (if \<not> v1_tables d \<or> v2_columns d then None else Some (d\<lparr> v2_columns := True \<rparr>))
      else (if \<not> v1_tables d \<or> v3_columns d then None else Some (d\<lparr> v3_columns := True \<rparr>)))"

text \<open>One migration block: begin, schema, version, commit; statements \<open>4 v\<close> to \<open>4 v + 3\<close>.\<close>

definition migrate_to :: "stmt_faults \<Rightarrow> nat \<Rightarrow> database \<Rightarrow> open_error option \<times> database" where
  "migrate_to ft v d =
     (if ft (4 * v) then (Some (BeginTx v), d)
      else case (if ft (4 * v + 1) then None else exec_schema v d) of
        None \<Rightarrow> (Some (ApplySchema v), d)
      | Some d1 \<Rightarrow>
          if ft (4 * v + 2) then (Some (SetVersion v), d)
          else if ft (4 * v + 3) then (Some (CommitTx v), d)
          else (None, d1\<lparr> user_version := v \<rparr>))"

text \<open>
  The local \<^verbatim>\<open>version\<close> is raised after the first block only; the later tests read the value
  found at the start (or 1).
\<close>

definition migrate :: "stmt_faults \<Rightarrow> database \<Rightarrow> open_error option \<times> database" where
  "migrate ft d =
     (if ft 0 then (Some ReadVersion, d)
      else let version = user_version d in
      case (if version < 1 then migrate_to ft 1 d else (None, d)) of
        (Some err, d1) \<Rightarrow> (Some err, d1)
      | (None, d1) \<Rightarrow>
          let version = (if version < 1 then 1 else version) in
          case (if version < 2 then migrate_to ft 2 d1 else (None, d1)) of
            (Some err, d2) \<Rightarrow> (Some err, d2)
          | (None, d2) \<Rightarrow> (if version < 3 then migrate_to ft 3 d2 else (None, d2)))"

text \<open>\<^verbatim>\<open>Open\<close>: directory, driver, the three pragmas, migrations; \<open>pre\<close> are the faults of the former.\<close>

definition Open :: "stmt_faults \<Rightarrow> stmt_faults \<Rightarrow> database \<Rightarrow> open_error option \<times> database" where
  "Open pre ft d =
     (if pre 0 then (Some Mkdir, d)
      else if pre 1 then (Some Open_driver, d)
      else if pre 2 \<or> pre 3 \<or> pre 4 then (Some Pragma, d)
      else migrate ft d)"

text \<open>The subsystem around it: the handle is kept only when opening succeeded.\<close>

record ledger_subsystem =
  ls_open :: bool
  ls_ready :: "open_error option list"
  ls_closed :: bool

definition new_ledger_subsystem :: ledger_subsystem where
  "new_ledger_subsystem = \<lparr> ls_open = False, ls_ready = [], ls_closed = False \<rparr>"

text \<open>\<open>ls_ready\<close> are the values sent on the readiness channel, which \<^verbatim>\<open>Start\<close> then closes.\<close>

definition ledger_Start ::
    "stmt_faults \<Rightarrow> stmt_faults \<Rightarrow> database \<Rightarrow> ledger_subsystem \<Rightarrow> open_error option \<times> database \<times> ledger_subsystem" where
  "ledger_Start pre ft d s =
     (case Open pre ft d of
        (Some err, d') \<Rightarrow> (Some err, d', s\<lparr> ls_ready := ls_ready s @ [Some err] \<rparr>)
      | (None, d') \<Rightarrow> (None, d', s\<lparr> ls_open := True \<rparr>))"

definition ledger_Stop :: "ledger_subsystem \<Rightarrow> ledger_subsystem" where
  "ledger_Stop s = (if \<not> ls_open s then s else s\<lparr> ls_closed := True \<rparr>)"

section \<open>Consistent databases\<close>

definition schema_ok :: "database \<Rightarrow> bool" where
  "schema_ok d \<longleftrightarrow> user_version d \<le> 3 \<and> v1_tables d = (1 \<le> user_version d)
     \<and> v2_columns d = (2 \<le> user_version d) \<and> v3_columns d = (3 \<le> user_version d)"

lemma migrate_to_ok:
  "schema_ok d \<Longrightarrow> user_version d = v - 1 \<Longrightarrow> 1 \<le> v \<Longrightarrow> v \<le> 3 \<Longrightarrow> migrate_to ft v d = (err, d') \<Longrightarrow>
     schema_ok d' \<and> user_version d' = (if err = None then v else v - 1)
       \<and> ((\<forall>k. \<not> ft k) \<longrightarrow> err = None)"
  by (auto simp: migrate_to_def exec_schema_def schema_ok_def split: if_splits)

lemma migrate_ok:
  assumes "schema_ok d" and "migrate ft d = (err, d')"
  shows "schema_ok d' \<and> user_version d \<le> user_version d' \<and> (err = None \<longrightarrow> user_version d' = 3)
    \<and> ((\<forall>k. \<not> ft k) \<longrightarrow> err = None)"
proof (cases "ft 0")
  case True
  with assms show ?thesis by (auto simp: migrate_def)
next
  case False
  obtain e1 d1 where 1: "(if user_version d < 1 then migrate_to ft 1 d else (None, d)) = (e1, d1)" by force
  let ?v = "if user_version d < 1 then 1 else user_version d"
  obtain e2 d2 where 2: "(if ?v < 2 then migrate_to ft 2 d1 else (None, d1)) = (e2, d2)" by force
  obtain e3 d3 where 3: "(if ?v < 3 then migrate_to ft 3 d2 else (None, d2)) = (e3, d3)" by force
  have "migrate ft d = (case e1 of Some e \<Rightarrow> (Some e, d1) | None \<Rightarrow>
      (case e2 of Some e \<Rightarrow> (Some e, d2) | None \<Rightarrow> (e3, d3)))"
    using False by (cases e1; cases e2)
      (simp_all only: migrate_def Let_def if_False 1 2 3 prod.case option.case simp_thms)
  with assms(2) have r: "(err, d') = (case e1 of Some e \<Rightarrow> (Some e, d1) | None \<Rightarrow>
      (case e2 of Some e \<Rightarrow> (Some e, d2) | None \<Rightarrow> (e3, d3)))" by simp
  have s1: "schema_ok d1 \<and> user_version d \<le> user_version d1
      \<and> (e1 = None \<longrightarrow> user_version d1 = ?v) \<and> ((\<forall>k. \<not> ft k) \<longrightarrow> e1 = None)"
    using 1 assms(1) migrate_to_ok [of d 1 ft e1 d1] by (auto split: if_splits)
  have s2: "e1 = None \<Longrightarrow> schema_ok d2 \<and> user_version d \<le> user_version d2
      \<and> (e2 = None \<longrightarrow> user_version d2 = max 2 ?v) \<and> ((\<forall>k. \<not> ft k) \<longrightarrow> e2 = None)"
    using 2 s1 migrate_to_ok [of d1 2 ft e2 d2] by (auto split: if_splits)
  have s3: "e1 = None \<Longrightarrow> e2 = None \<Longrightarrow> schema_ok d3 \<and> user_version d \<le> user_version d3
      \<and> (e3 = None \<longrightarrow> user_version d3 = 3) \<and> ((\<forall>k. \<not> ft k) \<longrightarrow> e3 = None)"
    using 3 s2 assms(1) migrate_to_ok [of d2 3 ft e3 d3] by (auto simp: schema_ok_def split: if_splits)
  show ?thesis using r s1 s2 s3 by (auto split: option.splits)
qed

section \<open>Properties\<close>

text \<open>
  C19 (invariant): migration can be interrupted and resumed. Starting from a fresh file, after any
  number of attempts to open the ledger, each failing at any statement, the schema matches the
  recorded version (no column is added twice or lost); an attempt that succeeds leaves version
  3, and an attempt without faults succeeds.
\<close>

theorem migration_resumable:
  "(let d = fold (\<lambda>(pre, ft) d. snd (Open pre ft d)) attempts new_database in
      schema_ok d
    \<and> (case Open pre ft d of (err, d') \<Rightarrow> schema_ok d' \<and> user_version d \<le> user_version d'
         \<and> (if err = None then user_version d' = 3 else \<exists>k. pre k \<or> ft k)))"
proof -
  have step: "schema_ok d' \<and> user_version d \<le> user_version d'
      \<and> (if err = None then user_version d' = 3 else \<exists>k. pre k \<or> ft k)"
    if "schema_ok d" "Open pre ft d = (err, d')" for d d' err pre ft
    using that migrate_ok [of d ft err d'] by (auto simp: Open_def split: if_splits)
  have "schema_ok d \<Longrightarrow> schema_ok (fold (\<lambda>(pre, ft) d. snd (Open pre ft d)) attempts d)" for d
  proof (induction attempts arbitrary: d)
    case (Cons a attempts)
    obtain pre ft where "a = (pre, ft)" by force
    with Cons step [OF Cons.prems, of pre ft] show ?case by (cases "Open pre ft d") simp
  qed simp
  moreover have "schema_ok new_database" by (simp add: schema_ok_def new_database_def)
  ultimately have "schema_ok (fold (\<lambda>(pre, ft) d. snd (Open pre ft d)) attempts new_database)" by blast
  with step [OF this] show ?thesis
    unfolding Let_def by (auto simp only: prod.case split: prod.splits)
qed

end
