(* ===== verification/McpStores.thy ===== *)
theory McpStores
  imports Payload
begin

text \<open>
  The in-memory stores of package mcpserver (cli/internal/mcpserver): decisions.go,
  interjections.go, the subscriber map of subscriber.go and the debounce map of interject.go. A
  channel of empty structs is a number in a heap that knows which channels are closed; closing
  a closed channel panics.
\<close>

section \<open>Panics and channels\<close>

datatype 'a outcome = Ret 'a | Panic

fun and_then :: "'a outcome \<Rightarrow> ('a \<Rightarrow> 'b outcome) \<Rightarrow> 'b outcome" where
  "and_then (Ret a) f = f a"
| "and_then Panic f = Panic"

lemma and_then_Ret [simp]: "and_then x f = Ret b \<longleftrightarrow> (\<exists>a. x = Ret a \<and> f a = Ret b)"
  by (cases x) auto

record chan_heap =
  ch_next :: nat
  ch_closed :: "nat list"

definition no_chans :: chan_heap where
  "no_chans = \<lparr> ch_next = 0, ch_closed = [] \<rparr>"

definition make_chan :: "chan_heap \<Rightarrow> nat \<times> chan_heap" where
  "make_chan h = (ch_next h, h\<lparr> ch_next := Suc (ch_next h) \<rparr>)"

definition close_chan :: "nat \<Rightarrow> chan_heap \<Rightarrow> chan_heap outcome" where
  "close_chan c h = (if c \<in> set (ch_closed h) then Panic else Ret (h\<lparr> ch_closed := c # ch_closed h \<rparr>))"

definition is_closed :: "nat \<Rightarrow> chan_heap \<Rightarrow> bool" where
  "is_closed c h = (c \<in> set (ch_closed h))"

section \<open>Decisions\<close>

record DecisionResource =
  dr_RequestID :: string
  dr_Decided :: bool
  dr_Accepted :: "bool option"
  dr_Action :: string
  dr_Text :: string
  dr_Timestamp :: time

record DecisionStore =
  ds_resources :: "(string, DecisionResource) gomap"
  ds_resolved :: "(string, nat) gomap"
  ds_chans :: chan_heap

definition NewDecisionStore :: DecisionStore where
  "NewDecisionStore = \<lparr> ds_resources = [], ds_resolved = [], ds_chans = no_chans \<rparr>"

definition pending :: "string \<Rightarrow> time \<Rightarrow> DecisionResource" where
  "pending nid ts = \<lparr> dr_RequestID = nid, dr_Decided = False, dr_Accepted = None, dr_Action = '''',
     dr_Text = '''', dr_Timestamp = ts \<rparr>"

definition Register_decision :: "string \<Rightarrow> time \<Rightarrow> DecisionStore \<Rightarrow> DecisionStore" where
  "Register_decision nid ts d =
     (let (c, h) = make_chan (ds_chans d) in
      \<lparr> ds_resources = gm_set nid (pending nid ts) (ds_resources d),
        ds_resolved = gm_set nid c (ds_resolved d), ds_chans = h \<rparr>)"

text \<open>What both resolvers do once the resource is found: update it, close its channel.\<close>

definition decide :: "string \<Rightarrow> DecisionResource \<Rightarrow> DecisionStore \<Rightarrow> DecisionStore outcome" where
  "decide nid r d =
     (let d = d\<lparr> ds_resources := gm_set nid r (ds_resources d) \<rparr> in
      case gm_get (ds_resolved d) nid of
        None \<Rightarrow> Ret d
      | Some ch \<Rightarrow> and_then (close_chan ch (ds_chans d)) (\<lambda>h. Ret (d\<lparr> ds_chans := h \<rparr>)))"

definition answered :: "NotificationResponse \<Rightarrow> DecisionResource \<Rightarrow> DecisionResource" where
  "answered resp r = r\<lparr> dr_Decided := True, dr_Accepted := resp_Accepted resp, dr_Action := resp_Action resp,
     dr_Text := resp_Text resp, dr_Timestamp := resp_Timestamp resp \<rparr>"

definition Resolve :: "string \<Rightarrow> NotificationResponse \<Rightarrow> DecisionStore \<Rightarrow> (bool \<times> DecisionStore) outcome" where
  "Resolve nid resp d =
     (case gm_get (ds_resources d) nid of
        None \<Rightarrow> Ret (False, d)
      | Some r \<Rightarrow> and_then (decide nid (answered resp r) d) (\<lambda>d. Ret (True, d)))"

definition ResolveTimeout :: "string \<Rightarrow> time \<Rightarrow> DecisionStore \<Rightarrow> (bool \<times> DecisionStore) outcome" where
  "ResolveTimeout nid ts d =
     (case gm_get (ds_resources d) nid of
        None \<Rightarrow> Ret (False, d)
      | Some r \<Rightarrow> and_then (decide nid (r\<lparr> dr_Decided := True, dr_Timestamp := ts \<rparr>) d) (\<lambda>d. Ret (True, d)))"

definition Get_decision :: "string \<Rightarrow> DecisionStore \<Rightarrow> DecisionResource option" where
  "Get_decision nid d = gm_get (ds_resources d) nid"

text \<open>\<open>None\<close> is the nil channel, on which a receive blocks for ever.\<close>

definition Resolved :: "string \<Rightarrow> DecisionStore \<Rightarrow> nat option" where
  "Resolved nid d = gm_get (ds_resolved d) nid"

definition Remove_decision :: "string \<Rightarrow> DecisionStore \<Rightarrow> DecisionStore" where
  "Remove_decision nid d = d\<lparr> ds_resources := gm_del nid (ds_resources d), ds_resolved := gm_del nid (ds_resolved d) \<rparr>"

definition DecisionResourceURI :: "string \<Rightarrow> string" where
  "DecisionResourceURI nid = ''renotify://decisions/'' @ nid"

section \<open>Subscribers\<close>

text \<open>A cancel function is the number of the goroutine whose context it cancels.\<close>

type_synonym SubscriberMap = "(string, nat) gomap"

definition Add_subscriber :: "string \<Rightarrow> nat \<Rightarrow> SubscriberMap \<Rightarrow> SubscriberMap" where
  "Add_subscriber nid cancel m = gm_set nid cancel m"

text \<open>The goroutines cancelled, and the map afterwards.\<close>

definition Cancel_subscriber :: "string \<Rightarrow> SubscriberMap \<Rightarrow> nat list \<times> SubscriberMap" where
  "Cancel_subscriber nid m = (case gm_get m nid of None \<Rightarrow> ([], m) | Some cancel \<Rightarrow> ([cancel], gm_del nid m))"

fun CancelForFlow :: "string list \<Rightarrow> SubscriberMap \<Rightarrow> nat list \<times> SubscriberMap" where
  "CancelForFlow [] m = ([], m)"
| "CancelForFlow (nid # nids) m =
     (let (c, m) = Cancel_subscriber nid m; (cs, m) = CancelForFlow nids m in (c @ cs, m))"

definition CancelAll :: "SubscriberMap \<Rightarrow> nat list \<times> SubscriberMap" where
  "CancelAll m = (map snd m, [])"

section \<open>Interjections\<close>

record flowInterjections =
  fj_queue :: "InterjectionCommand list"
  fj_notify :: nat

text \<open>An \<^verbatim>\<open>InterjectionResource\<close> has the fields of the command.\<close>

record InterjectionStore =
  is_flows :: "(string, flowInterjections) gomap"
  is_chans :: chan_heap

definition NewInterjectionStore :: InterjectionStore where
  "NewInterjectionStore = \<lparr> is_flows = [], is_chans = no_chans \<rparr>"

definition Register_flow :: "string \<Rightarrow> InterjectionStore \<Rightarrow> InterjectionStore" where
  "Register_flow fid s =
     (let (c, h) = make_chan (is_chans s) in
      \<lparr> is_flows = gm_set fid \<lparr> fj_queue = [], fj_notify = c \<rparr> (is_flows s), is_chans = h \<rparr>)"

definition Registered :: "string \<Rightarrow> InterjectionStore \<Rightarrow> bool" where
  "Registered fid s = (gm_get (is_flows s) fid \<noteq> None)"

definition Append :: "string \<Rightarrow> InterjectionCommand \<Rightarrow> InterjectionStore \<Rightarrow> InterjectionStore outcome" where
  "Append fid r s =
     (case gm_get (is_flows s) fid of
        None \<Rightarrow> Ret s
      | Some fi \<Rightarrow>
          and_then (close_chan (fj_notify fi) (is_chans s)) (\<lambda>h.
            let (c, h) = make_chan h in
            Ret \<lparr> is_flows = gm_set fid \<lparr> fj_queue = fj_queue fi @ [r], fj_notify = c \<rparr> (is_flows s), is_chans = h \<rparr>))"

definition Drain :: "string \<Rightarrow> InterjectionStore \<Rightarrow> InterjectionCommand list \<times> InterjectionStore" where
  "Drain fid s =
     (case gm_get (is_flows s) fid of
        None \<Rightarrow> ([], s)
      | Some fi \<Rightarrow>
          if fj_queue fi = [] then ([], s)
          else (fj_queue fi, s\<lparr> is_flows := gm_set fid (fi\<lparr> fj_queue := [] \<rparr>) (is_flows s) \<rparr>))"

definition Get_interjection :: "string \<Rightarrow> InterjectionStore \<Rightarrow> InterjectionCommand option" where
  "Get_interjection fid s =
     (case gm_get (is_flows s) fid of
        None \<Rightarrow> None
      | Some fi \<Rightarrow> if fj_queue fi = [] then None else Some (last (fj_queue fi)))"

definition Notified :: "string \<Rightarrow> InterjectionStore \<Rightarrow> nat option" where
  "Notified fid s = map_option fj_notify (gm_get (is_flows s) fid)"

definition Remove_flow :: "string \<Rightarrow> InterjectionStore \<Rightarrow> InterjectionStore" where
  "Remove_flow fid s = s\<lparr> is_flows := gm_del fid (is_flows s) \<rparr>"

definition InterjectionResourceURI :: "string \<Rightarrow> string" where
  "InterjectionResourceURI fid = ''renotify://interjections/'' @ fid"

section \<open>Debouncing\<close>

type_synonym debounceMap = "(string, time) gomap"

definition check :: "time \<Rightarrow> string \<Rightarrow> string \<Rightarrow> duration \<Rightarrow> debounceMap \<Rightarrow> bool \<times> debounceMap" where
  "check now fid action window m =
     (let key = fid @ '':'' @ action in
      case gm_get m key of
        Some prev \<Rightarrow> if time_sub now prev < window then (False, m) else (True, gm_set key now m)
      | None \<Rightarrow> (True, gm_set key now m))"

section \<open>Store invariants\<close>

text \<open>Each key has a channel of its own, made by the heap; only channels of the heap are closed.\<close>

definition owned :: "(string \<Rightarrow> nat option) \<Rightarrow> chan_heap \<Rightarrow> bool" where
  "owned m h \<longleftrightarrow> (\<forall>k c. m k = Some c \<longrightarrow> c < ch_next h \<and> (\<forall>k'. m k' = Some c \<longrightarrow> k' = k))
     \<and> list_all (\<lambda>c. c < ch_next h) (ch_closed h)"

lemma ownedD:
  assumes "owned m h"
  shows "m k = Some c \<Longrightarrow> c < ch_next h" and "m k = Some c \<Longrightarrow> m k' = Some c \<Longrightarrow> k' = k"
    and "c \<in> set (ch_closed h) \<Longrightarrow> c < ch_next h"
  using assms unfolding owned_def list_all_iff by blast+

lemma owned_empty: "owned (\<lambda>_. None) no_chans"
  by (simp add: owned_def no_chans_def)

lemma owned_make:
  assumes "owned m h"
  shows "owned (m(k \<mapsto> ch_next h)) (h\<lparr> ch_next := Suc (ch_next h) \<rparr>)"
proof -
  have lt: "c < ch_next h" if "m x = Some c" for x c using ownedD(1) [OF assms that] .
  have "c < Suc (ch_next h)" if "(m(k \<mapsto> ch_next h)) x = Some c" for x c
    using that lt [of x c] by (cases "x = k") (auto simp: less_Suc_eq)
  moreover have "k' = x" if x: "(m(k \<mapsto> ch_next h)) x = Some c" and k': "(m(k \<mapsto> ch_next h)) k' = Some c" for x c k'
  proof (cases "x = k \<or> k' = k")
    case True
    have "m y \<noteq> Some (ch_next h)" for y using lt [of y "ch_next h"] by blast
    then have "(m(k \<mapsto> ch_next h)) y = Some (ch_next h) \<longleftrightarrow> y = k" for y by simp
    moreover have "c = ch_next h" using True
    proof
      assume "x = k" with x show ?thesis by simp
    next
      assume "k' = k" with k' show ?thesis by simp
    qed
    ultimately show ?thesis using x k' by metis
  next
    case False
    with x k' have "m x = Some c" "m k' = Some c" by simp_all
    then show ?thesis by (rule ownedD(2) [OF assms])
  qed
  moreover have "list_all (\<lambda>c. c < Suc (ch_next h)) (ch_closed h)"
    unfolding list_all_iff by (rule ballI, rule less_SucI, rule ownedD(3) [OF assms])
  moreover have "ch_next (h\<lparr> ch_next := Suc (ch_next h) \<rparr>) = Suc (ch_next h)"
    "ch_closed (h\<lparr> ch_next := Suc (ch_next h) \<rparr>) = ch_closed h" by simp_all
  ultimately show ?thesis unfolding owned_def by metis
qed

lemma owned_close: "owned m h \<Longrightarrow> m k = Some c \<Longrightarrow> owned m (h\<lparr> ch_closed := c # ch_closed h \<rparr>)"
  by (simp add: owned_def)

lemma owned_del: "owned m h \<Longrightarrow> owned (m(k := None)) h"
  by (simp add: owned_def)

lemma owned_fresh: "owned m h \<Longrightarrow> \<not> is_closed (ch_next h) h" "owned m h \<Longrightarrow> m k \<noteq> Some (ch_next h)"
  using ownedD(1,3) [of m h] by (fastforce simp: is_closed_def)+

lemma gm_get_upd: "gm_get (gm_set k v m) = (gm_get m)(k \<mapsto> v)" "gm_get (gm_del k m) = (gm_get m)(k := None)"
  by auto

text \<open>Decisions: a resource has a channel, which is closed exactly when the decision is taken.\<close>

fun decision_ok :: "chan_heap \<Rightarrow> string \<Rightarrow> DecisionResource option \<Rightarrow> nat option \<Rightarrow> bool" where
  "decision_ok h nid None None = True"
| "decision_ok h nid (Some r) (Some ch) = ((dr_Decided r \<longleftrightarrow> is_closed ch h) \<and> dr_RequestID r = nid)"
| "decision_ok h nid _ _ = False"

definition resource_of :: "DecisionStore \<Rightarrow> string \<Rightarrow> DecisionResource option" where
  "resource_of d = gm_get (ds_resources d)"

definition channel_of :: "DecisionStore \<Rightarrow> string \<Rightarrow> nat option" where
  "channel_of d = gm_get (ds_resolved d)"

definition decisions_ok :: "DecisionStore \<Rightarrow> bool" where
  "decisions_ok d \<longleftrightarrow> gm_ok (ds_resources d) \<and> owned (channel_of d) (ds_chans d)
     \<and> (\<forall>nid. decision_ok (ds_chans d) nid (resource_of d nid) (channel_of d nid))"

lemma decisions_okD:
  assumes "decisions_ok d" and "resource_of d nid = Some r"
  obtains ch where "channel_of d nid = Some ch" "dr_Decided r \<longleftrightarrow> is_closed ch (ds_chans d)" "dr_RequestID r = nid"
proof -
  from assms have ok: "decision_ok (ds_chans d) nid (Some r) (channel_of d nid)" unfolding decisions_ok_def by metis
  then show ?thesis using that by (cases "channel_of d nid") simp_all
qed

lemma decision_ok_mono:
  "decision_ok h nid r c \<Longrightarrow> (\<And>ch. c = Some ch \<Longrightarrow> is_closed ch h' = is_closed ch h) \<Longrightarrow> decision_ok h' nid r c"
  by (cases r; cases c) auto

lemma decisions_ok_new [keeps]: "decisions_ok NewDecisionStore"
  using owned_empty by (simp add: decisions_ok_def NewDecisionStore_def resource_of_def channel_of_def)

lemma Register_views:
  "resource_of (Register_decision nid ts d) = (resource_of d)(nid \<mapsto> pending nid ts)"
  "channel_of (Register_decision nid ts d) = (channel_of d)(nid \<mapsto> ch_next (ds_chans d))"
  "ds_chans (Register_decision nid ts d) = (ds_chans d)\<lparr> ch_next := Suc (ch_next (ds_chans d)) \<rparr>"
  by (simp_all add: Register_decision_def make_chan_def resource_of_def channel_of_def fun_eq_iff)

lemma decisions_ok_Register [keeps]:
  assumes "decisions_ok d"
  shows "decisions_ok (Register_decision nid ts d)"
proof -
  let ?h = "(ds_chans d)\<lparr> ch_next := Suc (ch_next (ds_chans d)) \<rparr>"
  have own: "owned (channel_of d) (ds_chans d)" using assms by (simp add: decisions_ok_def)
  have "decision_ok (ds_chans d) k (resource_of d k) (channel_of d k)" for k
    using assms unfolding decisions_ok_def by blast
  then have "decision_ok ?h k (resource_of d k) (channel_of d k)" for k
    by (rule decision_ok_mono) (simp add: is_closed_def)
  moreover have "decision_ok ?h nid (Some (pending nid ts)) (Some (ch_next (ds_chans d)))"
    using owned_fresh(1) [OF own] by (simp add: pending_def is_closed_def)
  ultimately have "decision_ok ?h k (((resource_of d)(nid \<mapsto> pending nid ts)) k)
      (((channel_of d)(nid \<mapsto> ch_next (ds_chans d))) k)" for k
    by (cases "k = nid") (simp_all del: decision_ok.simps)
  moreover have "gm_ok (ds_resources (Register_decision nid ts d))"
    using assms by (simp add: decisions_ok_def Register_decision_def make_chan_def)
  ultimately show ?thesis using owned_make [OF own] unfolding decisions_ok_def Register_views by blast
qed

lemma decisions_ok_Remove [keeps]:
  assumes "decisions_ok d"
  shows "decisions_ok (Remove_decision nid d)"
proof -
  have "resource_of (Remove_decision nid d) = (resource_of d)(nid := None)"
    "channel_of (Remove_decision nid d) = (channel_of d)(nid := None)" "ds_chans (Remove_decision nid d) = ds_chans d"
    by (simp_all add: Remove_decision_def resource_of_def channel_of_def fun_eq_iff)
  moreover have "decision_ok (ds_chans d) k (((resource_of d)(nid := None)) k) (((channel_of d)(nid := None)) k)" for k
    using assms by (cases "k = nid") (simp_all add: decisions_ok_def del: decision_ok.simps(2,3,4))
  moreover have "gm_ok (ds_resources (Remove_decision nid d))" using assms by (simp add: decisions_ok_def Remove_decision_def)
  ultimately show ?thesis using assms by (simp add: decisions_ok_def owned_del del: fun_upd_apply decision_ok.simps)
qed

text \<open>Deciding a pending decision works; deciding it again is a close of a closed channel.\<close>

lemma decide_pending:
  assumes ok: "decisions_ok d" and r0: "resource_of d nid = Some r0" and p: "\<not> dr_Decided r0"
    and r: "dr_Decided r" "dr_RequestID r = nid"
  obtains d' where "decide nid r d = Ret d'" "decisions_ok d'" "channel_of d' = channel_of d"
    "resource_of d' = (resource_of d)(nid \<mapsto> r)"
proof (rule decisions_okD [OF ok r0])
  fix ch assume ch: "channel_of d nid = Some ch" and "dr_Decided r0 \<longleftrightarrow> is_closed ch (ds_chans d)"
  with p have opn: "\<not> is_closed ch (ds_chans d)" by simp
  define h where "h = (ds_chans d)\<lparr> ch_closed := ch # ch_closed (ds_chans d) \<rparr>"
  define d' where "d' = d\<lparr> ds_resources := gm_set nid r (ds_resources d), ds_chans := h \<rparr>"
  have own: "owned (channel_of d) (ds_chans d)" using ok by (simp add: decisions_ok_def)
  have dec: "decide nid r d = Ret d'" using ch opn
    by (simp add: decide_def Let_def close_chan_def is_closed_def channel_of_def h_def d'_def)
  have views: "channel_of d' = channel_of d" "resource_of d' = (resource_of d)(nid \<mapsto> r)" "ds_chans d' = h"
    by (simp_all add: d'_def channel_of_def resource_of_def fun_eq_iff)
  have "decision_ok h k (((resource_of d)(nid \<mapsto> r)) k) (channel_of d k)" for k
  proof (cases "k = nid")
    case True
    then show ?thesis using r ch by (simp add: h_def is_closed_def)
  next
    case False
    have "decision_ok (ds_chans d) k (resource_of d k) (channel_of d k)" using ok unfolding decisions_ok_def by blast
    then have "decision_ok h k (resource_of d k) (channel_of d k)"
    proof (rule decision_ok_mono)
      fix c assume "channel_of d k = Some c"
      with False ownedD(2) [OF own ch, of k] have "c \<noteq> ch" by auto
      then show "is_closed c h = is_closed c (ds_chans d)" by (simp add: h_def is_closed_def)
    qed
    with False show ?thesis by (simp del: decision_ok.simps)
  qed
  moreover have "gm_ok (ds_resources d')" using ok by (simp add: decisions_ok_def d'_def)
  ultimately have "decisions_ok d'" unfolding decisions_ok_def views h_def using owned_close [OF own ch] by blast
  with dec views show thesis using that by blast
qed

lemma decide_decided:
  assumes "decisions_ok d" and "resource_of d nid = Some r0" and "dr_Decided r0"
  shows "decide nid r d = Panic"
  by (rule decisions_okD [OF assms(1,2)])
    (use assms(3) in \<open>simp add: decide_def Let_def close_chan_def is_closed_def channel_of_def\<close>)

text \<open>Interjections: each flow waits on an open channel of its own, so appending never panics.\<close>

definition notify_of :: "InterjectionStore \<Rightarrow> string \<Rightarrow> nat option" where
  "notify_of s k = map_option fj_notify (gm_get (is_flows s) k)"

definition interjections_ok :: "InterjectionStore \<Rightarrow> bool" where
  "interjections_ok s \<longleftrightarrow> owned (notify_of s) (is_chans s)
     \<and> (\<forall>k c. notify_of s k = Some c \<longrightarrow> \<not> is_closed c (is_chans s))"

lemma notify_of_upd: "notify_of \<lparr> is_flows = gm_set k fi m, is_chans = h \<rparr> = (\<lambda>x. map_option fj_notify (gm_get m x))(k \<mapsto> fj_notify fi)"
  by (simp add: notify_of_def fun_eq_iff)

lemma interjections_ok_new [keeps]: "interjections_ok NewInterjectionStore"
  using owned_empty by (simp add: interjections_ok_def NewInterjectionStore_def notify_of_def [abs_def])

text \<open>A flow with a new channel of its own.\<close>

lemma interjections_fresh:
  assumes own: "owned m h" and op: "\<And>x c. x \<noteq> k \<Longrightarrow> m x = Some c \<Longrightarrow> \<not> is_closed c h"
    and m: "m = (\<lambda>x. map_option fj_notify (gm_get fs x))"
  shows "interjections_ok \<lparr> is_flows = gm_set k \<lparr> fj_queue = q, fj_notify = ch_next h \<rparr> fs,
           is_chans = h\<lparr> ch_next := Suc (ch_next h) \<rparr> \<rparr>"
proof -
  have "notify_of \<lparr> is_flows = gm_set k \<lparr> fj_queue = q, fj_notify = ch_next h \<rparr> fs, is_chans = h' \<rparr> = m(k \<mapsto> ch_next h)" for h'
    by (simp add: notify_of_upd m)
  then show ?thesis using owned_make [OF own, of k] owned_fresh(1) [OF own] op
    by (auto simp: interjections_ok_def is_closed_def split: if_splits)
qed

lemma interjections_ok_Register [keeps]:
  assumes "interjections_ok s"
  shows "interjections_ok (Register_flow fid s)"
proof -
  have "owned (notify_of s) (is_chans s)" using assms by (simp add: interjections_ok_def)
  from interjections_fresh [OF this, of fid "is_flows s" "[]"] assms show ?thesis
    by (simp add: Register_flow_def make_chan_def interjections_ok_def notify_of_def [abs_def])
qed

lemma interjections_ok_Remove [keeps]: "interjections_ok s \<Longrightarrow> interjections_ok (Remove_flow fid s)"
proof -
  have "notify_of (Remove_flow fid s) = (notify_of s)(fid := None)"
    by (simp add: notify_of_def fun_eq_iff Remove_flow_def)
  then show "interjections_ok s \<Longrightarrow> interjections_ok (Remove_flow fid s)"
    by (simp add: interjections_ok_def owned_del Remove_flow_def)
qed

lemma interjections_ok_Drain [keeps]: "interjections_ok s \<Longrightarrow> interjections_ok (snd (Drain fid s))"
proof -
  have "notify_of (snd (Drain fid s)) = notify_of s"
    by (auto simp: notify_of_def fun_eq_iff Drain_def split: option.split)
  moreover have "is_chans (snd (Drain fid s)) = is_chans s" by (simp add: Drain_def split: option.split)
  ultimately show "interjections_ok s \<Longrightarrow> interjections_ok (snd (Drain fid s))" by (simp add: interjections_ok_def)
qed

definition queue_of :: "InterjectionStore \<Rightarrow> string \<Rightarrow> InterjectionCommand list option" where
  "queue_of s k = map_option fj_queue (gm_get (is_flows s) k)"

lemma Append_ok:
  assumes ok: "interjections_ok s"
  obtains s' where "Append fid r s = Ret s'" "interjections_ok s'"
    "queue_of s' = (case queue_of s fid of None \<Rightarrow> queue_of s | Some q \<Rightarrow> (queue_of s)(fid \<mapsto> q @ [r]))"
proof (cases "gm_get (is_flows s) fid")
  case None
  then have "Append fid r s = Ret s" by (simp add: Append_def)
  moreover have "queue_of s fid = None" using None by (simp add: queue_of_def)
  ultimately show ?thesis using that ok by simp
next
  case (Some fi)
  define h where "h = (is_chans s)\<lparr> ch_closed := fj_notify fi # ch_closed (is_chans s) \<rparr>"
  define s' where "s' = \<lparr> is_flows = gm_set fid \<lparr> fj_queue = fj_queue fi @ [r], fj_notify = ch_next h \<rparr> (is_flows s),
     is_chans = h\<lparr> ch_next := Suc (ch_next h) \<rparr> \<rparr>"
  have n: "notify_of s fid = Some (fj_notify fi)" using Some by (simp add: notify_of_def)
  have own: "owned (notify_of s) (is_chans s)" using ok by (simp add: interjections_ok_def)
  have "fj_notify fi \<notin> set (ch_closed (is_chans s))" using ok n by (simp add: interjections_ok_def is_closed_def)
  then have "Append fid r s = Ret s'" using Some by (simp add: Append_def close_chan_def make_chan_def h_def s'_def)
  moreover have "interjections_ok s'"
    unfolding s'_def
  proof (rule interjections_fresh)
    show "owned (notify_of s) h" unfolding h_def by (rule owned_close [OF own n])
    show "\<not> is_closed c h" if "x \<noteq> fid" "notify_of s x = Some c" for x c
      using ok that ownedD(2) [OF own n, of x] by (auto simp: h_def is_closed_def interjections_ok_def)
    show "notify_of s = (\<lambda>x. map_option fj_notify (gm_get (is_flows s) x))" by (simp add: notify_of_def fun_eq_iff)
  qed
  moreover have "queue_of s' = (queue_of s)(fid \<mapsto> fj_queue fi @ [r])" by (simp add: s'_def queue_of_def fun_eq_iff)
  ultimately show ?thesis using that Some by (simp add: queue_of_def)
qed

end
