(* ===== verification/McpServer.thy ===== *)
theory McpServer
  imports McpStores Statesvc StateFiles Broker GoDuration
begin

text \<open>
  Package mcpserver (cli/internal/mcpserver): the state client and the tool handlers of the MCP
  server, the goroutines that \<^verbatim>\<open>ask\<close> starts (a subscriber of the flow's responses and a timeout
  timer) as entries of the state that take steps of their own, and the consumer of interjections.
  A blocking call is split at the point where it waits.
\<close>

section \<open>Server and surroundings\<close>

datatype message = MRequest NotificationRequest | MEvent FlowLifecycleEvent | MError ErrorResponse

text \<open>A goroutine of \<^verbatim>\<open>startResponseSubscriber\<close>: before its subscription, or with an inbox.\<close>

record subscriber =
  sg_notification :: string
  sg_flow :: string
  sg_listening :: bool
  sg_inbox :: "wire list"
  sg_cancelled :: bool

record timer =
  tm_flow :: string
  tm_notification :: string
  tm_timeout :: int
  tm_resolved :: nat

text \<open>
  \<open>sv_published\<close> are the JetStream messages with their ids, \<open>sv_calls\<close> the requests sent to the
  state service, \<open>sv_updated\<close> the URIs of the resource notifications.
\<close>

record Server =
  sv_username :: string
  sv_daemonID :: string
  sv_default_timeout :: duration
  sv_debounce_window :: duration
  sv_has_state :: bool
  sv_decisions :: DecisionStore
  sv_subscribers :: SubscriberMap
  sv_interjections :: InterjectionStore
  sv_debounce :: debounceMap
  sv_goroutines :: "(nat, subscriber) gomap"
  sv_next :: nat
  sv_timers :: "timer list"
  sv_published :: "(string \<times> string \<times> message) list"
  sv_calls :: "(string \<times> json) list"
  sv_updated :: "string list"
  sv_acked :: nat

definition new_Server :: "string \<Rightarrow> string \<Rightarrow> duration \<Rightarrow> duration \<Rightarrow> Server" where
  "new_Server username daemonID default_timeout window =
     \<lparr> sv_username = username, sv_daemonID = daemonID, sv_default_timeout = default_timeout,
       sv_debounce_window = window, sv_has_state = (username \<noteq> ''''), sv_decisions = NewDecisionStore,
       sv_subscribers = [], sv_interjections = NewInterjectionStore, sv_debounce = [], sv_goroutines = [],
       sv_next = 0, sv_timers = [], sv_published = [], sv_calls = [], sv_updated = [], sv_acked = 0 \<rparr>"

text \<open>
  What one operation meets: the clock, the id generated, the reply of the state service to a
  request on a subject (\<open>None\<close>: no reply in time), the answer of JetStream per subject, the
  iteration order of a map, and SHA-256.
\<close>

record menv =
  me_now :: time
  me_id :: string
  me_reply :: "string \<Rightarrow> json \<Rightarrow> wire option"
  me_js_ok :: "string \<Rightarrow> bool"
  me_order :: "string list \<Rightarrow> string list"
  me_sha256 :: "string \<Rightarrow> byte list"

datatype mcp_error =
    No_state_service | Marshal_failed | Request_failed string | Bad_result | State_service string
  | Flow_not_found string | Publish_failed | Bad_status string | Notification_not_found string
  | Flow_reaped string | Resource_not_found string

definition message_time :: "message \<Rightarrow> time" where
  "message_time m = (case m of MRequest r \<Rightarrow> nr_Timestamp r | MEvent e \<Rightarrow> ev_Timestamp e | MError x \<Rightarrow> er_Timestamp x)"

definition PublishJSON :: "menv \<Rightarrow> string \<Rightarrow> string \<Rightarrow> message \<Rightarrow> Server \<Rightarrow> bool \<times> Server" where
  "PublishJSON en subject msgID m s =
     (if \<not> four_digit_year (message_time m) then (False, s)
      else if me_js_ok en subject then (True, s\<lparr> sv_published := sv_published s @ [(subject, msgID, m)] \<rparr>)
      else (False, s))"

definition ResourceUpdated :: "string \<Rightarrow> Server \<Rightarrow> Server" where
  "ResourceUpdated uri s = s\<lparr> sv_updated := sv_updated s @ [uri] \<rparr>"

section \<open>State client\<close>

definition LookupFlow :: "menv \<Rightarrow> string \<Rightarrow> string \<Rightarrow> mcp_error + FlowEntry" where
  "LookupFlow en username flowID =
     (let subject = ServiceFlowsSubject username in
      case me_reply en subject (enc_fq \<lparr> fq_FlowID = flowID, fq_DaemonID = '''', fq_WorkspaceID = '''' \<rparr>) of
        None \<Rightarrow> Inl (Request_failed subject)
      | Some w \<Rightarrow>
          (case unmarshal dec_fr w of
             None \<Rightarrow> Inl Bad_result
           | Some res \<Rightarrow>
               (case find (\<lambda>f. fe_FlowID f = flowID) (fr_Flows res) of
                  None \<Rightarrow> Inl (Flow_not_found flowID)
                | Some f \<Rightarrow> Inr f)))"

record WriteResult =
  wr_OK :: bool
  wr_Error :: string

definition dec_wr :: "json \<Rightarrow> WriteResult option" where
  "dec_wr = dec_struct [(''ok'', d_bool wr_OK_update), (''error'', d_str wr_Error_update)]
     \<lparr> wr_OK = False, wr_Error = '''' \<rparr>"

text \<open>The data are \<open>None\<close> when they do not marshal; a request sent is recorded in the state.\<close>

definition writeRequest :: "menv \<Rightarrow> string \<Rightarrow> wire \<Rightarrow> Server \<Rightarrow> mcp_error option \<times> Server" where
  "writeRequest en subject data s =
     (case data of
        None \<Rightarrow> (Some Marshal_failed, s)
      | Some j \<Rightarrow>
          let s = s\<lparr> sv_calls := sv_calls s @ [(subject, j)] \<rparr> in
          case me_reply en subject j of
            None \<Rightarrow> (Some (Request_failed subject), s)
          | Some w \<Rightarrow>
              (case unmarshal dec_wr w of
                 None \<Rightarrow> (Some Bad_result, s)
               | Some res \<Rightarrow> (if wr_Error res \<noteq> '''' then Some (State_service (wr_Error res)) else None, s)))"

definition client_InsertRequest :: "menv \<Rightarrow> InsertRequestCmd \<Rightarrow> Server \<Rightarrow> mcp_error option \<times> Server" where
  "client_InsertRequest en cmd s =
     writeRequest en (ServiceInsertRequestSubject (sv_username s))
       (marshal (four_digit_year (nr_Timestamp (irc_Request cmd))) (enc_irc cmd)) s"

definition client_InsertResponse :: "menv \<Rightarrow> NotificationResponse \<Rightarrow> Server \<Rightarrow> mcp_error option \<times> Server" where
  "client_InsertResponse en resp s =
     writeRequest en (ServiceInsertResponseSubject (sv_username s))
       (marshal (four_digit_year (resp_Timestamp resp)) (enc_isc \<lparr> isc_Response = resp \<rparr>)) s"

definition client_InsertInterjection :: "menv \<Rightarrow> InsertInterjectionCmd \<Rightarrow> Server \<Rightarrow> mcp_error option \<times> Server" where
  "client_InsertInterjection en cmd s =
     writeRequest en (ServiceInsertInterjectionSubject (sv_username s))
       (marshal (four_digit_year (ij_Timestamp (iic_Interjection cmd))) (enc_iic cmd)) s"

definition client_UpdateActivity :: "menv \<Rightarrow> string \<Rightarrow> time \<Rightarrow> Server \<Rightarrow> mcp_error option \<times> Server" where
  "client_UpdateActivity en flowID ts s =
     writeRequest en (ServiceUpdateActivitySubject (sv_username s))
       (marshal (four_digit_year ts) (enc_uac \<lparr> uac_FlowID = flowID, uac_Timestamp = ts \<rparr>)) s"

definition lookupFlow :: "menv \<Rightarrow> string \<Rightarrow> Server \<Rightarrow> mcp_error + FlowEntry" where
  "lookupFlow en flowID s = (if \<not> sv_has_state s then Inl No_state_service else LookupFlow en (sv_username s) flowID)"

section \<open>Response subscribers\<close>

definition cancel_goroutines :: "nat list \<Rightarrow> Server \<Rightarrow> Server" where
  "cancel_goroutines ns s =
     s\<lparr> sv_goroutines := map (\<lambda>(n, g). if n \<in> set ns then (n, g\<lparr> sg_cancelled := True \<rparr>) else (n, g)) (sv_goroutines s) \<rparr>"

definition startResponseSubscriber :: "string \<Rightarrow> string \<Rightarrow> Server \<Rightarrow> Server" where
  "startResponseSubscriber flowID nid s =
     (let n = sv_next s;
          g = \<lparr> sg_notification = nid, sg_flow = flowID, sg_listening = False, sg_inbox = [], sg_cancelled = False \<rparr>
      in s\<lparr> sv_subscribers := Add_subscriber nid n (sv_subscribers s),
            sv_goroutines := gm_set n g (sv_goroutines s), sv_next := Suc n \<rparr>)"

text \<open>The goroutine returns: its deferred call cancels the notification's entry.\<close>

definition end_subscriber :: "nat \<Rightarrow> Server \<Rightarrow> Server" where
  "end_subscriber n s =
     (case gm_get (sv_goroutines s) n of
        None \<Rightarrow> s
      | Some g \<Rightarrow>
          let (ns, m) = Cancel_subscriber (sg_notification g) (sv_subscribers s) in
          cancel_goroutines ns (s\<lparr> sv_subscribers := m, sv_goroutines := gm_del n (sv_goroutines s) \<rparr>))"

text \<open>The subscription at the start of the goroutine; \<open>ok\<close> is the connection's answer.\<close>

definition subscribe_response :: "bool \<Rightarrow> nat \<Rightarrow> Server \<Rightarrow> Server" where
  "subscribe_response ok n s =
     (case gm_get (sv_goroutines s) n of
        None \<Rightarrow> s
      | Some g \<Rightarrow>
          if ok then s\<lparr> sv_goroutines := gm_set n (g\<lparr> sg_listening := True \<rparr>) (sv_goroutines s) \<rparr>
          else end_subscriber n s)"

text \<open>A message on the flow's response subject reaches every subscription that exists by then.\<close>

definition deliver_response :: "string \<Rightarrow> wire \<Rightarrow> Server \<Rightarrow> Server" where
  "deliver_response flowID data s =
     s\<lparr> sv_goroutines := map (\<lambda>(n, g). if sg_listening g \<and> sg_flow g = flowID
           then (n, g\<lparr> sg_inbox := sg_inbox g @ [data] \<rparr>) else (n, g)) (sv_goroutines s) \<rparr>"

text \<open>
  The error probe here ignores the decoder's error, so a field that decoded counts even when
  another did not.
\<close>

fun lenient_code :: "(string \<times> json) list \<Rightarrow> string \<Rightarrow> string" where
  "lenient_code [] c = c"
| "lenient_code ((k, v) # kvs) c =
     lenient_code kvs (if fold_key k = ''code'' then (case v of JStr s \<Rightarrow> s | _ \<Rightarrow> c) else c)"

definition probe_code :: "wire \<Rightarrow> string" where
  "probe_code data = (case data of Some (JObj kvs) \<Rightarrow> lenient_code kvs '''' | _ \<Rightarrow> '''')"

definition with_decisions :: "Server \<Rightarrow> (bool \<times> DecisionStore) outcome \<Rightarrow> Server outcome" where
  "with_decisions s x = and_then x (\<lambda>(_, d). Ret (s\<lparr> sv_decisions := d \<rparr>))"

definition handleResponse :: "menv \<Rightarrow> string \<Rightarrow> string \<Rightarrow> wire \<Rightarrow> Server \<Rightarrow> Server outcome" where
  "handleResponse en flowID nid data s =
     (if probe_code data \<noteq> '''' then
        and_then (with_decisions s (ResolveTimeout nid (me_now en) (sv_decisions s)))
          (\<lambda>s. Ret (ResourceUpdated (DecisionResourceURI nid) s))
      else case unmarshal dec_resp data of
        None \<Rightarrow> Ret s
      | Some resp \<Rightarrow>
          and_then (with_decisions s (Resolve nid resp (sv_decisions s)))
            (\<lambda>s. let s = (if sv_has_state s then snd (client_InsertResponse en resp s) else s)
                 in Ret (ResourceUpdated (DecisionResourceURI nid) s)))"

text \<open>The goroutine handles the first message of its inbox and returns.\<close>

definition handle_next :: "menv \<Rightarrow> nat \<Rightarrow> Server \<Rightarrow> Server outcome" where
  "handle_next en n s =
     (case gm_get (sv_goroutines s) n of
        Some g \<Rightarrow>
          (case sg_inbox g of
             [] \<Rightarrow> Ret s
           | data # _ \<Rightarrow> and_then (handleResponse en (sg_flow g) (sg_notification g) data s)
               (\<lambda>s. Ret (end_subscriber n s)))
      | None \<Rightarrow> Ret s)"

definition CancelForFlow_sv :: "string list \<Rightarrow> Server \<Rightarrow> Server" where
  "CancelForFlow_sv nids s =
     (let (ns, m) = CancelForFlow nids (sv_subscribers s) in cancel_goroutines ns (s\<lparr> sv_subscribers := m \<rparr>))"

section \<open>Ask timeouts\<close>

definition startTimeoutTimer :: "string \<Rightarrow> string \<Rightarrow> int \<Rightarrow> Server \<Rightarrow> Server" where
  "startTimeoutTimer flowID nid timeoutSec s =
     (case Resolved nid (sv_decisions s) of
        None \<Rightarrow> s
      | Some ch \<Rightarrow>
          s\<lparr> sv_timers := sv_timers s @
             [\<lparr> tm_flow = flowID, tm_notification = nid, tm_timeout = timeoutSec, tm_resolved = ch \<rparr>] \<rparr>)"

definition timeout_error :: "string \<Rightarrow> time \<Rightarrow> ErrorResponse" where
  "timeout_error nid now =
     \<lparr> er_CorrelationID = nid, er_Code = ''timeout'', er_Message = ''ask timeout expired'', er_Timestamp = now \<rparr>"

definition flow_event :: "string \<Rightarrow> string \<Rightarrow> string \<Rightarrow> string \<Rightarrow> time \<Rightarrow> FlowLifecycleEvent" where
  "flow_event flowID daemonID workspaceID status now =
     \<lparr> ev_FlowID = flowID, ev_DaemonID = daemonID, ev_WorkspaceID = workspaceID, ev_Status = status,
       ev_Label = '''', ev_Metadata = None, ev_Timestamp = now \<rparr>"

text \<open>The time has passed: an error envelope and a failed event, then the goroutine is over.\<close>

definition timer_fires :: "menv \<Rightarrow> timer \<Rightarrow> Server \<Rightarrow> Server" where
  "timer_fires en t s =
     (let now = me_now en;
          s = s\<lparr> sv_timers := remove1 t (sv_timers s) \<rparr>;
          s = snd (PublishJSON en (FlowResponseSubject (sv_username s) (tm_flow t)) (tm_notification t @ ''-timeout'')
                (MError (timeout_error (tm_notification t) now)) s)
      in snd (PublishJSON en (FlowLifecycleSubject (sv_username s) (tm_flow t)) (tm_flow t @ ''-timeout'')
                (MEvent (flow_event (tm_flow t) (sv_daemonID s) '''' FlowFailed now)) s))"

definition timer_resolved :: "timer \<Rightarrow> Server \<Rightarrow> Server" where
  "timer_resolved t s = s\<lparr> sv_timers := remove1 t (sv_timers s) \<rparr>"

end
