(* ===== verification/McpTools.thy ===== *)
theory McpTools
  imports McpServer
begin

text \<open>
  Package mcpserver: the handlers of the MCP tools (tool_flow.go, tool_post.go, tool_ask.go,
  tool_await.go, tool_interject.go), the consumer of interjections (interject.go) and the
  resources (decisions.go, interjections.go).
\<close>

section \<open>Notifications\<close>

record askArgs =
  ask_FlowID :: string
  ask_Title :: string
  ask_Body :: string
  ask_ResponseTypes :: "string list"
  ask_Priority :: string
  ask_Source :: string
  ask_Actions :: "string list"
  ask_TimeoutSec :: int

record askResult =
  askr_NotificationID :: string
  askr_ResourceURI :: string
  askr_Timestamp :: string

definition or_default :: "string \<Rightarrow> string \<Rightarrow> string" where
  "or_default s d = (if s \<noteq> '''' then s else d)"

definition ask_request :: "menv \<Rightarrow> askArgs \<Rightarrow> FlowEntry \<Rightarrow> Server \<Rightarrow> NotificationRequest" where
  "ask_request en args flow s =
     \<lparr> nr_ID = me_id en, nr_FlowID = ask_FlowID args, nr_DaemonID = sv_daemonID s,
       nr_WorkspaceID = fe_WorkspaceID flow, nr_Title = ask_Title args, nr_Body = ask_Body args,
       nr_ResponseTypes = ask_ResponseTypes args, nr_Priority = or_default (ask_Priority args) PriorityNormal,
       nr_Source = ask_Source args, nr_WorkspaceName = fe_DisplayName flow, nr_Actions = ask_Actions args,
       nr_TimeoutSec = (if ask_TimeoutSec args = 0 then whole_seconds (sv_default_timeout s) else ask_TimeoutSec args),
       nr_Timestamp = me_now en \<rparr>"

definition insert_cmd :: "Server \<Rightarrow> FlowEntry \<Rightarrow> NotificationRequest \<Rightarrow> InsertRequestCmd" where
  "insert_cmd s flow req =
     \<lparr> irc_Username = sv_username s, irc_FlowLabel = fe_Label flow, irc_WorkspaceName = fe_DisplayName flow,
       irc_WorkspacePath = fe_AbsPath flow, irc_Request = req \<rparr>"

definition handleAsk :: "menv \<Rightarrow> askArgs \<Rightarrow> Server \<Rightarrow> (mcp_error + askResult) \<times> Server" where
  "handleAsk en args s =
     (case lookupFlow en (ask_FlowID args) s of
        Inl err \<Rightarrow> (Inl err, s)
      | Inr flow \<Rightarrow>
          let nid = me_id en; req = ask_request en args flow s in
          case PublishJSON en (FlowRequestSubject (sv_username s) (ask_FlowID args)) nid (MRequest req) s of
            (False, s) \<Rightarrow> (Inl Publish_failed, s)
          | (True, s) \<Rightarrow>
              let s = (if sv_has_state s then snd (client_InsertRequest en (insert_cmd s flow req) s) else s);
                  s = s\<lparr> sv_decisions := Register_decision nid (me_now en) (sv_decisions s) \<rparr>;
                  s = startResponseSubscriber (ask_FlowID args) nid s;
                  s = startTimeoutTimer (ask_FlowID args) nid (nr_TimeoutSec req) s;
                  s = (if sv_has_state s then snd (client_UpdateActivity en (ask_FlowID args) (me_now en) s) else s)
              in (Inr \<lparr> askr_NotificationID = nid, askr_ResourceURI = DecisionResourceURI nid,
                        askr_Timestamp = rfc3339 (me_now en) \<rparr>, s))"

record postArgs =
  post_FlowID :: string
  post_Title :: string
  post_Body :: string
  post_Priority :: string
  post_Source :: string

definition post_request :: "menv \<Rightarrow> postArgs \<Rightarrow> FlowEntry \<Rightarrow> Server \<Rightarrow> NotificationRequest" where
  "post_request en args flow s =
     \<lparr> nr_ID = me_id en, nr_FlowID = post_FlowID args, nr_DaemonID = sv_daemonID s,
       nr_WorkspaceID = fe_WorkspaceID flow, nr_Title = post_Title args, nr_Body = post_Body args,
       nr_ResponseTypes = [ResponseNone], nr_Priority = or_default (post_Priority args) PriorityNormal,
       nr_Source = post_Source args, nr_WorkspaceName = fe_DisplayName flow, nr_Actions = [],
       nr_TimeoutSec = 0, nr_Timestamp = me_now en \<rparr>"

definition handlePost :: "menv \<Rightarrow> postArgs \<Rightarrow> Server \<Rightarrow> (mcp_error + string \<times> string) \<times> Server" where
  "handlePost en args s =
     (case lookupFlow en (post_FlowID args) s of
        Inl err \<Rightarrow> (Inl err, s)
      | Inr flow \<Rightarrow>
          let nid = me_id en; req = post_request en args flow s in
          case PublishJSON en (FlowRequestSubject (sv_username s) (post_FlowID args)) nid (MRequest req) s of
            (False, s) \<Rightarrow> (Inl Publish_failed, s)
          | (True, s) \<Rightarrow>
              let s = (if sv_has_state s then snd (client_InsertRequest en (insert_cmd s flow req) s) else s);
                  s = (if sv_has_state s then snd (client_UpdateActivity en (post_FlowID args) (me_now en) s) else s)
              in (Inr (nid, rfc3339 (me_now en)), s))"

section \<open>Awaiting a decision\<close>

text \<open>A call fails, returns at once, or waits on a channel for some seconds.\<close>

datatype 'a await = Await_error mcp_error | Await_done 'a | Await_wait nat int

definition wait_seconds :: "int \<Rightarrow> Server \<Rightarrow> int" where
  "wait_seconds timeoutSec s = (if timeoutSec \<le> 0 then whole_seconds (sv_default_timeout s) else timeoutSec)"

definition await_decision :: "string \<Rightarrow> int \<Rightarrow> Server \<Rightarrow> DecisionResource await" where
  "await_decision nid timeoutSec s =
     (case Get_decision nid (sv_decisions s) of
        None \<Rightarrow> Await_error (Notification_not_found nid)
      | Some r \<Rightarrow>
          if dr_Decided r then Await_done r
          else case Resolved nid (sv_decisions s) of
            None \<Rightarrow> Await_error (Notification_not_found nid)
          | Some ch \<Rightarrow> Await_wait ch (wait_seconds timeoutSec s))"

text \<open>The two ways in which the wait ends.\<close>

definition await_decision_wake :: "string \<Rightarrow> Server \<Rightarrow> DecisionResource option" where
  "await_decision_wake nid s = Get_decision nid (sv_decisions s)"

definition await_decision_timeout :: "time \<Rightarrow> string \<Rightarrow> DecisionResource" where
  "await_decision_timeout now nid = (pending nid now)\<lparr> dr_Decided := True \<rparr>"

section \<open>Interjection tools\<close>

definition handleCheckInterjections :: "string \<Rightarrow> Server \<Rightarrow> InterjectionCommand list \<times> Server" where
  "handleCheckInterjections fid s =
     (let (items, is) = Drain fid (sv_interjections s) in (items, s\<lparr> sv_interjections := is \<rparr>))"

definition await_interjection :: "string \<Rightarrow> int \<Rightarrow> Server \<Rightarrow> InterjectionCommand list await \<times> Server" where
  "await_interjection fid timeoutSec s =
     (let (items, is) = Drain fid (sv_interjections s); s = s\<lparr> sv_interjections := is \<rparr> in
      if items \<noteq> [] then (Await_done items, s)
      else case Notified fid (sv_interjections s) of
        None \<Rightarrow> (Await_error (Flow_not_found fid), s)
      | Some ch \<Rightarrow> (Await_wait ch (wait_seconds timeoutSec s), s))"

definition await_interjection_wake :: "string \<Rightarrow> Server \<Rightarrow> InterjectionCommand list \<times> Server" where
  "await_interjection_wake = handleCheckInterjections"

section \<open>Flow tools\<close>

text \<open>\<^verbatim>\<open>path.Base\<close>.\<close>

definition path_base :: "string \<Rightarrow> string" where
  "path_base p =
     (if p = '''' then ''.''
      else let q = rev (dropWhile (\<lambda>c. c = CHR ''/'') (rev p));
               q = (case last_index_byte (CHR ''/'') q of None \<Rightarrow> q | Some i \<Rightarrow> drop (i + 1) q)
           in if q = '''' then ''/'' else q)"

record registerFlowArgs =
  rf_WorkspacePath :: string
  rf_Label :: string
  rf_Metadata :: meta

record registerFlowResult =
  rfr_FlowID :: string
  rfr_WorkspaceID :: string
  rfr_Timestamp :: string

definition handleRegisterFlow :: "menv \<Rightarrow> registerFlowArgs \<Rightarrow> Server \<Rightarrow> registerFlowResult \<times> Server" where
  "handleRegisterFlow en args s =
     (let now = me_now en; fid = me_id en;
          wsid = WorkspaceID (me_sha256 en) (sv_daemonID s) (rf_WorkspacePath args);
          m = (case rf_Metadata args of None \<Rightarrow> [] | Some m \<Rightarrow> m);
          m = gm_set MetaAbsPath (rf_WorkspacePath args) (gm_set MetaDisplayName (path_base (rf_WorkspacePath args)) m);
          s = s\<lparr> sv_interjections := Register_flow fid (sv_interjections s) \<rparr>;
          ev = (flow_event fid (sv_daemonID s) wsid FlowActive now)\<lparr> ev_Label := rf_Label args, ev_Metadata := Some m \<rparr>;
          s = snd (PublishJSON en (FlowLifecycleSubject (sv_username s) fid) fid (MEvent ev) s)
      in (\<lparr> rfr_FlowID = fid, rfr_WorkspaceID = wsid, rfr_Timestamp = rfc3339 now \<rparr>, s))"

record refreshFlowArgs =
  ff_FlowID :: string
  ff_Label :: string
  ff_Metadata :: meta

definition map_entries :: "meta \<Rightarrow> (string, string) gomap" where
  "map_entries m = (case m of None \<Rightarrow> [] | Some kv \<Rightarrow> kv)"

definition merge_meta :: "meta \<Rightarrow> meta \<Rightarrow> (string, string) gomap" where
  "merge_meta old new = fold (\<lambda>(k, v). gm_set k v) (map_entries new) (fold (\<lambda>(k, v). gm_set k v) (map_entries old) [])"

definition handleRefreshFlow :: "menv \<Rightarrow> refreshFlowArgs \<Rightarrow> Server \<Rightarrow> (mcp_error + string \<times> string) \<times> Server" where
  "handleRefreshFlow en args s =
     (case lookupFlow en (ff_FlowID args) s of
        Inl _ \<Rightarrow> (Inl (Flow_reaped (ff_FlowID args)), s)
      | Inr flow \<Rightarrow>
          let now = me_now en;
              label = (if ff_Label args = '''' then fe_Label flow else ff_Label args);
              ev = (flow_event (ff_FlowID args) (fe_DaemonID flow) (fe_WorkspaceID flow) FlowActive now)
                   \<lparr> ev_Label := label, ev_Metadata := Some (merge_meta (fe_Metadata flow) (ff_Metadata args)) \<rparr>;
              msgID = ff_FlowID args @ ''-refresh-'' @ itoa (unix_milli now);
              s = snd (PublishJSON en (FlowLifecycleSubject (sv_username s) (ff_FlowID args)) msgID (MEvent ev) s)
          in (Inr (ff_FlowID args, rfc3339 now), s))"

text \<open>The workspace of the flow when it is known, else empty.\<close>

definition known_workspace :: "menv \<Rightarrow> string \<Rightarrow> Server \<Rightarrow> string" where
  "known_workspace en fid s = (case lookupFlow en fid s of Inl _ \<Rightarrow> '''' | Inr flow \<Rightarrow> fe_WorkspaceID flow)"

definition handleTerminateFlow ::
    "menv \<Rightarrow> string \<Rightarrow> string \<Rightarrow> Server \<Rightarrow> (mcp_error + string \<times> string \<times> string) \<times> Server" where
  "handleTerminateFlow en fid status s =
     (if status \<noteq> ''completed'' \<and> status \<noteq> ''failed'' then (Inl (Bad_status status), s)
      else
        let now = me_now en;
            wsid = known_workspace en fid s;
            s = s\<lparr> sv_interjections := Remove_flow fid (sv_interjections s) \<rparr>;
            s = snd (PublishJSON en (FlowLifecycleSubject (sv_username s) fid) (fid @ ''-'' @ status)
                  (MEvent (flow_event fid (sv_daemonID s) wsid status now)) s)
        in (Inr (fid, status, rfc3339 now), s))"

section \<open>Interjection consumer\<close>

definition with_interjections :: "Server \<Rightarrow> InterjectionStore outcome \<Rightarrow> Server outcome" where
  "with_interjections s x = and_then x (\<lambda>is. Ret (s\<lparr> sv_interjections := is \<rparr>))"

definition handleNote :: "InterjectionCommand \<Rightarrow> Server \<Rightarrow> Server outcome" where
  "handleNote cmd s =
     and_then (with_interjections s (Append (ij_FlowID cmd) cmd (sv_interjections s)))
       (\<lambda>s. Ret (ResourceUpdated (InterjectionResourceURI (ij_FlowID cmd)) s))"

fun resolve_all :: "time \<Rightarrow> string list \<Rightarrow> Server \<Rightarrow> Server outcome" where
  "resolve_all ts [] s = Ret s"
| "resolve_all ts (nid # nids) s =
     and_then (with_decisions s (ResolveTimeout nid ts (sv_decisions s)))
       (\<lambda>s. resolve_all ts nids (ResourceUpdated (DecisionResourceURI nid) s))"

text \<open>All pending decisions, in some order, whatever their flow.\<close>

definition pending_ids :: "DecisionStore \<Rightarrow> string list" where
  "pending_ids d = map fst (filter (\<lambda>(nid, r). \<not> dr_Decided r) (ds_resources d))"

definition resolveDecisionsForFlow :: "menv \<Rightarrow> string \<Rightarrow> time \<Rightarrow> Server \<Rightarrow> Server outcome" where
  "resolveDecisionsForFlow en flowID ts s = resolve_all ts (me_order en (pending_ids (sv_decisions s))) s"

definition handleStop :: "menv \<Rightarrow> InterjectionCommand \<Rightarrow> Server \<Rightarrow> Server outcome" where
  "handleStop en cmd s =
     and_then (with_interjections s (Append (ij_FlowID cmd) cmd (sv_interjections s))) (\<lambda>s.
       let fid = ij_FlowID cmd;
           s = snd (PublishJSON en (FlowLifecycleSubject (sv_username s) fid) (fid @ ''-stopped'')
                 (MEvent (flow_event fid (sv_daemonID s) (known_workspace en fid s) FlowFailed (ij_Timestamp cmd))) s)
       in and_then (resolveDecisionsForFlow en fid (ij_Timestamp cmd) s)
            (\<lambda>s. Ret (ResourceUpdated (InterjectionResourceURI fid) s)))"

definition ack_interjection :: "Server \<Rightarrow> Server" where
  "ack_interjection s = s\<lparr> sv_acked := Suc (sv_acked s) \<rparr>"

definition processInterjection :: "menv \<Rightarrow> wire \<Rightarrow> Server \<Rightarrow> Server outcome" where
  "processInterjection en data s =
     (case unmarshal dec_ij data of
        None \<Rightarrow> Ret (ack_interjection s)
      | Some cmd \<Rightarrow>
          (case check (me_now en) (ij_FlowID cmd) (ij_Action cmd) (sv_debounce_window s) (sv_debounce s) of
             (False, m) \<Rightarrow> Ret (ack_interjection (s\<lparr> sv_debounce := m \<rparr>))
           | (True, m) \<Rightarrow>
               let s = s\<lparr> sv_debounce := m \<rparr>;
                   s = (if sv_has_state s
                        then snd (client_InsertInterjection en \<lparr> iic_Username = sv_username s, iic_Interjection = cmd \<rparr> s)
                        else s)
               in and_then
                    (if ij_Action cmd = InterjectionStop then handleStop en cmd s
                     else if ij_Action cmd = InterjectionNote then handleNote cmd s
                     else if ij_Action cmd = InterjectionPause
                     then handleNote (cmd\<lparr> ij_Context := ''Pause requested'' \<rparr>) s
                     else Ret s)
                    (\<lambda>s. Ret (ack_interjection s))))"

text \<open>
  The goroutine of the consumer over what its iterator yields, with a debounce map of its own; any
  error of the iterator ends it. The result says whether it has returned; at the end of the list it
  waits. A panic ends the server.
\<close>

datatype interject_next = Next_interjection menv wire | Interject_error

fun consume_messages :: "interject_next list \<Rightarrow> Server \<Rightarrow> (bool \<times> Server) outcome" where
  "consume_messages [] s = Ret (False, s)"
| "consume_messages (Next_interjection en data # ns) s = and_then (processInterjection en data s) (consume_messages ns)"
| "consume_messages (Interject_error # ns) s = Ret (True, s)"

definition consumeInterjections :: "interject_next list \<Rightarrow> Server \<Rightarrow> (bool \<times> Server) outcome" where
  "consumeInterjections ns s = consume_messages ns (s\<lparr> sv_debounce := [] \<rparr>)"

datatype consumer_error = Create_jetstream | Bind_consumer string | Start_messages

text \<open>The consumer starts when JetStream, its durable consumer and the iterator are there.\<close>

definition startInterjectConsumer :: "bool \<Rightarrow> (string \<Rightarrow> bool) \<Rightarrow> bool \<Rightarrow> Server \<Rightarrow> consumer_error option" where
  "startInterjectConsumer js_ok consumer_exists messages_ok s =
     (if \<not> js_ok then Some Create_jetstream
      else if \<not> consumer_exists (InterjectConsumerName (sv_username s))
      then Some (Bind_consumer (InterjectConsumerName (sv_username s)))
      else if \<not> messages_ok then Some Start_messages
      else None)"

section \<open>Resources\<close>

definition enc_dr :: "DecisionResource \<Rightarrow> json" where
  "enc_dr r = JObj (e_str ''request_id'' (dr_RequestID r) @ [(''decided'', JBool (dr_Decided r))]
     @ (case dr_Accepted r of None \<Rightarrow> [] | Some b \<Rightarrow> [(''accepted'', JBool b)])
     @ e_str_opt ''action'' (dr_Action r) @ e_str_opt ''text'' (dr_Text r) @ e_time ''timestamp'' (dr_Timestamp r))"

definition handleReadDecision :: "string \<Rightarrow> Server \<Rightarrow> mcp_error + json" where
  "handleReadDecision uri s =
     (let p = ''renotify://decisions/'' in
      if length uri \<le> length p then Inl (Resource_not_found uri)
      else case Get_decision (drop (length p) uri) (sv_decisions s) of
        None \<Rightarrow> Inl (Resource_not_found uri)
      | Some r \<Rightarrow> if four_digit_year (dr_Timestamp r) then Inr (enc_dr r) else Inl Marshal_failed)"

definition handleReadInterjection :: "string \<Rightarrow> Server \<Rightarrow> mcp_error + json" where
  "handleReadInterjection uri s =
     (let p = ''renotify://interjections/'' in
      if length uri \<le> length p then Inl (Resource_not_found uri)
      else let fid = drop (length p) uri in
        if \<not> Registered fid (sv_interjections s) then Inl (Resource_not_found uri)
        else case Get_interjection fid (sv_interjections s) of
          None \<Rightarrow> Inr (JArr [])
        | Some r \<Rightarrow> if four_digit_year (ij_Timestamp r) then Inr (enc_ij r) else Inl Marshal_failed)"

end
