(* ===== verification/McpLaws.thy ===== *)
theory McpLaws
  imports McpTools
begin

text \<open>
  What the MCP server guarantees of pending questions: the run of the server as a step relation
  over its handlers and goroutines, the invariant that ties goroutines to pending decisions, and
  how a question ends.
\<close>

section \<open>Steps\<close>

definition unused :: "string \<Rightarrow> Server \<Rightarrow> bool" where
  "unused nid s \<longleftrightarrow> resource_of (sv_decisions s) nid = None"

definition is_stop :: "wire \<Rightarrow> bool" where
  "is_stop data = (case unmarshal dec_ij data of None \<Rightarrow> False | Some cmd \<Rightarrow> ij_Action cmd = InterjectionStop)"

text \<open>
  \<open>stops\<close> says whether stop interjections may arrive. Generated ids are new; a subscriber may end
  at any time (cancelled, or its connection lost); a timer may fire although its channel is
  closed, since Go chooses among ready channels freely.
\<close>

inductive mcp_step :: "bool \<Rightarrow> Server \<Rightarrow> Server outcome \<Rightarrow> bool" for stops where
  ask: "unused (me_id en) s \<Longrightarrow> mcp_step stops s (Ret (snd (handleAsk en args s)))"
| post: "mcp_step stops s (Ret (snd (handlePost en pargs s)))"
| register: "mcp_step stops s (Ret (snd (handleRegisterFlow en rargs s)))"
| refresh: "mcp_step stops s (Ret (snd (handleRefreshFlow en fargs s)))"
| terminate: "mcp_step stops s (Ret (snd (handleTerminateFlow en fid status s)))"
| check_interjections: "mcp_step stops s (Ret (snd (handleCheckInterjections fid s)))"
| await_begin: "mcp_step stops s (Ret (snd (await_interjection fid k s)))"
| subscribe: "mcp_step stops s (Ret (subscribe_response ok n s))"
| deliver: "mcp_step stops s (Ret (deliver_response fid data s))"
| handle: "mcp_step stops s (handle_next en n s)"
| subscriber_ends: "mcp_step stops s (Ret (end_subscriber n s))"
| fire: "t \<in> set (sv_timers s) \<Longrightarrow> mcp_step stops s (Ret (timer_fires en t s))"
| resolved: "t \<in> set (sv_timers s) \<Longrightarrow> mcp_step stops s (Ret (timer_resolved t s))"
| interject: "stops \<or> \<not> is_stop data \<Longrightarrow> mcp_step stops s (processInterjection en data s)"

inductive_cases mcp_stepE: "mcp_step stops s r"

text \<open>A run that has panicked is over: the process is gone.\<close>

inductive mcp_run :: "bool \<Rightarrow> Server \<Rightarrow> Server outcome \<Rightarrow> bool" for stops s0 where
  start: "mcp_run stops s0 (Ret s0)"
| step: "mcp_run stops s0 (Ret s) \<Longrightarrow> mcp_step stops s r \<Longrightarrow> mcp_run stops s0 r"

section \<open>Invariant\<close>

text \<open>The notification each goroutine waits for; it is pending, and no other goroutine waits for it.\<close>

definition task_of :: "Server \<Rightarrow> nat \<Rightarrow> string option" where
  "task_of s n = map_option sg_notification (gm_get (sv_goroutines s) n)"

definition watched :: "(nat \<Rightarrow> string option) \<Rightarrow> (string \<Rightarrow> DecisionResource option) \<Rightarrow> bool" where
  "watched t res \<longleftrightarrow> (\<forall>n i. t n = Some i \<longrightarrow>
     (\<exists>r. res i = Some r \<and> \<not> dr_Decided r) \<and> (\<forall>n'. t n' = Some i \<longrightarrow> n' = n))"

lemma watchedD:
  assumes "watched t res" and "t n = Some i"
  shows "\<exists>r. res i = Some r \<and> \<not> dr_Decided r" and "t n' = Some i \<Longrightarrow> n' = n"
  using assms unfolding watched_def by blast+

lemma watched_del: "watched t res \<Longrightarrow> watched (t(n := None)) res"
  unfolding watched_def by (simp add: fun_upd_def)

lemma watched_new:
  assumes w: "watched t res" and i: "res i = None"
  shows "watched (t(n \<mapsto> i)) (res(i \<mapsto> pending i ts))"
  unfolding watched_def
proof (intro allI impI)
  fix m j assume m: "(t(n \<mapsto> i)) m = Some j"
  have none: "t k \<noteq> Some i" for k using watchedD(1) [OF w, of k i] i by auto
  show "(\<exists>r. (res(i \<mapsto> pending i ts)) j = Some r \<and> \<not> dr_Decided r)
      \<and> (\<forall>n'. (t(n \<mapsto> i)) n' = Some j \<longrightarrow> n' = m)"
  proof (cases "m = n")
    case True
    with m none show ?thesis by (simp add: pending_def)
  next
    case False
    with m have tm: "t m = Some j" by simp
    with none have "j \<noteq> i" by auto
    with watchedD [OF w tm] show ?thesis by simp
  qed
qed

lemma watched_resolve:
  assumes w: "watched t res" and n: "t n = Some i"
  shows "watched (t(n := None)) (res(i \<mapsto> r))"
  unfolding watched_def
proof (intro allI impI)
  fix m j assume "(t(n := None)) m = Some j"
  then have m: "m \<noteq> n" "t m = Some j" by (simp_all split: if_splits)
  with watchedD(2) [OF w n, of m] have "j \<noteq> i" by auto
  with watchedD [OF w m(2)] show "(\<exists>r'. (res(i \<mapsto> r)) j = Some r' \<and> \<not> dr_Decided r')
      \<and> (\<forall>n'. (t(n := None)) n' = Some j \<longrightarrow> n' = m)" by simp
qed

definition mcp_ok :: "Server \<Rightarrow> bool" where
  "mcp_ok s \<longleftrightarrow> decisions_ok (sv_decisions s) \<and> interjections_ok (sv_interjections s)
     \<and> watched (task_of s) (resource_of (sv_decisions s)) \<and> (\<forall>n \<ge> sv_next s. task_of s n = None)"

text \<open>What an operation does not touch.\<close>

definition same_core :: "Server \<Rightarrow> Server \<Rightarrow> bool" where
  "same_core s s' \<longleftrightarrow> sv_decisions s' = sv_decisions s \<and> sv_next s' = sv_next s \<and> task_of s' = task_of s"

lemma same_core_refl: "same_core s s"
  by (simp add: same_core_def)

lemma same_core_trans: "same_core a b \<Longrightarrow> same_core b c \<Longrightarrow> same_core a c"
  by (simp add: same_core_def)

lemma mcp_ok_core: "mcp_ok s \<Longrightarrow> same_core s s' \<Longrightarrow> interjections_ok (sv_interjections s') \<Longrightarrow> mcp_ok s'"
  by (simp add: mcp_ok_def same_core_def)

lemma task_of_same: "sv_goroutines s' = sv_goroutines s \<Longrightarrow> task_of s' = task_of s"
  by (simp add: task_of_def fun_eq_iff)

lemma task_of_updates [simp]:
  "task_of (s\<lparr> sv_decisions := x0 \<rparr>) = task_of s"
  "task_of (s\<lparr> sv_subscribers := x1 \<rparr>) = task_of s"
  "task_of (s\<lparr> sv_interjections := x2 \<rparr>) = task_of s"
  "task_of (s\<lparr> sv_debounce := x3 \<rparr>) = task_of s"
  "task_of (s\<lparr> sv_next := x4 \<rparr>) = task_of s"
  "task_of (s\<lparr> sv_timers := x5 \<rparr>) = task_of s"
  "task_of (s\<lparr> sv_published := x6 \<rparr>) = task_of s"
  "task_of (s\<lparr> sv_calls := x7 \<rparr>) = task_of s"
  "task_of (s\<lparr> sv_updated := x8 \<rparr>) = task_of s"
  "task_of (s\<lparr> sv_acked := x9 \<rparr>) = task_of s"
  by (rule task_of_same, simp)+

text \<open>Sending things leaves all but the logs alone.\<close>

definition only_logs :: "Server \<Rightarrow> Server \<Rightarrow> bool" where
  "only_logs s s' \<longleftrightarrow> (\<exists>p c u a. s' = s\<lparr> sv_published := p, sv_calls := c, sv_updated := u, sv_acked := a \<rparr>)"

lemma only_logs_refl: "only_logs s s"
  unfolding only_logs_def by (intro exI [of _ "sv_published s"] exI [of _ "sv_calls s"] exI [of _ "sv_updated s"] exI [of _ "sv_acked s"]) simp

lemma only_logs_trans: "only_logs a b \<Longrightarrow> only_logs b c \<Longrightarrow> only_logs a c"
  unfolding only_logs_def by (elim exE) (simp, metis (no_types) Server.update_convs)

lemma only_logsD:
  assumes "only_logs s s'"
  shows "sv_decisions s' = sv_decisions s" "sv_interjections s' = sv_interjections s" "sv_goroutines s' = sv_goroutines s"
    "sv_next s' = sv_next s" "sv_username s' = sv_username s" "sv_timers s' = sv_timers s" "sv_has_state s' = sv_has_state s"
    "sv_daemonID s' = sv_daemonID s" "sv_subscribers s' = sv_subscribers s" "sv_debounce s' = sv_debounce s"
  using assms by (auto simp: only_logs_def)

lemma only_logs_updates:
  "only_logs s (s\<lparr> sv_published := p \<rparr>)" "only_logs s (s\<lparr> sv_calls := c \<rparr>)"
  "only_logs s (s\<lparr> sv_updated := u \<rparr>)" "only_logs s (s\<lparr> sv_acked := a \<rparr>)"
  unfolding only_logs_def
  by (rule exI [of _ p], rule exI [of _ "sv_calls s"], rule exI [of _ "sv_updated s"], rule exI [of _ "sv_acked s"], simp)
    (rule exI [of _ "sv_published s"], rule exI [of _ c], rule exI [of _ "sv_updated s"], rule exI [of _ "sv_acked s"], simp,
     rule exI [of _ "sv_published s"], rule exI [of _ "sv_calls s"], rule exI [of _ u], rule exI [of _ "sv_acked s"], simp,
     rule exI [of _ "sv_published s"], rule exI [of _ "sv_calls s"], rule exI [of _ "sv_updated s"], rule exI [of _ a], simp)

lemma PublishJSON_logs: "only_logs s (snd (PublishJSON en x k m s))"
  by (simp add: PublishJSON_def only_logs_refl only_logs_updates)

lemma ResourceUpdated_logs: "only_logs s (ResourceUpdated u s)"
  by (simp add: ResourceUpdated_def only_logs_updates)

lemma ack_logs: "only_logs s (ack_interjection s)"
  by (simp add: ack_interjection_def only_logs_updates)

lemma writeRequest_logs: "only_logs s (snd (writeRequest en x d s))"
  by (simp add: writeRequest_def Let_def only_logs_refl only_logs_updates split: option.split)

lemma client_logs:
  "only_logs s (snd (client_InsertRequest en c s))" "only_logs s (snd (client_InsertResponse en p s))"
  "only_logs s (snd (client_InsertInterjection en i s))" "only_logs s (snd (client_UpdateActivity en f t s))"
  by (simp_all add: client_InsertRequest_def client_InsertResponse_def client_InsertInterjection_def
      client_UpdateActivity_def writeRequest_logs)

lemmas logs = only_logs_refl PublishJSON_logs ResourceUpdated_logs ack_logs client_logs

lemma logs_core: "only_logs s s' \<Longrightarrow> same_core s s'"
  unfolding same_core_def by (intro conjI only_logsD(1,4) task_of_same only_logsD(3))

lemma mcp_ok_logs:
  assumes "mcp_ok s" and "only_logs s s'"
  shows "mcp_ok s'"
proof -
  have "interjections_ok (sv_interjections s')" unfolding only_logsD(2) [OF assms(2)] using assms(1) by (simp add: mcp_ok_def)
  with mcp_ok_core [OF assms(1) logs_core [OF assms(2)]] show ?thesis .
qed

section \<open>Each operation keeps the invariant\<close>

lemma mcp_ok_interjections:
  "mcp_ok s \<Longrightarrow> interjections_ok is \<Longrightarrow> mcp_ok (s\<lparr> sv_interjections := is \<rparr>)"
  by (simp add: mcp_ok_def)

lemma mcp_ok_timers: "mcp_ok s \<Longrightarrow> mcp_ok (s\<lparr> sv_timers := ts \<rparr>)"
  by (simp add: mcp_ok_def)

lemma mcp_ok_debounce: "mcp_ok s \<Longrightarrow> mcp_ok (s\<lparr> sv_debounce := m \<rparr>)"
  by (simp add: mcp_ok_def)

lemma get_mapped:
  "gm_get (map (\<lambda>(n, g). if c n g then (n, f g) else (n, g)) m) n
     = map_option (\<lambda>g. if c n g then f g else g) (gm_get m n)"
  by (induction m) (auto split: prod.split)

lemma cancel_core: "same_core s (cancel_goroutines ns s)"
  by (auto simp: same_core_def cancel_goroutines_def task_of_def fun_eq_iff option.map_comp o_def
      get_mapped [where c = "\<lambda>n g. n \<in> set ns"] intro!: option.map_cong)

lemma deliver_core: "same_core s (deliver_response fid data s)"
  by (auto simp: same_core_def deliver_response_def task_of_def fun_eq_iff option.map_comp o_def
      get_mapped [where c = "\<lambda>n g. sg_listening g \<and> sg_flow g = fid"] intro!: option.map_cong)

lemma task_of_del: "sv_goroutines s' = gm_del n (sv_goroutines s) \<Longrightarrow> task_of s' = (task_of s)(n := None)"
  by (simp add: task_of_def fun_eq_iff)

lemma task_of_set: "sv_goroutines s' = gm_set n g (sv_goroutines s) \<Longrightarrow> task_of s' = (task_of s)(n \<mapsto> sg_notification g)"
  by (simp add: task_of_def fun_eq_iff)

text \<open>A goroutine that ends disappears; all else that matters stays.\<close>

lemma end_subscriber_core:
  "sv_decisions (end_subscriber n s) = sv_decisions s \<and> sv_next (end_subscriber n s) = sv_next s
     \<and> sv_interjections (end_subscriber n s) = sv_interjections s
     \<and> task_of (end_subscriber n s) = (task_of s)(n := None)"
proof (cases "gm_get (sv_goroutines s) n")
  case None
  then show ?thesis by (simp add: end_subscriber_def task_of_def fun_eq_iff)
next
  case (Some g)
  obtain ns m where c: "Cancel_subscriber (sg_notification g) (sv_subscribers s) = (ns, m)" by force
  define s1 where "s1 = s\<lparr> sv_subscribers := m, sv_goroutines := gm_del n (sv_goroutines s) \<rparr>"
  have e: "end_subscriber n s = cancel_goroutines ns s1" using Some c by (simp add: end_subscriber_def s1_def)
  have "task_of s1 = (task_of s)(n := None)" by (rule task_of_del) (simp add: s1_def)
  moreover have "sv_interjections (cancel_goroutines ns s1) = sv_interjections s"
    by (simp add: cancel_goroutines_def s1_def)
  ultimately show ?thesis using cancel_core [of s1 ns] by (simp add: e same_core_def) (simp add: s1_def)
qed

lemma mcp_ok_ended:
  assumes "mcp_ok s"
  shows "mcp_ok (end_subscriber n s)"
  using assms end_subscriber_core [of n s] watched_del [of "task_of s" _ n] by (auto simp: mcp_ok_def)

lemma mcp_ok_subscribe: "mcp_ok s \<Longrightarrow> mcp_ok (subscribe_response ok n s)"
proof (cases "gm_get (sv_goroutines s) n")
  case (Some g)
  assume s: "mcp_ok s"
  let ?s = "s\<lparr> sv_goroutines := gm_set n (g\<lparr> sg_listening := True \<rparr>) (sv_goroutines s) \<rparr>"
  have "task_of ?s = (task_of s)(n \<mapsto> sg_notification (g\<lparr> sg_listening := True \<rparr>))" by (rule task_of_set) simp
  also have "\<dots> = task_of s" using Some by (auto simp: task_of_def fun_eq_iff)
  finally have "same_core s ?s" by (simp add: same_core_def)
  with s have "mcp_ok ?s" by (rule mcp_ok_core) (use s in \<open>simp add: mcp_ok_def\<close>)
  with Some s show ?thesis by (simp add: subscribe_response_def mcp_ok_ended)
qed (simp add: subscribe_response_def)

text \<open>Resolving a pending decision.\<close>

lemma Resolve_pending:
  assumes "decisions_ok d" and "resource_of d nid = Some r" and "\<not> dr_Decided r"
  obtains d' where "Resolve nid resp d = Ret (True, d')" "decisions_ok d'" "channel_of d' = channel_of d"
    "resource_of d' = (resource_of d)(nid \<mapsto> answered resp r)"
proof -
  have "dr_RequestID r = nid" using decisions_okD [OF assms(1,2)] by metis
  then have "dr_Decided (answered resp r)" "dr_RequestID (answered resp r) = nid" by (simp_all add: answered_def)
  from decide_pending [OF assms this] that assms(2) show ?thesis
    by (auto simp: Resolve_def resource_of_def)
qed

lemma ResolveTimeout_pending:
  assumes "decisions_ok d" and "resource_of d nid = Some r" and "\<not> dr_Decided r"
  obtains d' where "ResolveTimeout nid ts d = Ret (True, d')" "decisions_ok d'" "channel_of d' = channel_of d"
    "resource_of d' = (resource_of d)(nid \<mapsto> r\<lparr> dr_Decided := True, dr_Timestamp := ts \<rparr>)"
proof -
  have "dr_RequestID r = nid" using decisions_okD [OF assms(1,2)] by metis
  then have "dr_Decided (r\<lparr> dr_Decided := True, dr_Timestamp := ts \<rparr>)"
    "dr_RequestID (r\<lparr> dr_Decided := True, dr_Timestamp := ts \<rparr>) = nid" by simp_all
  from decide_pending [OF assms this] that assms(2) show ?thesis
    by (auto simp: ResolveTimeout_def resource_of_def)
qed

text \<open>What a message makes of the pending decision of its goroutine.\<close>

definition outcome_of :: "menv \<Rightarrow> wire \<Rightarrow> DecisionResource \<Rightarrow> DecisionResource option" where
  "outcome_of en data r =
     (if probe_code data \<noteq> '''' then Some (r\<lparr> dr_Decided := True, dr_Timestamp := me_now en \<rparr>)
      else map_option (\<lambda>resp. answered resp r) (unmarshal dec_resp data))"

lemma handleResponse_result:
  assumes ok: "mcp_ok s" and n: "task_of s n = Some nid"
  obtains r d s' where "resource_of (sv_decisions s) nid = Some r" "handleResponse en fid nid data s = Ret s'"
    "only_logs (s\<lparr> sv_decisions := d \<rparr>) s'"
    "outcome_of en data r = None \<longrightarrow> d = sv_decisions s"
    "\<forall>r'. outcome_of en data r = Some r' \<longrightarrow> decisions_ok d \<and> resource_of d = (resource_of (sv_decisions s))(nid \<mapsto> r')
        \<and> channel_of d = channel_of (sv_decisions s) \<and> DecisionResourceURI nid \<in> set (sv_updated s')"
proof -
  have dok: "decisions_ok (sv_decisions s)" and w: "watched (task_of s) (resource_of (sv_decisions s))"
    using ok by (simp_all add: mcp_ok_def)
  from watchedD(1) [OF w n] obtain r where r: "resource_of (sv_decisions s) nid = Some r" "\<not> dr_Decided r" by blast
  consider (timeout) "probe_code data \<noteq> ''''"
    | (bad) "probe_code data = ''''" "unmarshal dec_resp data = None"
    | (answer) resp where "probe_code data = ''''" "unmarshal dec_resp data = Some resp"
    by (cases "unmarshal dec_resp data") auto
  then show ?thesis
  proof cases
    case timeout
    obtain d where d: "ResolveTimeout nid (me_now en) (sv_decisions s) = Ret (True, d)" "decisions_ok d"
      "channel_of d = channel_of (sv_decisions s)"
      "resource_of d = (resource_of (sv_decisions s))(nid \<mapsto> r\<lparr> dr_Decided := True, dr_Timestamp := me_now en \<rparr>)"
      by (rule ResolveTimeout_pending [OF dok r])
    have "handleResponse en fid nid data s = Ret (ResourceUpdated (DecisionResourceURI nid) (s\<lparr> sv_decisions := d \<rparr>))"
      using timeout by (simp add: handleResponse_def with_decisions_def d)
    with that [OF r(1) this ResourceUpdated_logs] timeout d(2-4) show ?thesis
      by (simp add: outcome_of_def ResourceUpdated_def)
  next
    case bad
    then have "handleResponse en fid nid data s = Ret s" by (simp add: handleResponse_def)
    with that [OF r(1) this, of "sv_decisions s"] bad show ?thesis by (simp add: outcome_of_def only_logs_refl)
  next
    case (answer resp)
    obtain d where d: "Resolve nid resp (sv_decisions s) = Ret (True, d)" "decisions_ok d"
      "channel_of d = channel_of (sv_decisions s)"
      "resource_of d = (resource_of (sv_decisions s))(nid \<mapsto> answered resp r)"
      by (rule Resolve_pending [OF dok r])
    define s1 where "s1 = s\<lparr> sv_decisions := d \<rparr>"
    define s2 where "s2 = (if sv_has_state s1 then snd (client_InsertResponse en resp s1) else s1)"
    have "only_logs s1 s2" by (simp add: s2_def logs)
    then have lg: "only_logs s1 (ResourceUpdated (DecisionResourceURI nid) s2)"
      using only_logs_trans ResourceUpdated_logs by blast
    have "handleResponse en fid nid data s = Ret (ResourceUpdated (DecisionResourceURI nid) s2)"
      using answer by (simp add: handleResponse_def with_decisions_def d s1_def s2_def Let_def)
    from that [OF r(1) this lg [unfolded s1_def]] answer d(2-4) show ?thesis
      by (simp add: outcome_of_def ResourceUpdated_def)
  qed
qed

lemma mcp_ok_resolved_end:
  assumes ok: "mcp_ok s" and n: "task_of s n = Some nid" and d: "decisions_ok d"
    and res: "resource_of d = (resource_of (sv_decisions s))(nid \<mapsto> r')" and lg: "only_logs (s\<lparr> sv_decisions := d \<rparr>) s2"
  shows "mcp_ok (end_subscriber n s2)"
proof -
  have s2: "sv_decisions s2 = d" "sv_next s2 = sv_next s" "sv_interjections s2 = sv_interjections s" "task_of s2 = task_of s"
    using only_logsD(1,2,4) [OF lg] task_of_same [OF only_logsD(3) [OF lg]] by simp_all
  have "watched (task_of s) (resource_of (sv_decisions s))" using ok by (simp add: mcp_ok_def)
  then have "watched ((task_of s)(n := None)) (resource_of d)" unfolding res using n by (rule watched_resolve)
  with ok d end_subscriber_core [of n s2] s2 show ?thesis by (auto simp: mcp_ok_def)
qed

text \<open>So handling a message never panics and ends the goroutine.\<close>

lemma handle_next_result:
  assumes ok: "mcp_ok s" and g: "gm_get (sv_goroutines s) n = Some g" and inbox: "sg_inbox g = data # q"
  obtains r s' where "resource_of (sv_decisions s) (sg_notification g) = Some r" "\<not> dr_Decided r"
    "handle_next en n s = Ret s'" "mcp_ok s'"
    "\<And>r'. outcome_of en data r = Some r' \<Longrightarrow>
        resource_of (sv_decisions s') = (resource_of (sv_decisions s))(sg_notification g \<mapsto> r')
        \<and> channel_of (sv_decisions s') = channel_of (sv_decisions s)
        \<and> DecisionResourceURI (sg_notification g) \<in> set (sv_updated s')"
proof -
  let ?nid = "sg_notification g"
  have n: "task_of s n = Some ?nid" using g by (simp add: task_of_def)
  obtain r d s2 where r: "resource_of (sv_decisions s) ?nid = Some r"
    and h: "handleResponse en (sg_flow g) ?nid data s = Ret s2" and lg: "only_logs (s\<lparr> sv_decisions := d \<rparr>) s2"
    and none: "outcome_of en data r = None \<longrightarrow> d = sv_decisions s"
    and some: "\<forall>r'. outcome_of en data r = Some r' \<longrightarrow> decisions_ok d
        \<and> resource_of d = (resource_of (sv_decisions s))(?nid \<mapsto> r')
        \<and> channel_of d = channel_of (sv_decisions s) \<and> DecisionResourceURI ?nid \<in> set (sv_updated s2)"
    by (rule handleResponse_result [OF ok n, of en "sg_flow g" data], rule that, assumption+)
  have hn: "handle_next en n s = Ret (end_subscriber n s2)" using g inbox h by (simp add: handle_next_def)
  have pend: "\<not> dr_Decided r" using ok n r watchedD(1) unfolding mcp_ok_def by fastforce
  have dec: "sv_decisions (end_subscriber n s2) = d" using end_subscriber_core [of n s2] only_logsD(1) [OF lg] by simp
  have upd: "sv_updated (end_subscriber n s2) = sv_updated s2"
    by (simp add: end_subscriber_def cancel_goroutines_def Let_def split: option.split prod.split)
  have "mcp_ok (end_subscriber n s2)"
  proof (cases "outcome_of en data r")
    case None
    from lg have "only_logs s s2" using none None by simp
    then show ?thesis using mcp_ok_ended mcp_ok_logs [OF ok] by blast
  next
    case (Some r')
    with mcp_ok_resolved_end [OF ok n _ _ lg] some Some show ?thesis by blast
  qed
  with that [OF r pend hn] some dec upd show ?thesis by simp
qed

text \<open>Asking: a new pending decision and the goroutine that waits for it.\<close>

lemma mcp_ok_asked:
  assumes ok: "mcp_ok s" and new: "resource_of (sv_decisions s) nid = None"
  shows "mcp_ok (startResponseSubscriber fid nid (s\<lparr> sv_decisions := Register_decision nid ts (sv_decisions s) \<rparr>))"
proof -
  let ?s1 = "s\<lparr> sv_decisions := Register_decision nid ts (sv_decisions s) \<rparr>"
  let ?s = "startResponseSubscriber fid nid ?s1"
  have t: "task_of ?s = (task_of s)(sv_next s \<mapsto> nid)"
    by (subst task_of_set [where n = "sv_next s" and s = s and g = "\<lparr> sg_notification = nid, sg_flow = fid,
          sg_listening = False, sg_inbox = [], sg_cancelled = False \<rparr>"])
      (simp_all add: startResponseSubscriber_def Let_def)
  have w: "watched (task_of s) (resource_of (sv_decisions s))" using ok by (simp add: mcp_ok_def)
  have "watched (task_of ?s) (resource_of (sv_decisions ?s))"
    unfolding t using watched_new [OF w new] by (simp add: startResponseSubscriber_def Let_def Register_views)
  moreover have "task_of ?s n = None" if "n \<ge> Suc (sv_next s)" for n
    using ok that by (simp add: t mcp_ok_def)
  ultimately show ?thesis using ok
    by (simp add: mcp_ok_def startResponseSubscriber_def Let_def decisions_ok_Register)
qed

lemma mcp_ok_timer: "mcp_ok s \<Longrightarrow> mcp_ok (startTimeoutTimer fid nid k s)"
  by (simp add: startTimeoutTimer_def mcp_ok_timers split: option.split)

lemma mcp_ok_if_logs:
  "mcp_ok s \<Longrightarrow> only_logs s s' \<Longrightarrow> mcp_ok (if c then s' else s)"
  using mcp_ok_logs by simp

lemma mcp_ok_ask:
  assumes ok: "mcp_ok s" and new: "unused (me_id en) s"
  shows "mcp_ok (snd (handleAsk en args s))"
proof (cases "lookupFlow en (ask_FlowID args) s")
  case (Inl err)
  then show ?thesis using ok by (simp add: handleAsk_def)
next
  case (Inr flow)
  let ?req = "ask_request en args flow s"
  obtain b s1 where p: "PublishJSON en (FlowRequestSubject (sv_username s) (ask_FlowID args)) (me_id en) (MRequest ?req) s = (b, s1)"
    by force
  then have lg1: "only_logs s s1" using PublishJSON_logs by (metis snd_conv)
  define s2 where "s2 = (if sv_has_state s1 then snd (client_InsertRequest en (insert_cmd s1 flow ?req) s1) else s1)"
  have "only_logs s1 s2" by (simp add: s2_def logs)
  with lg1 have lg2: "only_logs s s2" by (rule only_logs_trans)
  have ok2: "mcp_ok s2" and none: "resource_of (sv_decisions s2) (me_id en) = None"
    using mcp_ok_logs [OF ok lg2] new only_logsD(1) [OF lg2] by (simp_all add: unused_def)
  define s3 where "s3 = startResponseSubscriber (ask_FlowID args) (me_id en)
      (s2\<lparr> sv_decisions := Register_decision (me_id en) (me_now en) (sv_decisions s2) \<rparr>)"
  define s4 where "s4 = startTimeoutTimer (ask_FlowID args) (me_id en) (nr_TimeoutSec ?req) s3"
  have "mcp_ok s3" unfolding s3_def by (rule mcp_ok_asked) fact+
  then have "mcp_ok s4" unfolding s4_def by (rule mcp_ok_timer)
  then have "mcp_ok (if sv_has_state s4 then snd (client_UpdateActivity en (ask_FlowID args) (me_now en) s4) else s4)"
    by (rule mcp_ok_if_logs) (rule client_logs)
  moreover have "snd (handleAsk en args s) = (if b
      then (if sv_has_state s4 then snd (client_UpdateActivity en (ask_FlowID args) (me_now en) s4) else s4) else s1)"
    by (cases b) (simp_all only: handleAsk_def Inr p Let_def s2_def s3_def s4_def sum.case prod.case bool.case snd_conv if_True if_False)
  ultimately show ?thesis using mcp_ok_logs [OF ok lg1] by simp
qed

lemma mcp_ok_post: "mcp_ok s \<Longrightarrow> mcp_ok (snd (handlePost en args s))"
proof (cases "lookupFlow en (post_FlowID args) s")
  case (Inr flow)
  assume ok: "mcp_ok s"
  let ?req = "post_request en args flow s"
  obtain b s1 where p: "PublishJSON en (FlowRequestSubject (sv_username s) (post_FlowID args)) (me_id en) (MRequest ?req) s = (b, s1)"
    by force
  then have "only_logs s s1" using PublishJSON_logs by (metis snd_conv)
  with ok have ok1: "mcp_ok s1" by (rule mcp_ok_logs)
  define s2 where "s2 = (if sv_has_state s1 then snd (client_InsertRequest en (insert_cmd s1 flow ?req) s1) else s1)"
  have "only_logs s1 s2" by (simp add: s2_def logs)
  with ok1 have "mcp_ok s2" by (rule mcp_ok_logs)
  then have "mcp_ok (if sv_has_state s2 then snd (client_UpdateActivity en (post_FlowID args) (me_now en) s2) else s2)"
    by (rule mcp_ok_if_logs) (rule client_logs)
  moreover have "snd (handlePost en args s) = (if b
      then (if sv_has_state s2 then snd (client_UpdateActivity en (post_FlowID args) (me_now en) s2) else s2) else s1)"
    by (cases b) (simp_all only: handlePost_def Inr p Let_def s2_def sum.case prod.case bool.case snd_conv if_True if_False)
  ultimately show ?thesis using ok1 by simp
qed (simp add: handlePost_def)

lemma mcp_ok_register: "mcp_ok s \<Longrightarrow> mcp_ok (snd (handleRegisterFlow en args s))"
proof -
  assume ok: "mcp_ok s"
  then have "mcp_ok (s\<lparr> sv_interjections := Register_flow (me_id en) (sv_interjections s) \<rparr>)"
    by (intro mcp_ok_interjections interjections_ok_Register) (simp_all add: mcp_ok_def)
  from mcp_ok_logs [OF this PublishJSON_logs] show ?thesis by (simp add: handleRegisterFlow_def Let_def)
qed

lemma mcp_ok_refresh: "mcp_ok s \<Longrightarrow> mcp_ok (snd (handleRefreshFlow en args s))"
  using mcp_ok_logs [OF _ PublishJSON_logs] by (simp add: handleRefreshFlow_def Let_def split: sum.split)

lemma mcp_ok_terminate: "mcp_ok s \<Longrightarrow> mcp_ok (snd (handleTerminateFlow en fid status s))"
proof -
  assume ok: "mcp_ok s"
  then have "mcp_ok (s\<lparr> sv_interjections := Remove_flow fid (sv_interjections s) \<rparr>)"
    by (intro mcp_ok_interjections interjections_ok_Remove) (simp_all add: mcp_ok_def)
  from mcp_ok_logs [OF this PublishJSON_logs] ok show ?thesis by (simp add: handleTerminateFlow_def Let_def)
qed

lemma mcp_ok_check: "mcp_ok s \<Longrightarrow> mcp_ok (snd (handleCheckInterjections fid s))"
proof -
  assume ok: "mcp_ok s"
  then have "mcp_ok (s\<lparr> sv_interjections := snd (Drain fid (sv_interjections s)) \<rparr>)"
    by (intro mcp_ok_interjections interjections_ok_Drain) (simp_all add: mcp_ok_def)
  then show ?thesis by (simp add: handleCheckInterjections_def prod.case_eq_if)
qed

lemma await_interjection_state: "snd (await_interjection fid k s) = snd (handleCheckInterjections fid s)"
  by (simp add: await_interjection_def handleCheckInterjections_def Let_def split: prod.split option.split)

lemma mcp_ok_fires: "mcp_ok s \<Longrightarrow> mcp_ok (timer_fires en t s)"
  unfolding timer_fires_def Let_def
  by (rule mcp_ok_logs [OF mcp_ok_logs PublishJSON_logs], rule mcp_ok_timers, assumption, rule PublishJSON_logs)

lemma handleNote_ok:
  assumes ok: "mcp_ok s"
  obtains s' where "handleNote cmd s = Ret s'" "mcp_ok s'"
proof -
  from ok have "interjections_ok (sv_interjections s)" by (simp add: mcp_ok_def)
  then obtain js where a: "Append (ij_FlowID cmd) cmd (sv_interjections s) = Ret js" "interjections_ok js"
    by (rule Append_ok)
  have "mcp_ok (ResourceUpdated (InterjectionResourceURI (ij_FlowID cmd)) (s\<lparr> sv_interjections := js \<rparr>))"
    by (rule mcp_ok_logs [OF mcp_ok_interjections [OF ok a(2)] ResourceUpdated_logs])
  with that show ?thesis by (simp add: handleNote_def with_interjections_def a)
qed

lemma processInterjection_ok:
  assumes ok: "mcp_ok s" and ns: "\<not> is_stop data"
  obtains s' where "processInterjection en data s = Ret s'" "mcp_ok s'"
proof (cases "unmarshal dec_ij data")
  case None
  have "mcp_ok (ack_interjection s)" by (rule mcp_ok_logs [OF ok ack_logs])
  with None that show ?thesis by (simp add: processInterjection_def)
next
  case (Some cmd)
  obtain b m where c: "check (me_now en) (ij_FlowID cmd) (ij_Action cmd) (sv_debounce_window s) (sv_debounce s) = (b, m)"
    by force
  define s1 where "s1 = s\<lparr> sv_debounce := m \<rparr>"
  define s2 where "s2 = (if sv_has_state s1
      then snd (client_InsertInterjection en \<lparr> iic_Username = sv_username s1, iic_Interjection = cmd \<rparr> s1) else s1)"
  have ok1: "mcp_ok s1" using ok by (simp add: s1_def mcp_ok_debounce)
  have "only_logs s1 s2" by (simp add: s2_def logs)
  with ok1 have ok2: "mcp_ok s2" by (rule mcp_ok_logs)
  have nstop: "ij_Action cmd \<noteq> InterjectionStop" using ns Some by (simp add: is_stop_def)
  have fin: "mcp_ok (ack_interjection x)" if "mcp_ok x" for x by (rule mcp_ok_logs [OF that ack_logs])
  obtain x where x: "(if ij_Action cmd = InterjectionNote then handleNote cmd s2
       else if ij_Action cmd = InterjectionPause then handleNote (cmd\<lparr> ij_Context := ''Pause requested'' \<rparr>) s2
       else Ret s2) = Ret x" "mcp_ok x"
    using handleNote_ok [OF ok2] ok2 by metis
  have "processInterjection en data s = (if b then and_then
       (if ij_Action cmd = InterjectionStop then handleStop en cmd s2
        else if ij_Action cmd = InterjectionNote then handleNote cmd s2
        else if ij_Action cmd = InterjectionPause then handleNote (cmd\<lparr> ij_Context := ''Pause requested'' \<rparr>) s2
        else Ret s2) (\<lambda>s. Ret (ack_interjection s)) else Ret (ack_interjection s1))"
    by (cases b) (simp_all only: processInterjection_def Some c option.case prod.case bool.case Let_def
        s1_def s2_def if_True if_False)
  then have "processInterjection en data s = (if b then Ret (ack_interjection x) else Ret (ack_interjection s1))"
    unfolding if_not_P [OF nstop] x(1) by simp
  with that fin [OF x(2)] fin [OF ok1] show ?thesis by (cases b) auto
qed

text \<open>Each interjection is acknowledged once, whatever it is; without stops the consumer goes on.\<close>

lemma acked_kept:
  "sv_acked (snd (PublishJSON en subject k m s)) = sv_acked s"
  "sv_acked (snd (client_InsertInterjection en cmd s)) = sv_acked s"
  "sv_acked (ResourceUpdated uri s) = sv_acked s"
  by (simp_all add: PublishJSON_def client_InsertInterjection_def writeRequest_def Let_def ResourceUpdated_def split: option.split)

lemma resolve_all_acked: "resolve_all ts nids s = Ret s' \<Longrightarrow> sv_acked s' = sv_acked s"
proof (induction nids arbitrary: s)
  case (Cons nid nids)
  from Cons.prems obtain s1 where s1: "with_decisions s (ResolveTimeout nid ts (sv_decisions s)) = Ret s1"
    "resolve_all ts nids (ResourceUpdated (DecisionResourceURI nid) s1) = Ret s'" by auto
  from s1(1) have "sv_acked s1 = sv_acked s" by (auto simp: with_decisions_def)
  with Cons.IH [OF s1(2)] show ?case by (simp add: acked_kept)
qed simp

lemma handleNote_acked: "handleNote cmd s = Ret s' \<Longrightarrow> sv_acked s' = sv_acked s"
  by (auto simp: handleNote_def with_interjections_def acked_kept)

lemma handleStop_acked: "handleStop en cmd s = Ret s' \<Longrightarrow> sv_acked s' = sv_acked s"
  by (auto simp: handleStop_def with_interjections_def Let_def resolveDecisionsForFlow_def acked_kept dest!: resolve_all_acked)

lemma processInterjection_acked: "processInterjection en data s = Ret s' \<Longrightarrow> sv_acked s' = Suc (sv_acked s)"
  by (auto simp: processInterjection_def Let_def ack_interjection_def acked_kept dest!: handleNote_acked handleStop_acked
      split: option.splits prod.splits bool.splits if_splits)

lemma interjections_consumed:
  assumes "mcp_ok s" and "\<forall>(en, data) \<in> set ms. \<not> is_stop data"
  shows "\<exists>s'. consumeInterjections (map (\<lambda>(en, data). Next_interjection en data) ms) s = Ret (False, s')
     \<and> mcp_ok s' \<and> sv_acked s' = sv_acked s + length ms"
proof -
  have "\<exists>s'. consume_messages (map (\<lambda>(en, data). Next_interjection en data) ms) s = Ret (False, s')
     \<and> mcp_ok s' \<and> sv_acked s' = sv_acked s + length ms" if "mcp_ok s" for s
    using that assms(2)
  proof (induction ms arbitrary: s)
    case (Cons m ms)
    obtain en data where m: "m = (en, data)" by force
    obtain s1 where s1: "processInterjection en data s = Ret s1" "mcp_ok s1"
      by (rule processInterjection_ok [OF Cons.prems(1), of data en]) (use Cons.prems(2) m in auto)
    with Cons.IH [OF s1(2)] Cons.prems(2) processInterjection_acked [OF s1(1)] show ?case by (auto simp: m)
  qed simp
  moreover have "mcp_ok (s\<lparr> sv_debounce := [] \<rparr>)" using assms(1) by (rule mcp_ok_debounce)
  ultimately show ?thesis unfolding consumeInterjections_def by fastforce
qed

lemma handle_next_ok:
  assumes ok: "mcp_ok s"
  shows "\<exists>s'. handle_next en n s = Ret s' \<and> mcp_ok s'"
proof (cases "gm_get (sv_goroutines s) n")
  case (Some g)
  show ?thesis
  proof (cases "sg_inbox g")
    case (Cons data q)
    obtain s' where "handle_next en n s = Ret s'" "mcp_ok s'"
      by (rule handle_next_result [OF ok Some Cons, of en], rule that, assumption+)
    then show ?thesis by blast
  qed (use ok Some in \<open>simp add: handle_next_def\<close>)
qed (use ok in \<open>simp add: handle_next_def\<close>)

lemma step_ok:
  assumes "mcp_step stops s r" and "\<not> stops" and ok: "mcp_ok s"
  shows "\<exists>s'. r = Ret s' \<and> mcp_ok s'"
  using assms(1)
proof cases
  case (handle en n)
  with handle_next_ok [OF ok] show ?thesis by blast
next
  case (interject data en)
  with assms(2) processInterjection_ok [OF ok, of data en] show ?thesis by blast
next
  case (deliver fid data)
  have "sv_interjections (deliver_response fid data s) = sv_interjections s" by (simp add: deliver_response_def)
  with mcp_ok_core [OF ok deliver_core] ok deliver show ?thesis by (simp add: mcp_ok_def)
qed (use ok in \<open>simp_all add: mcp_ok_ask mcp_ok_post mcp_ok_register mcp_ok_refresh mcp_ok_terminate
      mcp_ok_check await_interjection_state mcp_ok_subscribe mcp_ok_ended mcp_ok_fires timer_resolved_def mcp_ok_timers\<close>)

lemma run_ok: "mcp_run False s0 r \<Longrightarrow> mcp_ok s0 \<Longrightarrow> \<exists>s. r = Ret s \<and> mcp_ok s"
proof (induction rule: mcp_run.induct)
  case (step s r)
  then show ?case using step_ok [of False s r] by auto
qed auto

section \<open>Properties\<close>

lemma mcp_ok_new: "mcp_ok (new_Server u d t w)"
  by (simp add: mcp_ok_def new_Server_def keeps watched_def task_of_def)

text \<open>
  C7 (safety): the server never panics as long as nobody sends a stop. In every run from a new
  server, through any interleaving of tool calls, subscriber goroutines, timers, responses and
  interjections other than stop, no channel is closed twice, and a decision is taken exactly
  when its channel is closed.
\<close>

theorem mcp_never_panics:
  assumes "mcp_run False (new_Server u d t w) r"
  shows "\<exists>s. r = Ret s \<and> (\<forall>nid res ch. Get_decision nid (sv_decisions s) = Some res \<longrightarrow>
      Resolved nid (sv_decisions s) = Some ch \<longrightarrow> (dr_Decided res \<longleftrightarrow> is_closed ch (ds_chans (sv_decisions s))))"
proof -
  from run_ok [OF assms mcp_ok_new] obtain s where r: "r = Ret s" and ok: "mcp_ok s" by blast
  have "dr_Decided res \<longleftrightarrow> is_closed ch (ds_chans (sv_decisions s))"
    if "Get_decision nid (sv_decisions s) = Some res" "Resolved nid (sv_decisions s) = Some ch" for nid res ch
    using decisions_okD [of "sv_decisions s" nid res] ok that
    by (auto simp: mcp_ok_def Get_decision_def Resolved_def resource_of_def channel_of_def)
  with r show ?thesis by blast
qed

definition a_menv :: menv where
  "a_menv = \<lparr> me_now = 978307200 * second, me_id = ''ntf_1'', me_reply = (\<lambda>_ _. None), me_js_ok = (\<lambda>_. True),
     me_order = (\<lambda>xs. xs), me_sha256 = (\<lambda>_. []) \<rparr>"

definition a_mcp :: Server where
  "a_mcp = new_Server ''alice'' ''dn_1'' (300 * second) second"

theorem mcp_never_panics_witness:
  "\<exists>s. and_then (handle_next a_menv 0 a_mcp) Ret = Ret s \<and> Get_decision ''x'' (sv_decisions s) = None"
proof -
  have "handle_next a_menv 0 a_mcp = Ret a_mcp" by (simp add: handle_next_def a_mcp_def new_Server_def)
  moreover have "mcp_run False a_mcp (handle_next a_menv 0 a_mcp)"
    by (rule mcp_run.step [OF mcp_run.start]) (rule mcp_step.handle)
  then have "\<exists>s. handle_next a_menv 0 a_mcp = Ret s" unfolding a_mcp_def by (blast dest: mcp_never_panics)
  ultimately show ?thesis
    by (simp add: Get_decision_def a_mcp_def new_Server_def NewDecisionStore_def)
qed


text \<open>A server with one question open whose goroutine listens.\<close>

definition asked :: Server where
  "asked = subscribe_response True 0 (startResponseSubscriber ''fl_1'' ''ntf_1''
     (a_mcp\<lparr> sv_decisions := Register_decision ''ntf_1'' 5 (sv_decisions a_mcp) \<rparr>))"

definition an_answer :: NotificationResponse where
  "an_answer = zero_resp\<lparr> resp_RequestID := ''ntf_1'', resp_Accepted := Some True, resp_Timestamp := 978307200 * second \<rparr>"

lemma asked_ok: "mcp_ok asked"
  unfolding asked_def
  by (intro mcp_ok_subscribe mcp_ok_asked, rule mcp_ok_new [of "''alice''" "''dn_1''" "300 * second" second, folded a_mcp_def])
    (simp add: a_mcp_def new_Server_def resource_of_def NewDecisionStore_def)

lemma asked_goroutine: "gm_get (sv_goroutines asked) 0 = Some
    \<lparr> sg_notification = ''ntf_1'', sg_flow = ''fl_1'', sg_listening = True, sg_inbox = [], sg_cancelled = False \<rparr>"
  by (simp add: asked_def subscribe_response_def startResponseSubscriber_def a_mcp_def new_Server_def Let_def)

lemma an_answer_decodes: "unmarshal dec_resp (Some (enc_resp an_answer)) = Some an_answer"
  "probe_code (Some (enc_resp an_answer)) = ''''"
proof -
  have "four_digit_year (resp_Timestamp an_answer)" by (simp add: an_answer_def four_digit_year_def)
  from dec_enc_resp [OF this] show "unmarshal dec_resp (Some (enc_resp an_answer)) = Some an_answer"
    by (simp add: unmarshal_def)
  show "probe_code (Some (enc_resp an_answer)) = ''''"
    by (simp add: probe_code_def enc_resp_def e_str_def e_boolp_opt_def e_str_opt_def e_time_def an_answer_def zero_resp_def)
qed


section \<open>What a stop does to open questions\<close>

text \<open>Resolving a list of distinct pending decisions takes them all and leaves the goroutines.\<close>

definition decided_in :: "Server \<Rightarrow> string \<Rightarrow> bool" where
  "decided_in s nid \<longleftrightarrow> (\<exists>r. resource_of (sv_decisions s) nid = Some r \<and> dr_Decided r)"

definition pending_in :: "Server \<Rightarrow> string \<Rightarrow> bool" where
  "pending_in s nid \<longleftrightarrow> (\<exists>r. resource_of (sv_decisions s) nid = Some r \<and> \<not> dr_Decided r)"

lemma resolve_all_decides:
  assumes "decisions_ok (sv_decisions s)" and "distinct nids" and "\<forall>nid \<in> set nids. pending_in s nid"
  shows "\<exists>s'. resolve_all ts nids s = Ret s' \<and> decisions_ok (sv_decisions s') \<and> sv_goroutines s' = sv_goroutines s
     \<and> (\<forall>nid. nid \<in> set nids \<or> decided_in s nid \<longrightarrow> decided_in s' nid)"
  using assms
proof (induction nids arbitrary: s)
  case (Cons nid nids)
  from Cons.prems obtain r where r: "resource_of (sv_decisions s) nid = Some r" "\<not> dr_Decided r"
    by (auto simp: pending_in_def)
  obtain d where d: "ResolveTimeout nid ts (sv_decisions s) = Ret (True, d)" "decisions_ok d"
    "resource_of d = (resource_of (sv_decisions s))(nid \<mapsto> r\<lparr> dr_Decided := True, dr_Timestamp := ts \<rparr>)"
    by (rule ResolveTimeout_pending [OF Cons.prems(1) r])
  define s1 where "s1 = ResourceUpdated (DecisionResourceURI nid) (s\<lparr> sv_decisions := d \<rparr>)"
  have s1: "sv_decisions s1 = d" "sv_goroutines s1 = sv_goroutines s" by (simp_all add: s1_def ResourceUpdated_def)
  have dec: "decided_in s1 i" if "i = nid \<or> decided_in s i" for i
    using that by (auto simp: decided_in_def s1 d(3))
  have "\<forall>i \<in> set nids. pending_in s1 i" using Cons.prems(2,3) by (auto simp: pending_in_def s1 d(3))
  with Cons.IH [of s1] Cons.prems(2) d(2) s1 obtain s' where "resolve_all ts nids s1 = Ret s'"
    "decisions_ok (sv_decisions s')" "sv_goroutines s' = sv_goroutines s"
    "\<forall>i. i \<in> set nids \<or> decided_in s1 i \<longrightarrow> decided_in s' i" by auto
  moreover have "resolve_all ts (nid # nids) s = resolve_all ts nids s1"
    by (simp add: with_decisions_def d(1) s1_def)
  ultimately show ?case using dec by auto
qed simp

lemma pending_ids_sound:
  assumes "decisions_ok (sv_decisions s)"
  shows "distinct (pending_ids (sv_decisions s))" and "nid \<in> set (pending_ids (sv_decisions s)) \<longleftrightarrow> pending_in s nid"
proof -
  have ok: "gm_ok (ds_resources (sv_decisions s))" using assms by (simp add: decisions_ok_def)
  then show "distinct (pending_ids (sv_decisions s))"
    unfolding pending_ids_def gm_ok_def by (rule distinct_map_filter)
  have "nid \<in> set (pending_ids (sv_decisions s)) \<longleftrightarrow> (\<exists>r. (nid, r) \<in> set (ds_resources (sv_decisions s)) \<and> \<not> dr_Decided r)"
    by (force simp: pending_ids_def)
  then show "nid \<in> set (pending_ids (sv_decisions s)) \<longleftrightarrow> pending_in s nid"
    by (simp add: pending_in_def resource_of_def gm_get_in_set [OF ok])
qed

lemma decided_panics:
  assumes "decisions_ok (sv_decisions s)" and "decided_in s (sg_notification g)"
    and "gm_get (sv_goroutines s) n = Some g" and "sg_inbox g = data # q"
    and "probe_code data \<noteq> '''' \<or> unmarshal dec_resp data \<noteq> None"
  shows "handle_next en n s = Panic"
proof -
  let ?nid = "sg_notification g"
  from assms(2) obtain r where r: "resource_of (sv_decisions s) ?nid = Some r" "dr_Decided r" by (auto simp: decided_in_def)
  then have get: "gm_get (ds_resources (sv_decisions s)) ?nid = Some r" by (simp add: resource_of_def)
  have p: "decide ?nid r' (sv_decisions s) = Panic" for r' by (rule decide_decided [OF assms(1) r])
  show ?thesis using assms(3-5)
    by (auto simp: handle_next_def handleResponse_def with_decisions_def ResolveTimeout_def Resolve_def get p)
qed

text \<open>Go ranges over a map in any order.\<close>

definition reorders :: "(string list \<Rightarrow> string list) \<Rightarrow> bool" where
  "reorders f \<longleftrightarrow> (\<forall>xs. mset (f xs) = mset xs)"

lemma handleStop_decides:
  assumes ok: "mcp_ok s" and perm: "reorders (me_order en)"
  shows "\<exists>s'. handleStop en cmd s = Ret s' \<and> decisions_ok (sv_decisions s') \<and> sv_goroutines s' = sv_goroutines s
     \<and> (\<forall>nid. pending_in s nid \<longrightarrow> decided_in s' nid)"
proof -
  let ?fid = "ij_FlowID cmd"
  from ok have "interjections_ok (sv_interjections s)" by (simp add: mcp_ok_def)
  then obtain js where a: "Append ?fid cmd (sv_interjections s) = Ret js" "interjections_ok js" by (rule Append_ok)
  define s1 where "s1 = s\<lparr> sv_interjections := js \<rparr>"
  define s2 where "s2 = snd (PublishJSON en (FlowLifecycleSubject (sv_username s1) ?fid) (?fid @ ''-stopped'')
      (MEvent (flow_event ?fid (sv_daemonID s1) (known_workspace en ?fid s1) FlowFailed (ij_Timestamp cmd))) s1)"
  have lg: "only_logs s1 s2" unfolding s2_def by (rule PublishJSON_logs)
  have s2: "sv_decisions s2 = sv_decisions s" "sv_goroutines s2 = sv_goroutines s"
    using only_logsD(1,3) [OF lg] by (simp_all add: s1_def)
  have dok: "decisions_ok (sv_decisions s2)" using ok by (simp add: mcp_ok_def s2)
  let ?ids = "me_order en (pending_ids (sv_decisions s2))"
  have ms: "mset ?ids = mset (pending_ids (sv_decisions s2))" using perm by (simp add: reorders_def)
  have ids: "set ?ids = set (pending_ids (sv_decisions s2))" by (rule mset_eq_setD [OF ms])
  have "distinct ?ids" using pending_ids_sound(1) [OF dok] mset_eq_imp_distinct_iff [OF ms] by simp
  moreover have "\<forall>nid \<in> set ?ids. pending_in s2 nid" unfolding ids using pending_ids_sound(2) [OF dok] by blast
  ultimately obtain s3 where s3: "resolve_all (ij_Timestamp cmd) ?ids s2 = Ret s3" "decisions_ok (sv_decisions s3)"
    "sv_goroutines s3 = sv_goroutines s2" "\<And>nid. nid \<in> set ?ids \<Longrightarrow> decided_in s3 nid"
    using resolve_all_decides [OF dok] by blast
  have "handleStop en cmd s = Ret (ResourceUpdated (InterjectionResourceURI ?fid) s3)"
    by (simp add: handleStop_def with_interjections_def a resolveDecisionsForFlow_def s3(1) flip: s1_def s2_def)
  moreover have "decided_in s3 nid" if "pending_in s nid" for nid
  proof (rule s3(4))
    from that have "pending_in s2 nid" by (simp add: pending_in_def s2)
    then show "nid \<in> set ?ids" unfolding ids pending_ids_sound(2) [OF dok] .
  qed
  ultimately show ?thesis using s3 s2 by (auto simp: ResourceUpdated_def decided_in_def)
qed

lemma processInterjection_stop:
  assumes ok: "mcp_ok s" and perm: "reorders (me_order en)" and w: "unmarshal dec_ij w = Some cmd"
    and stop: "ij_Action cmd = InterjectionStop"
    and first: "fst (check (me_now en) (ij_FlowID cmd) (ij_Action cmd) (sv_debounce_window s) (sv_debounce s))"
  shows "\<exists>s'. processInterjection en w s = Ret s' \<and> decisions_ok (sv_decisions s') \<and> sv_goroutines s' = sv_goroutines s
     \<and> (\<forall>nid. pending_in s nid \<longrightarrow> decided_in s' nid)"
proof -
  obtain m where c: "check (me_now en) (ij_FlowID cmd) (ij_Action cmd) (sv_debounce_window s) (sv_debounce s) = (True, m)"
    using first by (metis prod.collapse)
  define s1 where "s1 = s\<lparr> sv_debounce := m \<rparr>"
  define s2 where "s2 = (if sv_has_state s1
      then snd (client_InsertInterjection en \<lparr> iic_Username = sv_username s1, iic_Interjection = cmd \<rparr> s1) else s1)"
  have ok1: "mcp_ok s1" using ok by (simp add: s1_def mcp_ok_debounce)
  have lg: "only_logs s1 s2" by (simp add: s2_def logs)
  have ok2: "mcp_ok s2" by (rule mcp_ok_logs [OF ok1 lg])
  have s2: "sv_decisions s2 = sv_decisions s" "sv_goroutines s2 = sv_goroutines s"
    using only_logsD(1,3) [OF lg] by (simp_all add: s1_def)
  obtain s3 where s3: "handleStop en cmd s2 = Ret s3" "decisions_ok (sv_decisions s3)" "sv_goroutines s3 = sv_goroutines s2"
    "\<forall>nid. pending_in s2 nid \<longrightarrow> decided_in s3 nid"
    using handleStop_decides [OF ok2 perm] by blast
  have "processInterjection en w s = and_then (handleStop en cmd s2) (\<lambda>s. Ret (ack_interjection s))"
    unfolding processInterjection_def w c option.case prod.case bool.case Let_def s1_def [symmetric] s2_def [symmetric]
    using stop by simp
  then have "processInterjection en w s = Ret (ack_interjection s3)" using s3(1) by simp
  with s3 s2 show ?thesis by (auto simp: ack_interjection_def decided_in_def pending_in_def)
qed

text \<open>
  C8 (error): after a stop, the answer to a question that was open kills the server. A stop of
  one flow takes every pending decision, also those of other flows, and leaves their goroutines
  listening; when the response to one of them arrives, its goroutine closes the decision's
  channel a second time, which panics.
\<close>

theorem stop_then_answer:
  assumes "mcp_ok s" and "reorders (me_order en)" and "unmarshal dec_ij w = Some cmd" and "ij_Action cmd = InterjectionStop"
    and "fst (check (me_now en) (ij_FlowID cmd) (ij_Action cmd) (sv_debounce_window s) (sv_debounce s))"
    and "gm_get (sv_goroutines s) n = Some g" and "sg_listening g" and "sg_inbox g = []"
    and "probe_code data \<noteq> '''' \<or> unmarshal dec_resp data \<noteq> None"
  shows "\<exists>s'. processInterjection en w s = Ret s'
    \<and> handle_next en' n (deliver_response (sg_flow g) data s') = Panic"
proof -
  obtain s' where s': "processInterjection en w s = Ret s'" "decisions_ok (sv_decisions s')"
    "sv_goroutines s' = sv_goroutines s" "\<forall>nid. pending_in s nid \<longrightarrow> decided_in s' nid"
    using processInterjection_stop [OF assms(1-5)] by blast
  have "task_of s n = Some (sg_notification g)" using assms(6) by (simp add: task_of_def)
  then have "pending_in s (sg_notification g)"
    using assms(1) watchedD(1) unfolding mcp_ok_def pending_in_def by blast
  with s'(4) have dec: "decided_in s' (sg_notification g)" by blast
  let ?s = "deliver_response (sg_flow g) data s'"
  have "handle_next en' n ?s = Panic"
  proof (rule decided_panics)
    show "gm_get (sv_goroutines ?s) n = Some (g\<lparr> sg_inbox := [data] \<rparr>)"
      using assms(6-8) by (simp add: deliver_response_def s'(3) get_mapped [where c = "\<lambda>n h. sg_listening h \<and> sg_flow h = sg_flow g"])
    show "sg_inbox (g\<lparr> sg_inbox := [data] \<rparr>) = data # []" by simp
  qed (use s'(2) dec assms(9) in \<open>simp_all add: deliver_response_def decided_in_def\<close>)
  with s'(1) show ?thesis by blast
qed

text \<open>A stop of another flow than the one whose question is open.\<close>

definition a_stop :: InterjectionCommand where
  "a_stop = zero_ij\<lparr> ij_FlowID := ''fl_2'', ij_Action := InterjectionStop,
     ij_Timestamp := 978307200 * second \<rparr>"

theorem stop_then_answer_witness:
  "\<exists>s'. processInterjection a_menv (Some (enc_ij a_stop)) asked = Ret s'
    \<and> handle_next a_menv 0 (deliver_response ''fl_1'' (Some (enc_resp an_answer)) s') = Panic"
proof -
  have "four_digit_year (ij_Timestamp a_stop)" by (simp add: a_stop_def four_digit_year_def)
  then have "unmarshal dec_ij (Some (enc_ij a_stop)) = Some a_stop" by (simp add: unmarshal_def dec_enc_ij)
  moreover have "fst (check (me_now a_menv) (ij_FlowID a_stop) (ij_Action a_stop) (sv_debounce_window asked) (sv_debounce asked))"
    by (simp add: asked_def subscribe_response_def startResponseSubscriber_def a_mcp_def new_Server_def Let_def check_def)
  ultimately have "\<exists>s'. processInterjection a_menv (Some (enc_ij a_stop)) asked = Ret s'
    \<and> handle_next a_menv 0 (deliver_response (sg_flow \<lparr> sg_notification = ''ntf_1'', sg_flow = ''fl_1'',
        sg_listening = True, sg_inbox = [], sg_cancelled = False \<rparr>) (Some (enc_resp an_answer)) s') = Panic"
    by (intro stop_then_answer [OF asked_ok _ _ _ _ asked_goroutine])
      (simp_all add: reorders_def an_answer_decodes, simp_all add: a_stop_def zero_ij_def a_menv_def)
  then show ?thesis by simp
qed

end
