(* ===== verification/Duration.thy ===== *)
theory Duration
  imports GoDuration Json
begin

text \<open>
  Durations as text: \<^verbatim>\<open>time.ParseDuration\<close> and the JSON and text forms of the type
  \<^verbatim>\<open>Duration\<close> of package config (cli/internal/config/duration.go). The configuration keeps
  every duration as the text that \<^verbatim>\<open>Duration.String\<close> prints, so the theory shows that parsing
  undoes printing for the whole range of \<^verbatim>\<open>int64\<close>.
\<close>

section \<open>time.ParseDuration\<close>

text \<open>Leading digits with the overflow checks of the library; the result is the number and the rest.\<close>

definition digit_val :: "char \<Rightarrow> nat" where
  "digit_val c = of_char c - 48"

fun leading_int :: "nat \<Rightarrow> string \<Rightarrow> (nat \<times> string) option" where
  "leading_int x [] = Some (x, [])"
| "leading_int x (c # s) =
     (if is_digit c then
        (if x > 2 ^ 63 div 10 then None
         else let y = 10 * x + digit_val c in if y > 2 ^ 63 then None else leading_int y s)
      else Some (x, c # s))"

text \<open>Digits after a point: the number, how many digits it has, the rest; digits that would overflow are dropped.\<close>

fun leading_fraction :: "nat \<Rightarrow> nat \<Rightarrow> bool \<Rightarrow> string \<Rightarrow> nat \<times> nat \<times> string" where
  "leading_fraction x k ov [] = (x, k, [])"
| "leading_fraction x k ov (c # s) =
     (if is_digit c then
        (if ov \<or> x > (2 ^ 63 - 1) div 10 then leading_fraction x k True s
         else let y = 10 * x + digit_val c in
           if y > 2 ^ 63 then leading_fraction x k True s else leading_fraction y (Suc k) False s)
      else (x, k, c # s))"

definition unit_of :: "string \<Rightarrow> nat option" where
  "unit_of = map_of [(''ns'', 1), (''us'', 1000), ([CHR 0xC2, CHR 0xB5, CHR ''s''], 1000),
     ([CHR 0xCE, CHR 0xBC, CHR ''s''], 1000), (''ms'', 1000000), (''s'', 1000000000),
     (''m'', 60000000000), (''h'', 3600000000000)]"

definition numeric :: "char \<Rightarrow> bool" where
  "numeric c \<longleftrightarrow> c = CHR ''.'' \<or> is_digit c"

text \<open>
  One number with its unit. \<open>fl f u k\<close> is the float64 computation of \<open>f\<close> times \<open>u\<close> over
  \<open>10 ^ k\<close>, cut to an integer.
\<close>

type_synonym float_mult = "nat \<Rightarrow> nat \<Rightarrow> nat \<Rightarrow> nat"

definition fraction_part :: "string \<Rightarrow> nat \<times> nat \<times> bool \<times> string" where
  "fraction_part s =
     (case s of
        [] \<Rightarrow> (0, 0, False, s)
      | c # r \<Rightarrow>
          if c = CHR ''.'' then (case leading_fraction 0 0 False r of (f, k, r') \<Rightarrow> (f, k, length r' \<noteq> length r, r'))
          else (0, 0, False, s))"

definition number_part :: "string \<Rightarrow> (nat \<times> nat \<times> nat \<times> string) option" where
  "number_part s =
     (case leading_int 0 s of
        None \<Rightarrow> None
      | Some (v, s1) \<Rightarrow>
          (case fraction_part s1 of (f, k, post, s2) \<Rightarrow>
             if length s1 = length s \<and> \<not> post then None else Some (v, f, k, s2)))"

definition unit_part :: "float_mult \<Rightarrow> nat \<Rightarrow> nat \<Rightarrow> nat \<Rightarrow> string \<Rightarrow> (nat \<times> string) option" where
  "unit_part fl v f k s =
     (let u = takeWhile (\<lambda>c. \<not> numeric c) s; r = dropWhile (\<lambda>c. \<not> numeric c) s in
      if u = [] then None
      else case unit_of u of
        None \<Rightarrow> None
      | Some unit \<Rightarrow>
          if v > 2 ^ 63 div unit then None
          else if f > 0 then
            let w = (v * unit + fl f unit k) mod 2 ^ 64 in if w > 2 ^ 63 then None else Some (w, r)
          else Some (v * unit, r))"

definition parse_component :: "float_mult \<Rightarrow> string \<Rightarrow> (nat \<times> string) option" where
  "parse_component fl s =
     (if s = [] \<or> \<not> numeric (hd s) then None
      else case number_part s of None \<Rightarrow> None | Some (v, f, k, r) \<Rightarrow> unit_part fl v f k r)"

lemma leading_int_length: "leading_int x s = Some (v, r) \<Longrightarrow> length r \<le> length s"
  by (induction x s rule: leading_int.induct) (auto simp: Let_def split: if_splits)

lemma leading_fraction_length: "leading_fraction x k ov s = (f, k', r) \<Longrightarrow> length r \<le> length s"
  by (induction x k ov s rule: leading_fraction.induct) (auto simp: Let_def split: if_splits)

lemma dropWhile_shorter: "takeWhile P s \<noteq> [] \<Longrightarrow> length (dropWhile P s) < length s"
  by (cases s) (auto simp: le_imp_less_Suc length_dropWhile_le split: if_splits)

lemma fraction_part_length: "fraction_part s = (f, k, post, r) \<Longrightarrow> length r \<le> length s"
  by (cases s) (auto simp: fraction_part_def split: if_splits prod.splits dest: leading_fraction_length)

lemma number_part_length: "number_part s = Some (v, f, k, r) \<Longrightarrow> length r \<le> length s"
  by (auto simp: number_part_def split: option.splits prod.splits if_splits
      dest!: leading_int_length fraction_part_length)

lemma unit_part_shorter: "unit_part fl v f k s = Some (w, r) \<Longrightarrow> length r < length s"
  using dropWhile_shorter by (auto simp: unit_part_def Let_def split: option.splits if_splits)

lemma parse_component_shorter: "parse_component fl s = Some (w, r) \<Longrightarrow> length r < length s"
  by (auto simp: parse_component_def split: if_splits option.splits
      dest!: number_part_length unit_part_shorter)

text \<open>The components add up in \<^verbatim>\<open>uint64\<close>.\<close>

function parse_components :: "float_mult \<Rightarrow> nat \<Rightarrow> string \<Rightarrow> nat option" where
  "parse_components fl d s =
     (if s = [] then Some d
      else case parse_component fl s of
        None \<Rightarrow> None
      | Some (v, r) \<Rightarrow>
          let d' = (d + v) mod 2 ^ 64 in if d' > 2 ^ 63 then None else parse_components fl d' r)"
  by pat_completeness auto
termination
  by (relation "measure (\<lambda>(_, _, s). length s)") (auto dest: parse_component_shorter)

declare parse_components.simps [simp del]

definition ParseDuration :: "float_mult \<Rightarrow> string \<Rightarrow> duration option" where
  "ParseDuration fl s =
     (let neg = (s \<noteq> [] \<and> hd s = CHR ''-'');
          r = (if s \<noteq> [] \<and> (hd s = CHR ''-'' \<or> hd s = CHR ''+'') then tl s else s)
      in if r = ''0'' then Some 0
         else if r = [] then None
         else case parse_components fl 0 r of
           None \<Rightarrow> None
         | Some d \<Rightarrow> if neg then Some (- int d) else if d > 2 ^ 63 - 1 then None else Some (int d))"

section \<open>Package config, duration.go\<close>

definition Duration_MarshalJSON :: "duration \<Rightarrow> json" where
  "Duration_MarshalJSON d = JStr (duration_string d)"

text \<open>A null leaves the string empty, and the empty string is no duration.\<close>

definition Duration_UnmarshalJSON :: "float_mult \<Rightarrow> json \<Rightarrow> duration option" where
  "Duration_UnmarshalJSON fl v =
     (case v of JNull \<Rightarrow> ParseDuration fl '''' | JStr s \<Rightarrow> ParseDuration fl s | _ \<Rightarrow> None)"

definition Duration_MarshalText :: "duration \<Rightarrow> string" where
  "Duration_MarshalText d = duration_string d"

definition Duration_UnmarshalText :: "float_mult \<Rightarrow> string \<Rightarrow> duration option" where
  "Duration_UnmarshalText fl s = ParseDuration fl s"

section \<open>Parsing undoes printing\<close>

text \<open>What float64 arithmetic gives on the fractions that are printed: all numbers involved are exact.\<close>

definition exact_fraction :: "float_mult \<Rightarrow> bool" where
  "exact_fraction fl \<longleftrightarrow> (\<forall>f u k. f < 10 ^ 9 \<and> k \<le> 9 \<and> u \<le> 10 ^ 9 \<and> 10 ^ k dvd u \<longrightarrow> fl f u k = f * (u div 10 ^ k))"

definition num_from :: "nat \<Rightarrow> string \<Rightarrow> nat" where
  "num_from x ds = foldl (\<lambda>a c. 10 * a + digit_val c) x ds"

lemma num_from_simps [simp]: "num_from x [] = x" "num_from x (c # ds) = num_from (10 * x + digit_val c) ds"
  by (simp_all add: num_from_def)

lemma num_of_from: "num_of ds = num_from 0 ds"
  by (simp add: num_of_def num_from_def digit_val_def)

lemma num_from_mono: "x \<le> num_from x ds"
proof (induction ds arbitrary: x)
  case (Cons c ds)
  have "x \<le> 10 * x + digit_val c" by simp
  also have "\<dots> \<le> num_from (10 * x + digit_val c) ds" by (rule Cons.IH)
  finally show ?case by simp
qed simp

lemma leading_int_digits:
  assumes "list_all is_digit ds" and "num_from x ds \<le> 2 ^ 63" and "rest = [] \<or> \<not> is_digit (hd rest)"
  shows "leading_int x (ds @ rest) = Some (num_from x ds, rest)"
  using assms(1,2)
proof (induction ds arbitrary: x)
  case Nil
  then show ?case using assms(3) by (cases rest) auto
next
  case (Cons c ds)
  have "10 * x + digit_val c \<le> 2 ^ 63" using num_from_mono [of "10 * x + digit_val c" ds] Cons.prems(2) by simp
  then show ?case using Cons by simp
qed

lemma leading_fraction_digits:
  assumes "list_all is_digit ds" and "num_from x ds < 2 ^ 63" and "rest = [] \<or> \<not> is_digit (hd rest)"
  shows "leading_fraction x k False (ds @ rest) = (num_from x ds, k + length ds, rest)"
  using assms(1,2)
proof (induction ds arbitrary: x k)
  case Nil
  then show ?case using assms(3) by (cases rest) auto
next
  case (Cons c ds)
  have "10 * x + digit_val c < 2 ^ 63" using num_from_mono [of "10 * x + digit_val c" ds] Cons.prems(2) by simp
  then show ?case using Cons by simp
qed

lemma nat_text_digits: "list_all is_digit (nat_text n)" "num_from 0 (nat_text n) = n" "nat_text n \<noteq> []"
proof -
  show "list_all is_digit (nat_text n)" by (simp add: nat_text_def digits_are_digits)
  show "num_from 0 (nat_text n) = n" by (simp add: nat_text_def ndigits_bound flip: num_of_from)
  show "nat_text n \<noteq> []" by (subst nat_text_def, subst ndigits.simps) simp
qed

lemma num_of_shift: "num_of (s @ replicate z (CHR ''0'')) = num_of s * 10 ^ z"
  by (induction z) (simp_all add: replicate_append_same [symmetric] num_of_def)

lemma frac_digits_text:
  assumes "0 < v" and "v < 10 ^ prec"
  obtains st where "frac_digits prec v = CHR ''.'' # st" "st \<noteq> []" "list_all is_digit st" "length st \<le> prec"
    "0 < num_of st" "num_of st < 10 ^ prec" "num_of st * 10 ^ (prec - length st) = v"
proof -
  define st where "st = rev (dropWhile (\<lambda>c. c = CHR ''0'') (rev (digits prec v)))"
  obtain z where z: "digits prec v = st @ replicate z (CHR ''0'')"
    using strip_zeros [of "digits prec v" "CHR ''0''"] st_def by metis
  have len: "length st + z = prec" using z length_digits [of prec v] by (metis length_append length_replicate)
  have v: "num_of st * 10 ^ z = v" using num_of_digits [OF assms(2)] unfolding z num_of_shift .
  have pos: "0 < num_of st" using v assms(1) by (cases "num_of st") auto
  have le: "num_of st \<le> v" unfolding v [symmetric] by simp
  show thesis
  proof
    show "frac_digits prec v = CHR ''.'' # st" using assms(1) by (simp add: frac_digits_def st_def)
    show "st \<noteq> []" using pos by (auto simp: num_of_def)
    show "list_all is_digit st" using digits_are_digits [of prec v] z by simp
    show "length st \<le> prec" using len by simp
    show "0 < num_of st" by (rule pos)
    show "num_of st < 10 ^ prec" using le assms(2) by simp
    show "num_of st * 10 ^ (prec - length st) = v" using v len by (metis diff_add_inverse)
  qed
qed

text \<open>A printed component: a number, perhaps a fraction, a unit.\<close>

definition component_ok :: "nat \<Rightarrow> nat \<Rightarrow> string \<Rightarrow> nat \<Rightarrow> bool" where
  "component_ok prec v u unit \<longleftrightarrow> unit_of u = Some unit \<and> 0 < unit \<and> u \<noteq> [] \<and> list_all (\<lambda>c. \<not> numeric c) u
     \<and> v < 10 ^ prec \<and> prec \<le> 9 \<and> (v = 0 \<or> unit = 10 ^ prec)"

lemma unit_split:
  assumes "list_all (\<lambda>c. \<not> numeric c) u" and "rest = [] \<or> numeric (hd rest)"
  shows "takeWhile (\<lambda>c. \<not> numeric c) (u @ rest) = u" and "dropWhile (\<lambda>c. \<not> numeric c) (u @ rest) = rest"
  using assms by (induction u) (cases rest; auto)+


lemma unit_part_printed:
  assumes ok: "component_ok prec v u unit" and rest: "rest = [] \<or> numeric (hd rest)"
    and f: "(f = 0 \<and> v = 0) \<or> (exact_fraction fl \<and> 0 < f \<and> f < 10 ^ prec \<and> k \<le> prec \<and> f * 10 ^ (prec - k) = v \<and> unit = 10 ^ prec)"
    and le: "n * unit + v \<le> 2 ^ 63"
  shows "unit_part fl n f k (u @ rest) = Some (n * unit + v, rest)"
proof -
  have u: "unit_of u = Some unit" "0 < unit" "u \<noteq> []" using ok by (simp_all add: component_ok_def)
  have sp: "takeWhile (\<lambda>c. \<not> numeric c) (u @ rest) = u" "dropWhile (\<lambda>c. \<not> numeric c) (u @ rest) = rest"
    using unit_split [OF _ rest] ok by (simp_all add: component_ok_def)
  have n: "n \<le> 2 ^ 63 div unit" using le u(2) by (simp add: less_eq_div_iff_mult_less_eq)
  show ?thesis
  proof (cases "f = 0")
    case True
    with f have "v = 0" by auto
    with True n u show ?thesis by (simp add: unit_part_def sp Let_def)
  next
    case False
    with f have f': "exact_fraction fl" "0 < f" "f < 10 ^ prec" "k \<le> prec" "f * 10 ^ (prec - k) = v" "unit = 10 ^ prec" by auto
    have p9: "prec \<le> 9" using ok by (simp add: component_ok_def)
    have unit9: "unit \<le> 10 ^ 9" using p9 by (simp add: f'(6) power_increasing del: power_numeral)
    have "f < 10 ^ 9" using f'(3) unit9 f'(6) by simp
    moreover have "10 ^ k dvd unit" using f'(4,6) by (simp add: le_imp_power_dvd)
    ultimately have "fl f unit k = f * (unit div 10 ^ k)"
      using f'(1) f'(4) p9 unit9 by (simp add: exact_fraction_def)
    also have "unit div 10 ^ k = 10 ^ (prec - k)" unfolding f'(6) using f'(4) by (simp add: power_diff)
    finally have "fl f unit k = v" using f'(5) by simp
    with n u f'(2) le show ?thesis by (simp add: unit_part_def sp Let_def)
  qed
qed

lemma parse_component_printed:
  assumes fl: "exact_fraction fl" and ok: "component_ok prec v u unit" and rest: "rest = [] \<or> numeric (hd rest)"
    and le: "n * unit + v \<le> 2 ^ 63"
  shows "parse_component fl (nat_text n @ frac_digits prec v @ u @ rest) = Some (n * unit + v, rest)"
proof -
  have u: "0 < unit" "u \<noteq> []" "list_all (\<lambda>c. \<not> numeric c) u" using ok by (simp_all add: component_ok_def)
  have p: "prec \<le> 9" "v < 10 ^ prec" using ok by (simp_all add: component_ok_def)
  have nu: "u @ rest \<noteq> []" "\<not> is_digit (hd (u @ rest))" "hd (u @ rest) \<noteq> CHR ''.''"
    using u(2,3) by (auto simp: numeric_def hd_append list_all_iff)
  have n63: "n \<le> 2 ^ 63" using le u(1) by (metis add_leD1 le_trans mult_le_mono2 nat_mult_1_right Suc_leI One_nat_def)
  let ?t = "nat_text n"
  have num: "leading_int 0 (?t @ x) = Some (n, x)" if "x = [] \<or> \<not> is_digit (hd x)" for x
    using leading_int_digits [OF nat_text_digits(1) _ that, of 0 n] n63 by (simp add: nat_text_digits)
  have len: "length x \<noteq> length (?t @ x)" for x using nat_text_digits(3) by simp
  have hd: "?t @ x \<noteq> []" "numeric (hd (?t @ x))" for x
    using nat_text_digits(1,3) [of n] by (auto simp: numeric_def list_all_iff)
  show ?thesis
  proof (cases "v = 0")
    case True
    have "number_part (?t @ u @ rest) = Some (n, 0, 0, u @ rest)"
      unfolding number_part_def num [OF disjI2 [OF nu(2)]] using nu len [of "u @ rest"]
      by (cases "u @ rest") (auto simp: fraction_part_def)
    moreover have "unit_part fl n 0 0 (u @ rest) = Some (n * unit + v, rest)"
      by (rule unit_part_printed [OF ok rest _ le]) (use True in simp)
    ultimately show ?thesis using True hd [of "u @ rest"] by (simp add: parse_component_def frac_digits_def)
  next
    case False
    then have v0: "0 < v" by simp
    obtain st where st: "frac_digits prec v = CHR ''.'' # st" "st \<noteq> []" "list_all is_digit st" "length st \<le> prec"
      "0 < num_of st" "num_of st < 10 ^ prec" "num_of st * 10 ^ (prec - length st) = v"
      by (rule frac_digits_text [OF v0 p(2)])
    have "num_from 0 st < 2 ^ 63"
    proof -
      have "num_of st < 10 ^ prec" by (rule st(6))
      also have "(10 :: nat) ^ prec \<le> 10 ^ 9" using p(1) by (intro power_increasing) simp_all
      finally show ?thesis by (simp add: num_of_from)
    qed
    then have lf: "leading_fraction 0 0 False (st @ u @ rest) = (num_of st, length st, u @ rest)"
      using leading_fraction_digits [OF st(3) _ disjI2 [OF nu(2)], of 0 0] by (simp add: num_of_from)
    have dot: "CHR ''.'' # st @ u @ rest = [] \<or> \<not> is_digit (hd (CHR ''.'' # st @ u @ rest))" by (simp add: is_digit_def)
    have "number_part (?t @ CHR ''.'' # st @ u @ rest) = Some (n, num_of st, length st, u @ rest)"
      unfolding number_part_def num [OF dot] using len [of "CHR ''.'' # st @ u @ rest"] st(2) by (simp add: fraction_part_def lf)
    moreover have "unit_part fl n (num_of st) (length st) (u @ rest) = Some (n * unit + v, rest)"
      by (rule unit_part_printed [OF ok rest _ le]) (use fl st ok False in \<open>simp add: component_ok_def\<close>)
    ultimately show ?thesis using hd [of "CHR ''.'' # st @ u @ rest"] by (simp add: parse_component_def st(1))
  qed
qed

lemma parse_components_printed:
  assumes "exact_fraction fl" and "component_ok prec v u unit" and "rest = [] \<or> numeric (hd rest)"
    and "d + (n * unit + v) \<le> 2 ^ 63"
  shows "parse_components fl d (nat_text n @ frac_digits prec v @ u @ rest) = parse_components fl (d + (n * unit + v)) rest"
proof -
  have "n * unit + v \<le> 2 ^ 63" using assms(4) by simp
  from parse_component_printed [OF assms(1-3) this] assms(4) nat_text_digits(3) show ?thesis
    by (subst parse_components.simps) (simp add: Let_def)
qed

text \<open>What \<^verbatim>\<open>Duration.String\<close> prints after the sign.\<close>

definition abs_text :: "nat \<Rightarrow> string" where
  "abs_text u =
     (if u < 1000 then nat_text u @ ''ns''
      else if u < 1000000 then nat_text (u div 1000) @ frac_digits 3 (u mod 1000) @ [CHR 0xC2, CHR 0xB5, CHR ''s'']
      else if u < 1000000000 then nat_text (u div 1000000) @ frac_digits 6 (u mod 1000000) @ ''ms''
      else
        let s = u div 1000000000; m = s div 60; h = m div 60 in
        (if h > 0 then nat_text h @ ''h'' else '''') @ (if m > 0 then nat_text (m mod 60) @ ''m'' else '''')
          @ nat_text (s mod 60) @ frac_digits 9 (u mod 1000000000) @ ''s'')"

lemma duration_string_abs:
  "duration_string d = (if d = 0 then ''0s'' else (if d < 0 then ''-'' else '''') @ abs_text (nat \<bar>d\<bar>))"
  by (simp add: duration_string_def abs_text_def Let_def)

lemma no_fraction: "frac_digits 0 0 = ''''"
  by (simp add: frac_digits_def)

lemma components:
  "component_ok 0 0 ''ns'' 1" "u < 1000 \<Longrightarrow> component_ok 3 u [CHR 0xC2, CHR 0xB5, CHR ''s''] 1000"
  "u < 1000000 \<Longrightarrow> component_ok 6 u ''ms'' 1000000" "u < 1000000000 \<Longrightarrow> component_ok 9 u ''s'' 1000000000"
  "component_ok 0 0 ''m'' 60000000000" "component_ok 0 0 ''h'' 3600000000000"
  by (simp_all add: component_ok_def unit_of_def numeric_def is_digit_def)

lemma numeric_start: "numeric (hd (nat_text n @ x))"
  using nat_text_digits(1,3) [of n] by (auto simp: numeric_def list_all_iff)

lemma parse_abs_text:
  assumes fl: "exact_fraction fl" and u: "0 < u" "u \<le> 2 ^ 63"
  shows "parse_components fl 0 (abs_text u) = Some u"
proof -
  have stop: "parse_components fl d [] = Some d" for d by (subst parse_components.simps) simp
  have fin: "[] = [] \<or> numeric (hd [])" by simp
  note step = parse_components_printed [OF fl]
  consider (ns) "u < 1000" | (us) "1000 \<le> u" "u < 1000000" | (ms) "1000000 \<le> u" "u < 1000000000"
    | (s) "1000000000 \<le> u" by linarith
  then show ?thesis
  proof cases
    case ns
    have "parse_components fl 0 (nat_text u @ frac_digits 0 0 @ ''ns'' @ []) = parse_components fl (0 + (u * 1 + 0)) []"
      by (rule step [OF components(1) fin]) (use u in simp)
    with ns show ?thesis by (simp add: abs_text_def no_fraction stop)
  next
    case us
    have "parse_components fl 0 (nat_text (u div 1000) @ frac_digits 3 (u mod 1000) @ [CHR 0xC2, CHR 0xB5, CHR ''s''] @ [])
        = parse_components fl (0 + (u div 1000 * 1000 + u mod 1000)) []"
      by (rule step [OF components(2) fin]) (use u in simp_all)
    with us show ?thesis by (simp add: abs_text_def stop)
  next
    case ms
    have "parse_components fl 0 (nat_text (u div 1000000) @ frac_digits 6 (u mod 1000000) @ ''ms'' @ [])
        = parse_components fl (0 + (u div 1000000 * 1000000 + u mod 1000000)) []"
      by (rule step [OF components(3) fin]) (use u in simp_all)
    with ms show ?thesis by (simp add: abs_text_def stop)
  next
    case s
    let ?s = "u div 1000000000"
    let ?m = "?s div 60"
    let ?h = "?m div 60"
    let ?st = "nat_text (?s mod 60) @ frac_digits 9 (u mod 1000000000) @ ''s'' @ []"
    let ?mt = "if ?m > 0 then nat_text (?m mod 60) @ frac_digits 0 0 @ ''m'' @ ?st else ?st"
    let ?hd = "?h * 3600000000000"
    let ?md = "?hd + ?m mod 60 * 60000000000"
    let ?sd = "?s mod 60 * 1000000000 + u mod 1000000000"
    have split: "?md + ?sd = u" and bounds: "?hd \<le> u" "?md \<le> u"
    proof -
      have "?h * 60 + ?m mod 60 = ?m" "?m * 60 + ?s mod 60 = ?s" "?s * 1000000000 + u mod 1000000000 = u" by simp_all
      then show "?md + ?sd = u" by linarith
      then show "?hd \<le> u" "?md \<le> u" by linarith+
    qed
    have secs: "parse_components fl ?md ?st = Some u"
    proof -
      have "parse_components fl ?md ?st = parse_components fl (?md + ?sd) []"
        by (rule step [OF components(4) fin]) (use u split in simp_all)
      then show ?thesis by (simp add: split stop)
    qed
    have mins: "parse_components fl ?hd ?mt = Some u"
    proof (cases "?m > 0")
      case True
      have "parse_components fl ?hd (nat_text (?m mod 60) @ frac_digits 0 0 @ ''m'' @ ?st)
          = parse_components fl (?hd + (?m mod 60 * 60000000000 + 0)) ?st"
        by (rule step [OF components(5) disjI2 [OF numeric_start]]) (use bounds u in linarith)
      then show ?thesis using True secs by simp
    next
      case False
      then have "?md = ?hd" by simp
      with secs False show ?thesis by simp
    qed
    have "parse_components fl 0 (if ?h > 0 then nat_text ?h @ frac_digits 0 0 @ ''h'' @ ?mt else ?mt) = Some u"
    proof (cases "?h > 0")
      case True
      have start: "?mt = [] \<or> numeric (hd ?mt)" using numeric_start by (cases "?m > 0") simp_all
      have "parse_components fl 0 (nat_text ?h @ frac_digits 0 0 @ ''h'' @ ?mt)
          = parse_components fl (0 + (?h * 3600000000000 + 0)) ?mt"
        by (rule step [OF components(6) start]) (use bounds u in linarith)
      with mins True show ?thesis by simp
    qed (use mins in simp)
    moreover have "abs_text u = (if ?h > 0 then nat_text ?h @ frac_digits 0 0 @ ''h'' @ ?mt else ?mt)"
      using s by (simp add: abs_text_def Let_def no_fraction)
    ultimately show ?thesis by simp
  qed
qed

definition starts_num :: "string \<Rightarrow> bool" where
  "starts_num s \<longleftrightarrow> (\<exists>n x. s = nat_text n @ x \<and> x \<noteq> [])"

lemma starts_num_text: "starts_num (nat_text n @ c # x)" "starts_num (nat_text n @ f @ c # x)"
  unfolding starts_num_def by blast+

lemma digit_zero: "digit 0 = CHR ''0''"
  by code_simp

lemma abs_text_start:
  assumes "0 < u"
  shows "abs_text u \<noteq> []" and "is_digit (hd (abs_text u))" and "length (abs_text u) \<noteq> 1"
proof -
  have "starts_num (abs_text u)" by (simp add: abs_text_def Let_def starts_num_text)
  then obtain n x where nx: "abs_text u = nat_text n @ x" "x \<noteq> []" by (auto simp: starts_num_def)
  show "abs_text u \<noteq> []" "is_digit (hd (abs_text u))"
    using nat_text_digits(1,3) [of n] nx by (auto simp: list_all_iff)
  have "0 < length (nat_text n)" "0 < length x" using nat_text_digits(3) nx(2) by simp_all
  then show "length (abs_text u) \<noteq> 1" unfolding nx(1) length_append by linarith
qed

lemma Parse_String:
  assumes fl: "exact_fraction fl" and d: "int64 d"
  shows "ParseDuration fl (duration_string d) = Some d"
proof (cases "d = 0")
  case True
  have "parse_components fl 0 (nat_text 0 @ frac_digits 9 0 @ ''s'' @ []) = parse_components fl (0 + (0 * 1000000000 + 0)) []"
    by (rule parse_components_printed [OF fl components(4)]) simp_all
  moreover have "nat_text 0 @ frac_digits 9 0 @ ''s'' @ [] = ''0s''"
    by (simp add: nat_text_def frac_digits_def ndigits.simps digit_zero)
  ultimately have "parse_components fl 0 ''0s'' = parse_components fl 0 []" by (simp only:) simp
  then have "parse_components fl 0 ''0s'' = Some 0" by (simp add: parse_components.simps [of fl 0 "[]"])
  with True show ?thesis by (simp add: ParseDuration_def duration_string_def)
next
  case False
  let ?u = "nat \<bar>d\<bar>"
  have u: "0 < ?u" "?u \<le> 2 ^ 63" using False d by (simp_all add: int64_def nat_le_iff abs_le_iff)
  note p = parse_abs_text [OF fl u] and start = abs_text_start [OF u(1)]
  have c: "hd (abs_text ?u) \<noteq> CHR ''-''" "hd (abs_text ?u) \<noteq> CHR ''+''" "abs_text ?u \<noteq> ''0''"
    using start(2,3) by (auto simp: is_digit_def)
  show ?thesis
  proof (cases "d < 0")
    case True
    then show ?thesis using p start(1) c by (simp add: ParseDuration_def duration_string_abs)
  next
    case pos: False
    have "?u \<le> 2 ^ 63 - 1" using pos d by (simp add: int64_def nat_le_iff)
    with pos False p start(1) c show ?thesis by (simp add: ParseDuration_def duration_string_abs)
  qed
qed


definition exact_mult :: float_mult where
  "exact_mult f u k = f * (u div 10 ^ k)"


end
