(* ===== verification/Paths.thy ===== *)
theory Paths
  imports Prelude
begin

text \<open>
  File paths: \<^verbatim>\<open>filepath.Clean\<close> and \<^verbatim>\<open>filepath.Join\<close> on Unix, and package xdg
  (cli/internal/xdg/paths.go), the places of the configuration and state files.
\<close>

section \<open>path/filepath\<close>

fun split_slash :: "string \<Rightarrow> string list" where
  "split_slash [] = [[]]"
| "split_slash (c # s) =
     (if c = CHR ''/'' then [] # split_slash s
      else case split_slash s of [] \<Rightarrow> [[c]] | w # ws \<Rightarrow> (c # w) # ws)"

fun join_slash :: "string list \<Rightarrow> string" where
  "join_slash [] = []"
| "join_slash [w] = w"
| "join_slash (w # ws) = w @ CHR ''/'' # join_slash ws"

text \<open>The elements that are left, the last one first; \<open>rooted\<close> says whether the path began with a slash.\<close>

fun clean_step :: "bool \<Rightarrow> string \<Rightarrow> string list \<Rightarrow> string list" where
  "clean_step rooted w out =
     (if w = '''' \<or> w = ''.'' then out
      else if w = ''..'' then
        (case out of
           [] \<Rightarrow> if rooted then [] else [''..'']
         | p # ps \<Rightarrow> if p = ''..'' then ''..'' # out else ps)
      else w # out)"

definition filepath_Clean :: "string \<Rightarrow> string" where
  "filepath_Clean p =
     (let rooted = (p \<noteq> [] \<and> hd p = CHR ''/'');
          ws = rev (fold (clean_step rooted) (split_slash p) [])
      in if rooted then CHR ''/'' # join_slash ws else if ws = [] then ''.'' else join_slash ws)"

definition filepath_Join :: "string list \<Rightarrow> string" where
  "filepath_Join es =
     (case filter (\<lambda>e. e \<noteq> '''') es of [] \<Rightarrow> '''' | es' \<Rightarrow> filepath_Clean (join_slash es'))"

section \<open>xdg/paths.go\<close>

text \<open>The environment: two variables, empty when unset, and the home directory.\<close>

record xdg_env =
  xe_config :: string
  xe_state :: string
  xe_home :: string

definition appName :: string where "appName = ''renotify''"

definition ConfigHome :: "xdg_env \<Rightarrow> string" where
  "ConfigHome e = (let base = (if xe_config e = '''' then filepath_Join [xe_home e, ''.config''] else xe_config e)
     in filepath_Join [base, appName])"

definition StateHome :: "xdg_env \<Rightarrow> string" where
  "StateHome e = (let base = (if xe_state e = '''' then filepath_Join [xe_home e, ''.local'', ''state''] else xe_state e)
     in filepath_Join [base, appName])"

definition ConfigFilePath :: "xdg_env \<Rightarrow> string" where
  "ConfigFilePath e = filepath_Join [ConfigHome e, ''settings.json'']"

definition DaemonIDPath :: "xdg_env \<Rightarrow> string" where
  "DaemonIDPath e = filepath_Join [StateHome e, ''daemon_id'']"

definition InternalTokenPath :: "xdg_env \<Rightarrow> string" where
  "InternalTokenPath e = filepath_Join [StateHome e, ''internal_token'']"

definition DBPath :: "xdg_env \<Rightarrow> string" where
  "DBPath e = filepath_Join [StateHome e, ''renotify.db'']"

definition DaemonLogPath :: "xdg_env \<Rightarrow> string" where
  "DaemonLogPath e = filepath_Join [StateHome e, ''daemon.log'']"

definition PIDPath :: "xdg_env \<Rightarrow> string" where
  "PIDPath e = filepath_Join [StateHome e, ''daemon.pid'']"

definition TLSDir :: "xdg_env \<Rightarrow> string" where
  "TLSDir e = filepath_Join [StateHome e, ''tls'']"

definition TLSCertPath :: "xdg_env \<Rightarrow> string" where
  "TLSCertPath e = filepath_Join [TLSDir e, ''cert.pem'']"

definition TLSKeyPath :: "xdg_env \<Rightarrow> string" where
  "TLSKeyPath e = filepath_Join [TLSDir e, ''key.pem'']"

definition PairingDir :: "xdg_env \<Rightarrow> string" where
  "PairingDir e = filepath_Join [StateHome e, ''pairing'']"

definition PairingTokenPath :: "xdg_env \<Rightarrow> string" where
  "PairingTokenPath e = filepath_Join [PairingDir e, ''token'']"

definition PairingUsernamePath :: "xdg_env \<Rightarrow> string" where
  "PairingUsernamePath e = filepath_Join [PairingDir e, ''username'']"

definition DevicesPath :: "xdg_env \<Rightarrow> string" where
  "DevicesPath e = filepath_Join [PairingDir e, ''devices.json'']"

definition JetStreamStoreDir :: "xdg_env \<Rightarrow> string" where
  "JetStreamStoreDir e = filepath_Join [StateHome e, ''jetstream'']"

section \<open>Joining a plain name\<close>

text \<open>A path that is clean already, and a file name in it.\<close>

definition plain :: "string \<Rightarrow> bool" where
  "plain w \<longleftrightarrow> w \<noteq> '''' \<and> w \<noteq> ''.'' \<and> w \<noteq> ''..'' \<and> CHR ''/'' \<notin> set w"

lemma split_slash_word: "CHR ''/'' \<notin> set w \<Longrightarrow> split_slash w = [w]"
  by (induction w) auto

lemma split_slash_not_Nil [simp]: "split_slash s \<noteq> []"
  by (induction s) (auto split: list.split)

lemma split_slash_append: "CHR ''/'' \<notin> set w \<Longrightarrow> split_slash (w @ CHR ''/'' # s) = w # split_slash s"
  by (induction w) auto

lemma split_slash_join:
  "ws \<noteq> [] \<Longrightarrow> \<forall>w \<in> set ws. CHR ''/'' \<notin> set w \<Longrightarrow> split_slash (join_slash ws) = ws"
  by (induction ws rule: join_slash.induct) (auto simp: split_slash_word split_slash_append)

lemma fold_clean_plain: "\<forall>w \<in> set ws. plain w \<Longrightarrow> fold (clean_step r) ws out = rev ws @ out"
  by (induction ws arbitrary: out) (auto simp: plain_def)

text \<open>The directory of plain elements \<open>ws\<close> below the root.\<close>

definition abs_dir :: "string list \<Rightarrow> string" where
  "abs_dir ws = CHR ''/'' # join_slash ws"

lemma split_abs_dir:
  assumes "ws \<noteq> []" and "\<forall>w \<in> set ws. plain w"
  shows "split_slash (abs_dir ws) = [] # ws"
  using assms by (simp add: abs_dir_def split_slash_join plain_def)

lemma clean_abs_dir:
  assumes "ws \<noteq> []" and "\<forall>w \<in> set ws. plain w"
  shows "filepath_Clean (abs_dir ws) = abs_dir ws"
  using fold_clean_plain [OF assms(2), of True "[]"]
  by (simp add: filepath_Clean_def split_abs_dir [OF assms] Let_def) (simp add: abs_dir_def)

lemma join_slash_snoc: "ws \<noteq> [] \<Longrightarrow> join_slash (ws @ [w]) = join_slash ws @ CHR ''/'' # w"
  by (induction ws rule: join_slash.induct) auto

lemma Join_plain:
  assumes "ws \<noteq> []" and "\<forall>w \<in> set ws. plain w" and "plain w"
  shows "filepath_Join [abs_dir ws, w] = abs_dir (ws @ [w])"
proof -
  have "join_slash [abs_dir ws, w] = abs_dir (ws @ [w])"
    using join_slash_snoc [OF assms(1)] by (simp add: abs_dir_def)
  moreover have "filepath_Clean (abs_dir (ws @ [w])) = abs_dir (ws @ [w])"
    using assms(2,3) by (intro clean_abs_dir) auto
  moreover have "abs_dir ws \<noteq> ''''" "w \<noteq> ''''" using assms(3) by (simp_all add: abs_dir_def plain_def)
  ultimately show ?thesis by (simp add: filepath_Join_def)
qed

lemma abs_dir_inj:
  assumes "ws \<noteq> []" "\<forall>w \<in> set ws. plain w" and "vs \<noteq> []" "\<forall>v \<in> set vs. plain v"
  shows "abs_dir ws = abs_dir vs \<longleftrightarrow> ws = vs"
  by (metis list.inject split_abs_dir [OF assms(1,2)] split_abs_dir [OF assms(3,4)])

end
