(* ===== verification/Config.thy ===== *)
theory Config
  imports Duration Paths Broker
begin

text \<open>
  Package config (cli/internal/config): the settings with their compiled defaults, their
  validation, and the registry of parameters through which they reach Viper. Viper itself, which
  merges the settings file, the environment and the defaults, is not modelled; what the package
  hands to it and how it reads a value back are.
\<close>

section \<open>config.go: the settings\<close>

record BrokerConfig =
  bc_Enabled :: bool
  bc_TCPHost :: string
  bc_TCPPort :: int
  bc_WSSHost :: string
  bc_WSSPort :: int
  bc_CertFile :: string
  bc_KeyFile :: string

record MCPConfig =
  mc_Enabled :: bool
  mc_Host :: string
  mc_Port :: int

record SharedBrokerConfig =
  sb_URL :: string
  sb_Username :: string
  sb_Password :: string
  sb_Token :: string
  sb_TLSEnabled :: bool
  sb_CACert :: string
  sb_ClientCert :: string
  sb_ClientKey :: string

record RateLimitConfig =
  rl_NotificationsPerMinute :: int

record ReapingConfig =
  rp_GracePeriod :: duration
  rp_Interval :: duration

record TimeoutConfig =
  to_DefaultAskTimeout :: duration
  to_AskGracePeriod :: duration

record HeartbeatConfig =
  hc_Interval :: duration

record InterjectionConfig =
  ic_DebounceWindow :: duration

record DevicePresenceConfig =
  dp_StaleThreshold :: duration
  dp_HeartbeatInterval :: duration

record DaemonConfig =
  dc_Foreground :: bool
  dc_LogLevel :: string
  dc_LogFile :: string
  dc_DBPath :: string

record Config =
  cf_Username :: string
  cf_Broker :: BrokerConfig
  cf_MCP :: MCPConfig
  cf_JetStream :: JetStreamConfig
  cf_SharedBroker :: SharedBrokerConfig
  cf_RateLimit :: RateLimitConfig
  cf_Reaping :: ReapingConfig
  cf_Timeout :: TimeoutConfig
  cf_Heartbeat :: HeartbeatConfig
  cf_Interjection :: InterjectionConfig
  cf_DevicePresence :: DevicePresenceConfig
  cf_Daemon :: DaemonConfig

text \<open>The current user, when the system knows one.\<close>

definition defaultUsername :: "string option \<Rightarrow> string" where
  "defaultUsername u = (case u of None \<Rightarrow> '''' | Some n \<Rightarrow> n)"

definition Default :: "xdg_env \<Rightarrow> string option \<Rightarrow> Config" where
  "Default e u =
     \<lparr> cf_Username = defaultUsername u,
       cf_Broker = \<lparr> bc_Enabled = True, bc_TCPHost = ''127.0.0.1'', bc_TCPPort = 4222, bc_WSSHost = ''0.0.0.0'',
         bc_WSSPort = 4223, bc_CertFile = TLSCertPath e, bc_KeyFile = TLSKeyPath e \<rparr>,
       cf_MCP = \<lparr> mc_Enabled = True, mc_Host = ''127.0.0.1'', mc_Port = 4224 \<rparr>,
       cf_JetStream = \<lparr> js_MaxAge = 30 * minute, js_MaxBytes = 134217728, js_MaxMsgSize = 65536,
         js_MaxMsgsPerSubj = 1000, js_DupWindow = 2 * minute \<rparr>,
       cf_SharedBroker = \<lparr> sb_URL = '''', sb_Username = '''', sb_Password = '''', sb_Token = '''',
         sb_TLSEnabled = False, sb_CACert = '''', sb_ClientCert = '''', sb_ClientKey = '''' \<rparr>,
       cf_RateLimit = \<lparr> rl_NotificationsPerMinute = 60 \<rparr>,
       cf_Reaping = \<lparr> rp_GracePeriod = 15 * minute, rp_Interval = 30 * second \<rparr>,
       cf_Timeout = \<lparr> to_DefaultAskTimeout = 5 * minute, to_AskGracePeriod = 30 * second \<rparr>,
       cf_Heartbeat = \<lparr> hc_Interval = 30 * second \<rparr>,
       cf_Interjection = \<lparr> ic_DebounceWindow = 5 * second \<rparr>,
       cf_DevicePresence = \<lparr> dp_StaleThreshold = 2 * minute, dp_HeartbeatInterval = 30 * second \<rparr>,
       cf_Daemon = \<lparr> dc_Foreground = False, dc_LogLevel = ''info'', dc_LogFile = DaemonLogPath e, dc_DBPath = DBPath e \<rparr> \<rparr>"

section \<open>config.go: validation\<close>

datatype config_error =
    Username_required
  | Tcp_port_range int | Wss_port_range int | Wss_port_taken
  | Shared_url_required | Shared_auth_exclusive
  | Mcp_port_range int | Mcp_port_tcp | Mcp_port_wss
  | Max_age | Max_bytes | Max_msg_size int | Max_msgs_per_subj | Dup_window | Dup_window_exceeds
  | Rate_limit | Grace_period | Reaping_interval | Ask_timeout | Ask_grace
  | Heartbeat_interval | Debounce_window | Stale_threshold | Device_heartbeat
  | Log_level string

text \<open>The checks in the order of the source; the first that fails is the error.\<close>

definition rules :: "Config \<Rightarrow> (bool \<times> config_error) list" where
  "rules c =
     (let b = cf_Broker c; sb = cf_SharedBroker c; m = cf_MCP c; js = cf_JetStream c in
      [(cf_Username c = '''', Username_required),
       (bc_TCPPort b < 1 \<or> bc_TCPPort b > 65535, Tcp_port_range (bc_TCPPort b)),
       (bc_WSSPort b < 1 \<or> bc_WSSPort b > 65535, Wss_port_range (bc_WSSPort b)),
       (bc_TCPPort b = bc_WSSPort b, Wss_port_taken),
       (\<not> bc_Enabled b \<and> sb_URL sb = '''', Shared_url_required),
       (sb_Username sb \<noteq> '''' \<and> sb_Token sb \<noteq> '''', Shared_auth_exclusive),
       (mc_Port m < 1 \<or> mc_Port m > 65535, Mcp_port_range (mc_Port m)),
       (mc_Enabled m \<and> mc_Port m = bc_TCPPort b, Mcp_port_tcp),
       (mc_Enabled m \<and> mc_Port m = bc_WSSPort b, Mcp_port_wss),
       (js_MaxAge js \<le> 0, Max_age),
       (js_MaxBytes js \<le> 0, Max_bytes),
       (js_MaxMsgSize js < 1 \<or> js_MaxMsgSize js > 1048576, Max_msg_size (js_MaxMsgSize js)),
       (js_MaxMsgsPerSubj js \<le> 0, Max_msgs_per_subj),
       (js_DupWindow js \<le> 0, Dup_window),
       (js_DupWindow js > js_MaxAge js, Dup_window_exceeds),
       (rl_NotificationsPerMinute (cf_RateLimit c) \<le> 0, Rate_limit),
       (rp_GracePeriod (cf_Reaping c) < minute, Grace_period),
       (rp_Interval (cf_Reaping c) < 5 * second, Reaping_interval),
       (to_DefaultAskTimeout (cf_Timeout c) \<le> 0, Ask_timeout),
       (to_AskGracePeriod (cf_Timeout c) \<le> 0, Ask_grace),
       (hc_Interval (cf_Heartbeat c) < 5 * second, Heartbeat_interval),
       (ic_DebounceWindow (cf_Interjection c) < second, Debounce_window),
       (dp_StaleThreshold (cf_DevicePresence c) < 10 * second, Stale_threshold),
       (dp_HeartbeatInterval (cf_DevicePresence c) < 5 * second, Device_heartbeat),
       (dc_LogLevel (cf_Daemon c) \<notin> {''debug'', ''info'', ''warn'', ''error''}, Log_level (dc_LogLevel (cf_Daemon c)))])"

definition Validate :: "Config \<Rightarrow> config_error option" where
  "Validate c = map_option snd (find fst (rules c))"

section \<open>registry.go\<close>

datatype config_value = CStr string | CBool bool | CInt int | CDuration duration

record ParamInfo =
  pi_Key :: string
  pi_Type :: string
  pi_EnvVar :: string
  pi_Description :: string
  pi_Resolve :: "Config \<Rightarrow> config_value"

definition param :: "string \<Rightarrow> string \<Rightarrow> string \<Rightarrow> string \<Rightarrow> (Config \<Rightarrow> config_value) \<Rightarrow> ParamInfo" where
  "param k t v d r = \<lparr> pi_Key = k, pi_Type = t, pi_EnvVar = v, pi_Description = d, pi_Resolve = r \<rparr>"

fun value_text :: "config_value \<Rightarrow> string" where
  "value_text (CStr s) = s"
| "value_text (CBool b) = (if b then ''true'' else ''false'')"
| "value_text (CInt i) = itoa i"
| "value_text (CDuration d) = duration_string d"

definition FormatDefault :: "ParamInfo \<Rightarrow> Config \<Rightarrow> string" where
  "FormatDefault p cfg = value_text (pi_Resolve p cfg)"

text \<open>The registry is one list; it is defined in two parts.\<close>

definition registry_services :: "ParamInfo list" where
  "registry_services =
    [param ''username'' ''string'' ''RENOTIFY_USERNAME''
       ''NATS auth identity (default: system username)'' (\<lambda>c. CStr (cf_Username c)),
     param ''broker.enabled'' ''bool'' ''RENOTIFY_BROKER_ENABLED''
       ''enable embedded NATS broker'' (\<lambda>c. CBool (bc_Enabled (cf_Broker c))),
     param ''broker.tcp_host'' ''string'' ''RENOTIFY_BROKER_TCP_HOST''
       ''TCP listener bind address'' (\<lambda>c. CStr (bc_TCPHost (cf_Broker c))),
     param ''broker.tcp_port'' ''int'' ''RENOTIFY_BROKER_TCP_PORT''
       ''TCP listener port'' (\<lambda>c. CInt (bc_TCPPort (cf_Broker c))),
     param ''broker.wss_host'' ''string'' ''RENOTIFY_BROKER_WSS_HOST''
       ''WSS listener bind address'' (\<lambda>c. CStr (bc_WSSHost (cf_Broker c))),
     param ''broker.wss_port'' ''int'' ''RENOTIFY_BROKER_WSS_PORT''
       ''WSS listener port (mobile app)'' (\<lambda>c. CInt (bc_WSSPort (cf_Broker c))),
     param ''broker.cert_file'' ''filepath'' ''RENOTIFY_BROKER_CERT_FILE''
       ''TLS certificate path (PEM)'' (\<lambda>c. CStr (bc_CertFile (cf_Broker c))),
     param ''broker.key_file'' ''filepath'' ''RENOTIFY_BROKER_KEY_FILE''
       ''TLS private key path (PEM)'' (\<lambda>c. CStr (bc_KeyFile (cf_Broker c))),
     param ''mcp.enabled'' ''bool'' ''RENOTIFY_MCP_ENABLED''
       ''enable MCP server'' (\<lambda>c. CBool (mc_Enabled (cf_MCP c))),
     param ''mcp.host'' ''string'' ''RENOTIFY_MCP_HOST''
       ''MCP/HTTP listener bind address'' (\<lambda>c. CStr (mc_Host (cf_MCP c))),
     param ''mcp.port'' ''int'' ''RENOTIFY_MCP_PORT''
       ''MCP/HTTP listener port'' (\<lambda>c. CInt (mc_Port (cf_MCP c))),
     param ''jetstream.max_age'' ''duration'' ''RENOTIFY_JETSTREAM_MAX_AGE''
       ''message TTL'' (\<lambda>c. CDuration (js_MaxAge (cf_JetStream c))),
     param ''jetstream.max_bytes'' ''int64'' ''RENOTIFY_JETSTREAM_MAX_BYTES''
       ''total stream memory cap (bytes)'' (\<lambda>c. CInt (js_MaxBytes (cf_JetStream c))),
     param ''jetstream.max_msg_size'' ''int32'' ''RENOTIFY_JETSTREAM_MAX_MSG_SIZE''
       ''per-message size limit (bytes)'' (\<lambda>c. CInt (js_MaxMsgSize (cf_JetStream c))),
     param ''jetstream.max_msgs_per_subj'' ''int64'' ''RENOTIFY_JETSTREAM_MAX_MSGS_PER_SUBJ''
       ''max messages per subject'' (\<lambda>c. CInt (js_MaxMsgsPerSubj (cf_JetStream c))),
     param ''jetstream.dup_window'' ''duration'' ''RENOTIFY_JETSTREAM_DUP_WINDOW''
       ''deduplication window'' (\<lambda>c. CDuration (js_DupWindow (cf_JetStream c))),
     param ''shared_broker.url'' ''string'' ''RENOTIFY_SHARED_BROKER_URL''
       ''external NATS broker URL'' (\<lambda>c. CStr (sb_URL (cf_SharedBroker c))),
     param ''shared_broker.tls_enabled'' ''bool'' ''RENOTIFY_SHARED_BROKER_TLS_ENABLED''
       ''enable TLS for shared broker'' (\<lambda>c. CBool (sb_TLSEnabled (cf_SharedBroker c)))]"

definition registry_runtime :: "ParamInfo list" where
  "registry_runtime =
    [param ''rate_limit.notifications_per_minute'' ''int'' ''RENOTIFY_RATE_LIMIT_NOTIFICATIONS_PER_MINUTE''
       ''per-flow notification rate limit'' (\<lambda>c. CInt (rl_NotificationsPerMinute (cf_RateLimit c))),
     param ''reaping.grace_period'' ''duration'' ''RENOTIFY_REAPING_GRACE_PERIOD''
       ''inactivity before stale flow is reaped'' (\<lambda>c. CDuration (rp_GracePeriod (cf_Reaping c))),
     param ''reaping.interval'' ''duration'' ''RENOTIFY_REAPING_INTERVAL''
       ''how often the stale flow reaper runs'' (\<lambda>c. CDuration (rp_Interval (cf_Reaping c))),
     param ''timeout.default_ask_timeout'' ''duration'' ''RENOTIFY_TIMEOUT_DEFAULT_ASK_TIMEOUT''
       ''default blocking ask timeout'' (\<lambda>c. CDuration (to_DefaultAskTimeout (cf_Timeout c))),
     param ''timeout.ask_grace_period'' ''duration'' ''RENOTIFY_TIMEOUT_ASK_GRACE_PERIOD''
       ''CLI safety timeout grace period beyond ask timeout'' (\<lambda>c. CDuration (to_AskGracePeriod (cf_Timeout c))),
     param ''heartbeat.interval'' ''duration'' ''RENOTIFY_HEARTBEAT_INTERVAL''
       ''daemon heartbeat publish interval'' (\<lambda>c. CDuration (hc_Interval (cf_Heartbeat c))),
     param ''interjection.debounce_window'' ''duration'' ''RENOTIFY_INTERJECTION_DEBOUNCE_WINDOW''
       ''interjection dedup window'' (\<lambda>c. CDuration (ic_DebounceWindow (cf_Interjection c))),
     param ''device_presence.stale_threshold'' ''duration'' ''RENOTIFY_DEVICE_PRESENCE_STALE_THRESHOLD''
       ''duration after last heartbeat before device is offline'' (\<lambda>c. CDuration (dp_StaleThreshold (cf_DevicePresence c))),
     param ''device_presence.heartbeat_interval'' ''duration'' ''RENOTIFY_DEVICE_PRESENCE_HEARTBEAT_INTERVAL''
       ''heartbeat interval communicated to mobile app'' (\<lambda>c. CDuration (dp_HeartbeatInterval (cf_DevicePresence c))),
     param ''daemon.foreground'' ''bool'' ''RENOTIFY_DAEMON_FOREGROUND''
       ''run daemon in foreground'' (\<lambda>c. CBool (dc_Foreground (cf_Daemon c))),
     param ''daemon.log_level'' ''string'' ''RENOTIFY_DAEMON_LOG_LEVEL''
       ''log level: debug, info, warn, error'' (\<lambda>c. CStr (dc_LogLevel (cf_Daemon c))),
     param ''daemon.log_file'' ''filepath'' ''RENOTIFY_DAEMON_LOG_FILE''
       ''log file path (background mode)'' (\<lambda>c. CStr (dc_LogFile (cf_Daemon c))),
     param ''daemon.db_path'' ''filepath'' ''RENOTIFY_DAEMON_DB_PATH''
       ''SQLite ledger database path'' (\<lambda>c. CStr (dc_DBPath (cf_Daemon c)))]"

definition ConfigRegistry :: "ParamInfo list" where
  "ConfigRegistry = registry_services @ registry_runtime"

lemmas registry_defs = ConfigRegistry_def registry_services_def registry_runtime_def

section \<open>load.go\<close>

text \<open>What \<^verbatim>\<open>setDefaults\<close> gives to Viper: durations as text.\<close>

definition viper_default :: "config_value \<Rightarrow> config_value" where
  "viper_default v = (case v of CDuration d \<Rightarrow> CStr (duration_string d) | _ \<Rightarrow> v)"

definition setDefaults :: "Config \<Rightarrow> (string \<times> config_value) list" where
  "setDefaults cfg = map (\<lambda>p. (pi_Key p, viper_default (pi_Resolve p cfg))) ConfigRegistry"

text \<open>
  The decode hook: a string for a field of type \<^verbatim>\<open>Duration\<close> is parsed, everything else passes.
  \<open>dur\<close> says whether the field is a \<^verbatim>\<open>Duration\<close>; the error is \<^const>\<open>None\<close>.
\<close>

definition stringToDurationHook :: "float_mult \<Rightarrow> bool \<Rightarrow> config_value \<Rightarrow> config_value option" where
  "stringToDurationHook fl dur v =
     (case v of
        CStr s \<Rightarrow> if dur then map_option CDuration (ParseDuration fl s) else Some v
      | _ \<Rightarrow> Some v)"

section \<open>Laws\<close>

text \<open>The settings the daemon can run with, said declaratively.\<close>

definition valid_config :: "Config \<Rightarrow> bool" where
  "valid_config c \<longleftrightarrow>
     (let b = cf_Broker c; sb = cf_SharedBroker c; m = cf_MCP c; js = cf_JetStream c;
          ports = [bc_TCPPort b, bc_WSSPort b] in
      cf_Username c \<noteq> '''' \<and> set (mc_Port m # ports) \<subseteq> {1..65535}
      \<and> distinct (if mc_Enabled m then mc_Port m # ports else ports)
      \<and> (bc_Enabled b \<or> sb_URL sb \<noteq> '''') \<and> (sb_Username sb = '''' \<or> sb_Token sb = '''')
      \<and> 0 < js_DupWindow js \<and> js_DupWindow js \<le> js_MaxAge js
      \<and> 0 < js_MaxBytes js \<and> js_MaxMsgSize js \<in> {1..1048576} \<and> 0 < js_MaxMsgsPerSubj js
      \<and> 0 < rl_NotificationsPerMinute (cf_RateLimit c)
      \<and> minute \<le> rp_GracePeriod (cf_Reaping c) \<and> 5 * second \<le> rp_Interval (cf_Reaping c)
      \<and> 0 < to_DefaultAskTimeout (cf_Timeout c) \<and> 0 < to_AskGracePeriod (cf_Timeout c)
      \<and> 5 * second \<le> hc_Interval (cf_Heartbeat c) \<and> second \<le> ic_DebounceWindow (cf_Interjection c)
      \<and> 10 * second \<le> dp_StaleThreshold (cf_DevicePresence c)
      \<and> 5 * second \<le> dp_HeartbeatInterval (cf_DevicePresence c)
      \<and> dc_LogLevel (cf_Daemon c) \<in> {''debug'', ''info'', ''warn'', ''error''})"

lemma Validate_None: "Validate c = None \<longleftrightarrow> (\<forall>(bad, e) \<in> set (rules c). \<not> bad)"
  by (auto simp: Validate_def find_None_iff)

lemma Validate_valid: "Validate c = None \<longleftrightarrow> valid_config c"
  unfolding Validate_None rules_def valid_config_def Let_def
  by (simp add: not_le not_less) (auto simp: not_le not_less)

lemma Default_valid: "valid_config (Default e u) \<longleftrightarrow> defaultUsername u \<noteq> ''''"
  by (simp add: valid_config_def Default_def)

text \<open>
  Validation accepts exactly the settings the daemon can run with: ports in range
  and, where used, pairwise different, an address for a shared broker, one way to log in to it, a
  duplicate window inside the retention of the stream it creates, all intervals above their floors,
  a known log level. The compiled defaults pass exactly when the system knows the user's name.
\<close>

theorem config_validate:
  "(Validate c = None \<longleftrightarrow> valid_config c)
    \<and> (Validate (Default e u) = None \<longleftrightarrow> defaultUsername u \<noteq> '''')
    \<and> (Validate c = None \<longrightarrow>
         0 < sc_Duplicates (streamConfig (cf_JetStream c)) \<and> sc_Duplicates (streamConfig (cf_JetStream c)) \<le> sc_MaxAge (streamConfig (cf_JetStream c)))"
  unfolding Validate_valid Default_valid by (auto simp: valid_config_def streamConfig_def Let_def)

definition a_config :: Config where
  "a_config = Default \<lparr> xe_config = '''', xe_state = '''', xe_home = ''/home/alice'' \<rparr> (Some ''alice'')"

theorem config_validate_witness:
  "Validate a_config = None \<and> valid_config a_config
    \<and> sc_Duplicates (streamConfig (cf_JetStream a_config)) \<le> sc_MaxAge (streamConfig (cf_JetStream a_config))"
  using config_validate [of a_config "\<lparr> xe_config = '''', xe_state = '''', xe_home = ''/home/alice'' \<rparr>" "Some ''alice''",
      folded a_config_def]
  by (elim conjE) (simp add: defaultUsername_def)

text \<open>The variable Viper looks up for a key: the prefix, upper case, dots as underscores.\<close>

definition env_char :: "char \<Rightarrow> char" where
  "env_char c = (case map_of (zip ''abcdefghijklmnopqrstuvwxyz.'' ''ABCDEFGHIJKLMNOPQRSTUVWXYZ_'') c of
     None \<Rightarrow> c | Some d \<Rightarrow> d)"

definition env_of_key :: "string \<Rightarrow> string" where
  "env_of_key k = ''RENOTIFY_'' @ map env_char k"

definition durations_ok :: "Config \<Rightarrow> bool" where
  "durations_ok c \<longleftrightarrow> list_all (\<lambda>p. case pi_Resolve p c of CDuration d \<Rightarrow> int64 d | _ \<Rightarrow> True) ConfigRegistry"

definition entry_ok :: "float_mult \<Rightarrow> Config \<Rightarrow> ParamInfo \<Rightarrow> bool" where
  "entry_ok fl c p \<longleftrightarrow> pi_EnvVar p = env_of_key (pi_Key p)
     \<and> stringToDurationHook fl (pi_Type p = ''duration'') (viper_default (pi_Resolve p c)) = Some (pi_Resolve p c)"

lemma hook_default:
  assumes "exact_fraction fl" and "case v of CDuration d \<Rightarrow> dur \<and> int64 d | CStr s \<Rightarrow> \<not> dur | _ \<Rightarrow> True"
  shows "stringToDurationHook fl dur (viper_default v) = Some v"
  using assms Parse_String [OF assms(1)] by (cases v) (auto simp: stringToDurationHook_def viper_default_def)

lemma registry_types:
  "list_all (\<lambda>p. case pi_Resolve p c of CDuration d \<Rightarrow> pi_Type p = ''duration'' | CStr s \<Rightarrow> pi_Type p \<noteq> ''duration'' | _ \<Rightarrow> True) ConfigRegistry"
  by (simp add: registry_defs param_def)

lemma registry_env: "list_all (\<lambda>p. pi_EnvVar p = env_of_key (pi_Key p)) ConfigRegistry"
  by code_simp

lemma registry_keys: "distinct (map pi_Key ConfigRegistry)"
  by (simp add: registry_defs param_def)

lemma registry_length: "length ConfigRegistry = 31"
  by (simp add: registry_defs)

text \<open>
  Registering the settings as Viper's defaults changes none of them. Each parameter
  has a key of its own, its documented environment variable is the one Viper looks up for the key,
  and decoding the registered default, a duration through its text, gives the setting back.
\<close>

theorem config_registry:
  assumes "exact_fraction fl" and "durations_ok c"
  shows "distinct (map pi_Key ConfigRegistry) \<and> list_all (entry_ok fl c) ConfigRegistry
    \<and> setDefaults c = map (\<lambda>p. (pi_Key p, viper_default (pi_Resolve p c))) ConfigRegistry"
proof -
  have "list_all (entry_ok fl c) ConfigRegistry"
    unfolding list_all_iff
  proof
    fix p assume p: "p \<in> set ConfigRegistry"
    have "case pi_Resolve p c of CDuration d \<Rightarrow> pi_Type p = ''duration'' \<and> int64 d | CStr s \<Rightarrow> pi_Type p \<noteq> ''duration'' | _ \<Rightarrow> True"
      using p registry_types [of c] assms(2)
      by (fastforce simp: list_all_iff durations_ok_def split: config_value.splits)
    from hook_default [OF assms(1) this] show "entry_ok fl c p"
      using p registry_env by (simp add: entry_ok_def list_all_iff)
  qed
  with registry_keys show ?thesis by (simp add: setDefaults_def)
qed

theorem config_registry_witness:
  "list_all (entry_ok exact_mult a_config) ConfigRegistry \<and> length (setDefaults a_config) = 31"
proof -
  have "durations_ok a_config" by (simp add: durations_ok_def registry_defs param_def a_config_def Default_def int64_def)
  moreover have "exact_fraction exact_mult" by (simp add: exact_fraction_def exact_mult_def)
  ultimately show ?thesis using config_registry [of exact_mult a_config] by (simp add: registry_length)
qed

text \<open>The credentials and certificates of a shared broker are not in the registry.\<close>

lemma registry_lacks_credentials:
  "list_all (\<lambda>p. pi_Resolve p (c\<lparr> cf_SharedBroker := (cf_SharedBroker c)\<lparr> sb_Username := u, sb_Password := w, sb_Token := t,
       sb_CACert := ca, sb_ClientCert := cc, sb_ClientKey := ck \<rparr> \<rparr>) = pi_Resolve p c) ConfigRegistry"
  by (simp add: registry_defs param_def)

end
