(* ===== verification/Command.thy ===== *)
theory Command
  imports Duration StateFiles Broker
begin

text \<open>
  The commands that talk to a flow (cli/internal/command: ask.go, post.go, answer.go, interject.go
  with flow.go and response.go). A command is a function
  of its flags, of what the outside answers (\<open>cenv\<close>) and of the outside it changes (\<open>cli\<close>). The
  wait of \<^verbatim>\<open>ask\<close> is a recursion over the events its select statement sees.
\<close>

section \<open>Errors\<close>

text \<open>The texts of the errors, without the wrapped errors of the libraries.\<close>

datatype failure =
    Title_required | Response_types_required | Invalid_response_type string | Actions_required
  | Invalid_priority string | Invalid_timeout string | Flow_required | Request_required
  | Accepted_and_rejected | Invalid_action string | Read_stdin
  | Getwd | Daemon_id state_error | Connect | New_jetstream | Response_consumer | Interjection_consumer
  | Subscribe_response | Subscribe_interjection
  | Publish_active | Publish_notification | Publish_completed | Publish_response | Publish_interjection
  | Unmarshal_response | Unmarshal_interjection
  | Timeout_waiting string | No_daemon_response string | Rate_limited string | No_client
  | Daemon_error string | Stopped_by_user | Interrupted | Parse_hook | Permission_timeout

type_synonym cmd_error = "failure go_error"

section \<open>The outside\<close>

text \<open>Standard input: a terminal, or a pipe that can be read or not.\<close>

datatype stdin = Terminal | Piped "string option"

text \<open>What NATS and JetStream set-up calls succeed.\<close>

datatype js_call =
    Call_jetstream | Call_response_consumer | Call_interjection_consumer
  | Call_response_messages | Call_interjection_messages

record cenv =
  cv_username :: string
  cv_ask_timeout :: duration
  cv_ask_grace :: duration
  cv_fl :: float_mult
  cv_now :: time
  cv_later :: time
  cv_io :: io
  cv_rnd :: "byte list"
  cv_flow_uuid :: "byte list"
  cv_ntf_uuid :: "byte list"
  cv_sha256 :: "string \<Rightarrow> byte list"
  cv_daemon_id_path :: string
  cv_cwd :: "string option"
  cv_stdin :: stdin
  cv_connect :: bool
  cv_call :: "js_call \<Rightarrow> bool"
  cv_js_ok :: "string \<Rightarrow> string \<Rightarrow> bool"

datatype out_item = Out_json json | Out_line string

text \<open>Messages stored by JetStream (subject, message id, JSON), the two outputs, the files.\<close>

record cli =
  cl_published :: "(string \<times> string \<times> json) list"
  cl_stdout :: "out_item list"
  cl_stderr :: "out_item list"
  cl_fs :: fs

definition marshal_at :: "time \<Rightarrow> json \<Rightarrow> json option" where
  "marshal_at t j = (if four_digit_year t then Some j else None)"

text \<open>\<^verbatim>\<open>broker.PublishJSON\<close>: marshal, then publish with a message id.\<close>

definition publish_json :: "cenv \<Rightarrow> string \<Rightarrow> string \<Rightarrow> json option \<Rightarrow> cli \<Rightarrow> bool \<times> cli" where
  "publish_json en subject msgID m w =
     (case m of
        None \<Rightarrow> (False, w)
      | Some j \<Rightarrow> if cv_js_ok en subject msgID
                  then (True, w\<lparr> cl_published := cl_published w @ [(subject, msgID, j)] \<rparr>)
                  else (False, w))"

definition out_json :: "json option \<Rightarrow> cli \<Rightarrow> cli" where
  "out_json m w = (case m of None \<Rightarrow> w | Some j \<Rightarrow> w\<lparr> cl_stdout := cl_stdout w @ [Out_json j] \<rparr>)"

definition out_line :: "string \<Rightarrow> cli \<Rightarrow> cli" where
  "out_line s w = w\<lparr> cl_stdout := cl_stdout w @ [Out_line s] \<rparr>"

definition err_line :: "string \<Rightarrow> cli \<Rightarrow> cli" where
  "err_line s w = w\<lparr> cl_stderr := cl_stderr w @ [Out_line s] \<rparr>"

text \<open>The message flag, or piped standard input without its trailing newlines.\<close>

definition trim_newlines :: "string \<Rightarrow> string" where
  "trim_newlines s = rev (dropWhile (\<lambda>c. c = CHR 0x0A) (rev s))"

definition read_message :: "cenv \<Rightarrow> string option \<Rightarrow> cmd_error + string" where
  "read_message en flag =
     (case flag of
        Some m \<Rightarrow> Inr m
      | None \<Rightarrow>
          (case cv_stdin en of
             Terminal \<Rightarrow> Inr ''''
           | Piped None \<Rightarrow> Inl (CodedError Error Read_stdin)
           | Piped (Some s) \<Rightarrow> Inr (trim_newlines s)))"

section \<open>flow.go\<close>

record flowContext =
  fc_daemonID :: string
  fc_workspaceID :: string
  fc_displayName :: string
  fc_absPath :: string
  fc_flowID :: string
  fc_notificationID :: string
  fc_username :: string

definition setupFlowFromDir :: "cenv \<Rightarrow> string \<Rightarrow> cli \<Rightarrow> (cmd_error + flowContext) \<times> cli" where
  "setupFlowFromDir en dir w =
     (case LoadOrGenerateDaemonID (cv_io en) (cl_fs w) (cv_rnd en) (cv_daemon_id_path en) of
        (Inl err, fs) \<Rightarrow> (Inl (CodedError Error (Daemon_id err)), w\<lparr> cl_fs := fs \<rparr>)
      | (Inr daemonID, fs) \<Rightarrow>
          let w = w\<lparr> cl_fs := fs \<rparr> in
          if \<not> cv_connect en then (Inl (CodedError Error Connect), w)
          else (Inr \<lparr> fc_daemonID = daemonID, fc_workspaceID = WorkspaceID (cv_sha256 en) daemonID dir,
                      fc_displayName = DisplayName dir, fc_absPath = dir,
                      fc_flowID = GenerateFlowID (cv_flow_uuid en),
                      fc_notificationID = GenerateNotificationID (cv_ntf_uuid en), fc_username = cv_username en \<rparr>, w))"

definition setupFlow :: "cenv \<Rightarrow> cli \<Rightarrow> (cmd_error + flowContext) \<times> cli" where
  "setupFlow en w =
     (case cv_cwd en of None \<Rightarrow> (Inl (CodedError Error Getwd), w) | Some cwd \<Rightarrow> setupFlowFromDir en cwd w)"

definition workspaceMetadata :: "flowContext \<Rightarrow> meta" where
  "workspaceMetadata fc = Some (gm_set MetaAbsPath (fc_absPath fc) (gm_set MetaDisplayName (fc_displayName fc) []))"

text \<open>The lifecycle event of the flow and its publication.\<close>

definition flow_event_of :: "flowContext \<Rightarrow> string \<Rightarrow> meta \<Rightarrow> time \<Rightarrow> FlowLifecycleEvent" where
  "flow_event_of fc status m t =
     \<lparr> ev_FlowID = fc_flowID fc, ev_DaemonID = fc_daemonID fc, ev_WorkspaceID = fc_workspaceID fc,
       ev_Status = status, ev_Label = '''', ev_Metadata = m, ev_Timestamp = t \<rparr>"

definition publish_event :: "cenv \<Rightarrow> flowContext \<Rightarrow> string \<Rightarrow> FlowLifecycleEvent \<Rightarrow> cli \<Rightarrow> bool \<times> cli" where
  "publish_event en fc msgID ev =
     publish_json en (FlowLifecycleSubject (fc_username fc) (fc_flowID fc)) msgID (marshal_at (ev_Timestamp ev) (enc_ev ev))"

definition publish_request :: "cenv \<Rightarrow> flowContext \<Rightarrow> NotificationRequest \<Rightarrow> cli \<Rightarrow> bool \<times> cli" where
  "publish_request en fc r =
     publish_json en (FlowRequestSubject (fc_username fc) (fc_flowID fc)) (fc_notificationID fc)
       (marshal_at (nr_Timestamp r) (enc_nr r))"

section \<open>post.go\<close>

record postFlags =
  pf_title :: string
  pf_message :: "string option"
  pf_priority :: string
  pf_source :: string
  pf_format :: string

definition valid_priority :: "string \<Rightarrow> bool" where
  "valid_priority p \<longleftrightarrow> p = PriorityLow \<or> p = PriorityNormal \<or> p = PriorityHigh"

definition flow_request :: "flowContext \<Rightarrow> string \<Rightarrow> string \<Rightarrow> string list \<Rightarrow> string \<Rightarrow> string \<Rightarrow> string list \<Rightarrow> int \<Rightarrow> time \<Rightarrow> NotificationRequest" where
  "flow_request fc title body rts prio source actions timeoutSec now =
     \<lparr> nr_ID = fc_notificationID fc, nr_FlowID = fc_flowID fc, nr_DaemonID = fc_daemonID fc,
       nr_WorkspaceID = fc_workspaceID fc, nr_Title = title, nr_Body = body, nr_ResponseTypes = rts,
       nr_Priority = prio, nr_Source = source, nr_WorkspaceName = fc_displayName fc, nr_Actions = actions,
       nr_TimeoutSec = timeoutSec, nr_Timestamp = now \<rparr>"

definition sent_output :: "string \<Rightarrow> json" where
  "sent_output nid = JObj (e_str ''status'' ''sent'' @ e_str ''notification_id'' nid)"

definition post_flow :: "cenv \<Rightarrow> postFlags \<Rightarrow> string \<Rightarrow> flowContext \<Rightarrow> cli \<Rightarrow> cmd_error option \<times> cli" where
  "post_flow en fl message fc w =
     (if \<not> cv_call en Call_jetstream then (Some (CodedError Error New_jetstream), w)
      else
        let now = cv_now en in
        case publish_event en fc (fc_flowID fc) (flow_event_of fc FlowActive (workspaceMetadata fc) now) w of
          (False, w) \<Rightarrow> (Some (CodedError Error Publish_active), w)
        | (True, w) \<Rightarrow>
            (case publish_request en fc (flow_request fc (pf_title fl) message [ResponseNone] (pf_priority fl) (pf_source fl) [] 0 now) w of
               (False, w) \<Rightarrow> (Some (CodedError Error Publish_notification), w)
             | (True, w) \<Rightarrow>
                 (case publish_event en fc (fc_flowID fc @ ''-completed'') (flow_event_of fc FlowCompleted None now) w of
                    (False, w) \<Rightarrow> (Some (CodedError Error Publish_completed), w)
                  | (True, w) \<Rightarrow>
                      (None, if pf_format fl = ''json'' then out_json (Some (sent_output (fc_notificationID fc))) w else w))))"

definition post_cmd :: "cenv \<Rightarrow> postFlags \<Rightarrow> cli \<Rightarrow> cmd_error option \<times> cli" where
  "post_cmd en fl w =
     (if pf_title fl = '''' then (Some (CodedError Usage Title_required), w)
      else if \<not> valid_priority (pf_priority fl) then (Some (CodedError Usage (Invalid_priority (pf_priority fl))), w)
      else case read_message en (pf_message fl) of
        Inl err \<Rightarrow> (Some err, w)
      | Inr message \<Rightarrow>
          (case setupFlow en w of
             (Inl err, w) \<Rightarrow> (Some err, w)
           | (Inr fc, w) \<Rightarrow> post_flow en fl message fc w))"

section \<open>ask.go: flags\<close>

record askFlags =
  kf_title :: string
  kf_message :: "string option"
  kf_priority :: string
  kf_source :: string
  kf_actions :: "string list"
  kf_responseTypes :: "string list"
  kf_timeout :: string
  kf_format :: string

definition ask_response_type :: "string \<Rightarrow> bool" where
  "ask_response_type rt \<longleftrightarrow> rt = ResponseBoolean \<or> rt = ResponseChoice \<or> rt = ResponseText"

definition ask_usage :: "cenv \<Rightarrow> askFlags \<Rightarrow> cmd_error + duration" where
  "ask_usage en fl =
     (if kf_title fl = '''' then Inl (CodedError Usage Title_required)
      else if kf_responseTypes fl = [] then Inl (CodedError Usage Response_types_required)
      else case find (\<lambda>rt. \<not> ask_response_type rt) (kf_responseTypes fl) of
        Some rt \<Rightarrow> Inl (CodedError Usage (Invalid_response_type rt))
      | None \<Rightarrow>
          if ResponseChoice \<in> set (kf_responseTypes fl) \<and> kf_actions fl = [] then Inl (CodedError Usage Actions_required)
          else if \<not> valid_priority (kf_priority fl) then Inl (CodedError Usage (Invalid_priority (kf_priority fl)))
          else if kf_timeout fl = '''' then Inr (cv_ask_timeout en)
          else case ParseDuration (cv_fl en) (kf_timeout fl) of
            None \<Rightarrow> Inl (CodedError Usage (Invalid_timeout (kf_timeout fl)))
          | Some d \<Rightarrow> Inr d)"

section \<open>ask.go: the wait\<close>

datatype ask_event = Response wire | Interjection wire | Safety_timer | Signal

definition publishFailed :: "cenv \<Rightarrow> flowContext \<Rightarrow> cli \<Rightarrow> cli" where
  "publishFailed en fc w =
     snd (publish_event en fc (fc_flowID fc @ ''-failed'') (flow_event_of fc FlowFailed None (cv_later en)) w)"

definition handleErrorResponse :: "ErrorResponse \<Rightarrow> string \<Rightarrow> cmd_error" where
  "handleErrorResponse er title =
     (if er_Code er = ''timeout'' then CodedError Timeout (Timeout_waiting title)
      else if er_Code er = ''rate_limited'' then CodedError RateLimited (Rate_limited (er_Message er))
      else if er_Code er = ''unroutable'' then CodedError Unroutable No_client
      else CodedError Error (Daemon_error (er_Message er)))"

definition formatResponseText :: "NotificationResponse \<Rightarrow> cli \<Rightarrow> cli" where
  "formatResponseText r w =
     (let w = (case resp_Accepted r of None \<Rightarrow> w | Some b \<Rightarrow> out_line (if b then ''Response: Yes'' else ''Response: No'') w);
          w = (if resp_Action r \<noteq> '''' then out_line (''Response: '' @ resp_Action r) w else w)
      in if resp_Text r \<noteq> '''' then out_line (''Comment:  '' @ resp_Text r) w else w)"

text \<open>
  The error envelope is decoded without looking at the error. The decoder skips a value of the wrong
  type and goes on; a timestamp it cannot read ends it there. What was decoded stays.
\<close>

fun lenient_er :: "(string \<times> json) list \<Rightarrow> ErrorResponse \<Rightarrow> ErrorResponse" where
  "lenient_er [] r = r"
| "lenient_er ((k, v) # kvs) r =
     (case map_of er_fields (fold_key k) of
        None \<Rightarrow> lenient_er kvs r
      | Some d \<Rightarrow>
          (case d v r of
             Some r' \<Rightarrow> lenient_er kvs r'
           | None \<Rightarrow> if fold_key k = ''timestamp'' then r else lenient_er kvs r))"

definition decode_er :: "wire \<Rightarrow> ErrorResponse" where
  "decode_er data = (case data of Some (JObj kvs) \<Rightarrow> lenient_er kvs zero_er | _ \<Rightarrow> zero_er)"

definition handleResponse_ask :: "cenv \<Rightarrow> flowContext \<Rightarrow> wire \<Rightarrow> string \<Rightarrow> string \<Rightarrow> cli \<Rightarrow> cmd_error option \<times> cli" where
  "handleResponse_ask en fc data title format w =
     (if isErrorResponse data then
        (Some (handleErrorResponse (decode_er data) title), w)
      else case unmarshal dec_resp data of
        None \<Rightarrow> (Some (CodedError Error Unmarshal_response), w)
      | Some r \<Rightarrow>
          let w = snd (publish_event en fc (fc_flowID fc @ ''-completed'') (flow_event_of fc FlowCompleted None (cv_later en)) w)
          in (None, if format = ''text'' then formatResponseText r w
                    else out_json (marshal_at (resp_Timestamp r) (enc_resp r)) w))"

definition handleInterjection_ask :: "wire \<Rightarrow> cli \<Rightarrow> (cmd_error + string) \<times> cli" where
  "handleInterjection_ask data w =
     (case unmarshal dec_ij data of
        None \<Rightarrow> (Inl (CodedError Error Unmarshal_interjection), w)
      | Some ij \<Rightarrow>
          if ij_Action ij = InterjectionNote
          then (Inr InterjectionNote, if ij_Context ij \<noteq> '''' then err_line (''Note: '' @ ij_Context ij) w else w)
          else (Inr (ij_Action ij), w))"

text \<open>\<^const>\<open>None\<close> is a wait that has not ended when the events are used up.\<close>

fun ask_wait :: "cenv \<Rightarrow> flowContext \<Rightarrow> string \<Rightarrow> string \<Rightarrow> ask_event list \<Rightarrow> cli \<Rightarrow> (cmd_error option \<times> cli) option" where
  "ask_wait en fc title format [] w = None"
| "ask_wait en fc title format (Response data # evs) w = Some (handleResponse_ask en fc data title format w)"
| "ask_wait en fc title format (Interjection data # evs) w =
     (case handleInterjection_ask data w of
        (Inl err, w) \<Rightarrow> Some (Some err, w)
      | (Inr action, w) \<Rightarrow>
          if action = InterjectionStop then Some (Some (CodedError Error Stopped_by_user), publishFailed en fc w)
          else ask_wait en fc title format evs w)"
| "ask_wait en fc title format (Safety_timer # evs) w =
     Some (Some (CodedError Timeout (No_daemon_response title)), publishFailed en fc w)"
| "ask_wait en fc title format (Signal # evs) w = Some (Some (CodedError Error Interrupted), publishFailed en fc w)"

section \<open>ask.go: the command\<close>

text \<open>Everything before the wait; the second component is set when the wait begins.\<close>

definition ask_publish :: "cenv \<Rightarrow> askFlags \<Rightarrow> duration \<Rightarrow> string \<Rightarrow> flowContext \<Rightarrow> cli \<Rightarrow> cmd_error option \<times> cli" where
  "ask_publish en fl timeoutDur message fc w =
     (case find (\<lambda>(c, _). \<not> cv_call en c)
        [(Call_jetstream, New_jetstream), (Call_response_consumer, Response_consumer),
         (Call_interjection_consumer, Interjection_consumer), (Call_response_messages, Subscribe_response),
         (Call_interjection_messages, Subscribe_interjection)] of
        Some (_, msg) \<Rightarrow> (Some (CodedError Error msg), w)
      | None \<Rightarrow>
          let now = cv_now en in
          case publish_event en fc (fc_flowID fc) (flow_event_of fc FlowActive (workspaceMetadata fc) now) w of
            (False, w) \<Rightarrow> (Some (CodedError Error Publish_active), w)
          | (True, w) \<Rightarrow>
              (case publish_request en fc (flow_request fc (kf_title fl) message (kf_responseTypes fl) (kf_priority fl)
                      (kf_source fl) (kf_actions fl) (whole_seconds timeoutDur) now) w of
                 (False, w) \<Rightarrow> (Some (CodedError Error Publish_notification), w)
               | (True, w) \<Rightarrow>
                   (None, err_line (''Waiting for response (flow='' @ fc_flowID fc @ '', notification=''
                      @ fc_notificationID fc @ '')'') w)))"

text \<open>The addition of two durations is that of \<^verbatim>\<open>int64\<close>, so a sum past the largest one is negative.\<close>

definition duration_add :: "duration \<Rightarrow> duration \<Rightarrow> duration" where
  "duration_add a b = (a + b + 2 ^ 63) mod 2 ^ 64 - 2 ^ 63"

definition ask_begin :: "cenv \<Rightarrow> askFlags \<Rightarrow> cli \<Rightarrow> (cmd_error + flowContext \<times> duration) \<times> cli" where
  "ask_begin en fl w =
     (case ask_usage en fl of
        Inl err \<Rightarrow> (Inl err, w)
      | Inr timeoutDur \<Rightarrow>
          (case read_message en (kf_message fl) of
             Inl err \<Rightarrow> (Inl err, w)
           | Inr message \<Rightarrow>
               (case setupFlow en w of
                  (Inl err, w) \<Rightarrow> (Inl err, w)
                | (Inr fc, w) \<Rightarrow>
                    (case ask_publish en fl timeoutDur message fc w of
                       (Some err, w) \<Rightarrow> (Inl err, w)
                     | (None, w) \<Rightarrow> (Inr (fc, duration_add timeoutDur (cv_ask_grace en)), w)))))"

definition ask_cmd :: "cenv \<Rightarrow> askFlags \<Rightarrow> ask_event list \<Rightarrow> cli \<Rightarrow> (cmd_error option \<times> cli) option" where
  "ask_cmd en fl evs w =
     (case ask_begin en fl w of
        (Inl err, w) \<Rightarrow> Some (Some err, w)
      | (Inr (fc, _), w) \<Rightarrow> ask_wait en fc (kf_title fl) (kf_format fl) evs w)"

section \<open>answer.go, interject.go\<close>

record answerFlags =
  nf_flowID :: string
  nf_requestID :: string
  nf_accepted :: bool
  nf_rejected :: bool
  nf_action :: string
  nf_message :: "string option"
  nf_format :: string

definition answer_response :: "cenv \<Rightarrow> answerFlags \<Rightarrow> string \<Rightarrow> NotificationResponse" where
  "answer_response en fl message =
     \<lparr> resp_RequestID = nf_requestID fl,
       resp_Accepted = (if nf_accepted fl then Some True else if nf_rejected fl then Some False else None),
       resp_Action = nf_action fl, resp_Text = message, resp_Timestamp = cv_now en \<rparr>"

definition answer_cmd :: "cenv \<Rightarrow> answerFlags \<Rightarrow> cli \<Rightarrow> cmd_error option \<times> cli" where
  "answer_cmd en fl w =
     (if nf_flowID fl = '''' then (Some (CodedError Usage Flow_required), w)
      else if nf_requestID fl = '''' then (Some (CodedError Usage Request_required), w)
      else if nf_accepted fl \<and> nf_rejected fl then (Some (CodedError Usage Accepted_and_rejected), w)
      else case read_message en (nf_message fl) of
        Inl err \<Rightarrow> (Some err, w)
      | Inr message \<Rightarrow>
          let r = answer_response en fl message; j = marshal_at (resp_Timestamp r) (enc_resp r) in
          if \<not> cv_connect en then (Some (CodedError Error Connect), w)
          else if \<not> cv_call en Call_jetstream then (Some (CodedError Error New_jetstream), w)
          else case publish_json en (FlowResponseSubject (cv_username en) (nf_flowID fl)) (nf_requestID fl @ ''-response'') j w of
            (False, w) \<Rightarrow> (Some (CodedError Error Publish_response), w)
          | (True, w) \<Rightarrow> (None, if nf_format fl = ''json'' then out_json j w else w))"

record interjectFlags =
  xf_flowID :: string
  xf_action :: string
  xf_message :: "string option"
  xf_format :: string

definition interject_cmd :: "cenv \<Rightarrow> interjectFlags \<Rightarrow> cli \<Rightarrow> cmd_error option \<times> cli" where
  "interject_cmd en fl w =
     (if xf_flowID fl = '''' then (Some (CodedError Usage Flow_required), w)
      else if xf_action fl \<notin> {InterjectionStop, InterjectionPause, InterjectionNote}
      then (Some (CodedError Usage (Invalid_action (xf_action fl))), w)
      else case read_message en (xf_message fl) of
        Inl err \<Rightarrow> (Some err, w)
      | Inr message \<Rightarrow>
          let ij = \<lparr> ij_FlowID = xf_flowID fl, ij_Action = xf_action fl, ij_Context = message, ij_Timestamp = cv_now en \<rparr>;
              j = marshal_at (ij_Timestamp ij) (enc_ij ij);
              msgID = xf_flowID fl @ ''-interject-'' @ xf_action fl @ ''-'' @ itoa (unix_milli (cv_now en)) in
          if \<not> cv_connect en then (Some (CodedError Error Connect), w)
          else if \<not> cv_call en Call_jetstream then (Some (CodedError Error New_jetstream), w)
          else case publish_json en (FlowInterjectSubject (cv_username en) (xf_flowID fl)) msgID j w of
            (False, w) \<Rightarrow> (Some (CodedError Error Publish_interjection), w)
          | (True, w) \<Rightarrow> (None, if xf_format fl = ''json'' then out_json j w else w))"

end
