(* ===== verification/Dispatch.thy ===== *)
theory Dispatch
  imports Command
begin

text \<open>
  The hook dispatcher (cli/internal/command/dispatch.go): it turns a permission request of an agent
  into a question and the user's answer into the decision the agent reads, and a notification into a
  post. The text that a raw JSON value had and the compact text that is written for it are arguments.
\<close>

section \<open>Hook input and output\<close>

record hookInput =
  hi_SessionID :: string
  hi_Cwd :: string
  hi_HookEventName :: string
  hi_ToolName :: string
  hi_ToolInput :: "json option"
  hi_PermissionSuggestions :: "json list"
  hi_Title :: string
  hi_Message :: string
  hi_NotificationType :: string

definition zero_hi :: hookInput where
  "zero_hi = \<lparr> hi_SessionID = '''', hi_Cwd = '''', hi_HookEventName = '''', hi_ToolName = '''', hi_ToolInput = None,
     hi_PermissionSuggestions = [], hi_Title = '''', hi_Message = '''', hi_NotificationType = '''' \<rparr>"

text \<open>\<^verbatim>\<open>json.RawMessage\<close> takes any value, null included; a slice of them takes an array or null.\<close>

definition d_raw :: "(json option, 'r) upd \<Rightarrow> 'r field" where
  "d_raw u v r = Some (u (\<lambda>_. Some v) r)"

definition d_raws :: "(json list, 'r) upd \<Rightarrow> 'r field" where
  "d_raws u v r = (case v of JNull \<Rightarrow> Some (u (\<lambda>_. []) r) | JArr vs \<Rightarrow> Some (u (\<lambda>_. vs) r) | _ \<Rightarrow> None)"

definition hi_fields :: "(string \<times> hookInput field) list" where
  "hi_fields =
    [(''session_id'', d_str hi_SessionID_update),
     (''cwd'', d_str hi_Cwd_update),
     (''hook_event_name'', d_str hi_HookEventName_update),
     (''tool_name'', d_str hi_ToolName_update),
     (''tool_input'', d_raw hi_ToolInput_update),
     (''permission_suggestions'', d_raws hi_PermissionSuggestions_update),
     (''title'', d_str hi_Title_update),
     (''message'', d_str hi_Message_update),
     (''notification_type'', d_str hi_NotificationType_update)]"

definition dec_hi :: "json \<Rightarrow> hookInput option" where
  "dec_hi = dec_struct hi_fields zero_hi"

record hookBehavior =
  hb_Behavior :: string
  hb_Message :: string
  hb_UpdatedPermissions :: "json list"

definition enc_decision :: "string \<Rightarrow> hookBehavior \<Rightarrow> json" where
  "enc_decision event b = JObj [(''hookSpecificOutput'', JObj
     (e_str ''hookEventName'' event @
      [(''decision'', JObj (e_str ''behavior'' (hb_Behavior b) @ e_str_opt ''message'' (hb_Message b)
         @ (if hb_UpdatedPermissions b = [] then [] else [(''updatedPermissions'', JArr (hb_UpdatedPermissions b))])))]))]"

section \<open>Texts\<close>

text \<open>\<^verbatim>\<open>truncate\<close> cuts bytes.\<close>

definition truncate_text :: "string \<Rightarrow> nat \<Rightarrow> string" where
  "truncate_text s n = (if length s \<le> n then s else take (n - 3) s @ ''...'')"

definition hookSource :: "string \<Rightarrow> string" where
  "hookSource sessionID = (if sessionID \<noteq> '''' then ''claude-code/'' @ sessionID else ''claude-code'')"

text \<open>A map of raw values: a later entry for a key replaces an earlier one; null is the nil map.\<close>

definition raw_fields :: "json \<Rightarrow> (string, json) gomap option" where
  "raw_fields v = (case v of JNull \<Rightarrow> Some [] | JObj kvs \<Rightarrow> Some (fold (\<lambda>(k, x). gm_set k x) kvs []) | _ \<Rightarrow> None)"

definition getString :: "(string, json) gomap \<Rightarrow> string \<Rightarrow> string" where
  "getString m k = (case gm_get m k of Some (JStr s) \<Rightarrow> s | _ \<Rightarrow> '''')"

definition first_text :: "string list \<Rightarrow> string option" where
  "first_text ss = find (\<lambda>s. s \<noteq> '''') ss"

text \<open>What the tool's own fields give, when they give anything.\<close>

definition tool_text :: "string \<Rightarrow> (string, json) gomap \<Rightarrow> string option" where
  "tool_text tool m =
     (let get = getString m;
          cut = (\<lambda>k n. if get k \<noteq> '''' then Some (truncate_text (get k) n) else None);
          whole = (\<lambda>k. if get k \<noteq> '''' then Some (get k) else None) in
      if tool = ''Bash'' then cut ''command'' 200
      else if tool = ''Edit'' \<or> tool = ''Write'' \<or> tool = ''Read'' then whole ''file_path''
      else if tool = ''Glob'' then
        (if get ''pattern'' \<noteq> '''' \<and> get ''path'' \<noteq> '''' then Some (get ''pattern'' @ '' in '' @ get ''path'')
         else whole ''pattern'')
      else if tool = ''Grep'' then
        (if get ''pattern'' \<noteq> '''' \<and> get ''path'' \<noteq> '''' then Some (''/'' @ get ''pattern'' @ ''/ in '' @ get ''path'')
         else if get ''pattern'' \<noteq> '''' then Some (''/'' @ get ''pattern'' @ ''/'') else None)
      else if tool = ''Agent'' then
        (if get ''subagent_type'' \<noteq> '''' \<and> get ''description'' \<noteq> ''''
         then Some (get ''subagent_type'' @ '': '' @ truncate_text (get ''description'') 180)
         else cut ''description'' 200)
      else if tool = ''WebFetch'' then cut ''url'' 200
      else if tool = ''WebSearch'' then cut ''query'' 200
      else if tool = ''Skill'' then
        (if get ''skill'' \<noteq> '''' then
           Some (if get ''args'' \<noteq> '''' then get ''skill'' @ '' '' @ truncate_text (get ''args'') 180 else get ''skill'')
         else None)
      else if tool = ''EnterPlanMode'' \<or> tool = ''ExitPlanMode'' then Some tool
      else if tool = ''TaskCreate'' \<or> tool = ''TaskUpdate'' then cut ''description'' 200
      else if tool = ''NotebookEdit'' then whole ''file_path''
      else None)"

text \<open>\<open>txt\<close> is the text of the tool input, \<open>compact\<close> what \<^verbatim>\<open>json.Marshal\<close> writes for its fields.\<close>

definition summariseToolInput :: "string \<Rightarrow> json option \<Rightarrow> string \<Rightarrow> string \<Rightarrow> string" where
  "summariseToolInput tool raw rtext compact =
     (case raw of
        None \<Rightarrow> tool
      | Some v \<Rightarrow>
          (case raw_fields v of
             None \<Rightarrow> truncate_text rtext 200
           | Some m \<Rightarrow>
               (case tool_text tool m of
                  Some s \<Rightarrow> s
                | None \<Rightarrow>
                    if prefix ''mcp__'' tool then truncate_text (tool @ '' '' @ compact) 200
                    else case first_text (map (getString m) [''description'', ''prompt'', ''content'', ''message'']) of
                      Some s \<Rightarrow> truncate_text s 200
                    | None \<Rightarrow> truncate_text compact 200)))"

section \<open>Permission suggestions\<close>

record suggestionRule =
  sr_ToolName :: string
  sr_RuleContent :: string

definition zero_sr :: suggestionRule where
  "zero_sr = \<lparr> sr_ToolName = '''', sr_RuleContent = '''' \<rparr>"

definition dec_sr :: "json \<Rightarrow> suggestionRule option" where
  "dec_sr = dec_struct [(''toolname'', d_str sr_ToolName_update), (''rulecontent'', d_str sr_RuleContent_update)] zero_sr"

record suggestionLabel =
  sl_Type :: string
  sl_Destination :: string
  sl_Behavior :: string
  sl_Rules :: "suggestionRule list"

definition zero_sl :: suggestionLabel where
  "zero_sl = \<lparr> sl_Type = '''', sl_Destination = '''', sl_Behavior = '''', sl_Rules = [] \<rparr>"

fun dec_all :: "('a \<Rightarrow> 'b option) \<Rightarrow> 'a list \<Rightarrow> 'b list option" where
  "dec_all d [] = Some []"
| "dec_all d (v # vs) = Option.bind (d v) (\<lambda>x. map_option ((#) x) (dec_all d vs))"

definition d_rules :: "suggestionLabel field" where
  "d_rules v r = (case v of JNull \<Rightarrow> Some (r\<lparr> sl_Rules := [] \<rparr>)
     | JArr vs \<Rightarrow> map_option (\<lambda>rs. r\<lparr> sl_Rules := rs \<rparr>) (dec_all dec_sr vs) | _ \<Rightarrow> None)"

definition dec_sl :: "json \<Rightarrow> suggestionLabel option" where
  "dec_sl = dec_struct [(''type'', d_str sl_Type_update), (''destination'', d_str sl_Destination_update),
     (''behavior'', d_str sl_Behavior_update), (''rules'', d_rules)] zero_sl"

definition scope_label :: "string \<Rightarrow> string \<Rightarrow> string" where
  "scope_label dest desc =
     (if dest = ''session'' then ''Allow '' @ desc @ '' for session''
      else if dest = ''localSettings'' then ''Always allow '' @ desc
      else if dest = ''projectSettings'' then ''Allow '' @ desc @ '' in project''
      else if dest = ''userSettings'' then ''Always allow '' @ desc @ '' (global)''
      else ''Allow '' @ desc @ '' ('' @ dest @ '')'')"

definition formatSuggestion :: "json \<Rightarrow> string" where
  "formatSuggestion raw =
     (case dec_sl raw of
        None \<Rightarrow> ''''
      | Some s \<Rightarrow>
          (case sl_Rules s of
             [] \<Rightarrow> ''''
           | rl # _ \<Rightarrow>
               if sl_Type s \<noteq> ''addRules'' then ''''
               else
                 let desc = (if sr_RuleContent rl \<noteq> '''' then sr_ToolName rl @ ''('' @ sr_RuleContent rl @ '')'' else sr_ToolName rl)
                 in truncate_text (scope_label (sl_Destination s) desc) 60))"

definition suggestionLabels :: "json list \<Rightarrow> string list" where
  "suggestionLabels ss = filter (\<lambda>l. l \<noteq> '''') (map formatSuggestion ss)"

definition matchSuggestion :: "json list \<Rightarrow> string \<Rightarrow> json option" where
  "matchSuggestion ss action = find (\<lambda>raw. formatSuggestion raw = action) ss"

text \<open>The response type and the actions offered.\<close>

definition offered :: "json list \<Rightarrow> string \<times> string list" where
  "offered ss =
     (let labels = suggestionLabels ss in
      if labels \<noteq> [] then (ResponseChoice, [''Allow once'', ''Deny''] @ labels)
      else (ResponseBoolean, [''Allow'', ''Deny'']))"

section \<open>Permission requests\<close>

definition deny :: hookBehavior where
  "deny = \<lparr> hb_Behavior = ''deny'', hb_Message = ''Denied by remote user via Renotify'', hb_UpdatedPermissions = [] \<rparr>"

definition allow_with :: "json list \<Rightarrow> hookBehavior" where
  "allow_with perms = \<lparr> hb_Behavior = ''allow'', hb_Message = '''', hb_UpdatedPermissions = perms \<rparr>"

definition hook_behavior :: "json list \<Rightarrow> NotificationResponse \<Rightarrow> hookBehavior" where
  "hook_behavior ss r =
     (if resp_Action r = ''Deny'' then deny
      else if resp_Action r = ''Allow once'' then allow_with []
      else if resp_Action r \<noteq> '''' then
        allow_with (case matchSuggestion ss (resp_Action r) of None \<Rightarrow> [] | Some p \<Rightarrow> [p])
      else if resp_Accepted r = Some True then allow_with []
      else deny)"

definition publishCompleted :: "cenv \<Rightarrow> flowContext \<Rightarrow> string \<Rightarrow> cli \<Rightarrow> cli" where
  "publishCompleted en fc status w =
     snd (publish_event en fc (fc_flowID fc @ ''-'' @ status) (flow_event_of fc status None (cv_later en)) w)"

definition handlePermissionResponse :: "cenv \<Rightarrow> flowContext \<Rightarrow> hookInput \<Rightarrow> wire \<Rightarrow> cli \<Rightarrow> cmd_error option \<times> cli" where
  "handlePermissionResponse en fc input data w =
     (if isErrorResponse data then
        (Some (CodedError Error (Daemon_error (er_Code (decode_er data)))), publishCompleted en fc FlowFailed w)
      else case unmarshal dec_resp data of
        None \<Rightarrow> (Some (CodedError Error Unmarshal_response), publishCompleted en fc FlowFailed w)
      | Some r \<Rightarrow>
          let d = enc_decision ''PermissionRequest'' (hook_behavior (hi_PermissionSuggestions input) r)
          in (None, out_json (Some d) (publishCompleted en fc FlowCompleted w)))"

text \<open>How the wait for the response can end.\<close>

datatype hook_event = Hook_response wire | Hook_timer | Hook_signal

text \<open>The texts of the tool input.\<close>

record hook_text =
  ht_raw :: string
  ht_compact :: string

definition hook_dir :: "cenv \<Rightarrow> hookInput \<Rightarrow> string" where
  "hook_dir en input = (if hi_Cwd input = '''' then (case cv_cwd en of None \<Rightarrow> '''' | Some d \<Rightarrow> d) else hi_Cwd input)"

definition permission_request :: "cenv \<Rightarrow> hook_text \<Rightarrow> flowContext \<Rightarrow> hookInput \<Rightarrow> NotificationRequest" where
  "permission_request en ht fc input =
     (case offered (hi_PermissionSuggestions input) of (rt, actions) \<Rightarrow>
        flow_request fc (''Permission: '' @ hi_ToolName input)
          (summariseToolInput (hi_ToolName input) (hi_ToolInput input) (ht_raw ht) (ht_compact ht))
          [rt] PriorityHigh (hookSource (hi_SessionID input)) actions (whole_seconds (cv_ask_timeout en)) (cv_now en))"

definition permission_begin ::
    "cenv \<Rightarrow> hook_text \<Rightarrow> hookInput \<Rightarrow> cli \<Rightarrow> (cmd_error + flowContext) \<times> cli" where
  "permission_begin en ht input w =
     (case setupFlowFromDir en (hook_dir en input) w of
        (Inl err, w) \<Rightarrow> (Inl err, w)
      | (Inr fc, w) \<Rightarrow>
          (case find (\<lambda>(c, _). \<not> cv_call en c)
             [(Call_jetstream, New_jetstream), (Call_response_consumer, Response_consumer),
              (Call_response_messages, Subscribe_response)] of
             Some (_, msg) \<Rightarrow> (Inl (CodedError Error msg), w)
           | None \<Rightarrow>
               (case publish_event en fc (fc_flowID fc) (flow_event_of fc FlowActive (workspaceMetadata fc) (cv_now en)) w of
                  (False, w) \<Rightarrow> (Inl (CodedError Error Publish_active), w)
                | (True, w) \<Rightarrow>
                    (case publish_request en fc (permission_request en ht fc input) w of
                       (False, w) \<Rightarrow> (Inl (CodedError Error Publish_notification), w)
                     | (True, w) \<Rightarrow> (Inr fc, w)))))"

definition dispatchPermissionRequest ::
    "cenv \<Rightarrow> hook_text \<Rightarrow> hookInput \<Rightarrow> hook_event \<Rightarrow> cli \<Rightarrow> cmd_error option \<times> cli" where
  "dispatchPermissionRequest en ht input ev w =
     (case permission_begin en ht input w of
        (Inl err, w) \<Rightarrow> (Some err, w)
      | (Inr fc, w) \<Rightarrow>
          (case ev of
             Hook_response data \<Rightarrow> handlePermissionResponse en fc input data w
           | Hook_timer \<Rightarrow> (Some (CodedError Error Permission_timeout), publishFailed en fc w)
           | Hook_signal \<Rightarrow> (Some (CodedError Error Interrupted), publishFailed en fc w)))"

section \<open>Notifications\<close>

definition hook_notification :: "cenv \<Rightarrow> flowContext \<Rightarrow> hookInput \<Rightarrow> NotificationRequest" where
  "hook_notification en fc input =
     flow_request fc (if hi_Title input = '''' then ''Notification'' else hi_Title input) (hi_Message input)
       [ResponseNone] (if hi_NotificationType input = ''permission_prompt'' then PriorityHigh else PriorityNormal)
       (hookSource (hi_SessionID input)) [] 0 (cv_now en)"

definition dispatchNotification :: "cenv \<Rightarrow> hookInput \<Rightarrow> cli \<Rightarrow> cmd_error option \<times> cli" where
  "dispatchNotification en input w =
     (case setupFlowFromDir en (hook_dir en input) w of
        (Inl err, w) \<Rightarrow> (Some err, w)
      | (Inr fc, w) \<Rightarrow>
          if \<not> cv_call en Call_jetstream then (Some (CodedError Error New_jetstream), w)
          else case publish_event en fc (fc_flowID fc) (flow_event_of fc FlowActive (workspaceMetadata fc) (cv_now en)) w of
            (False, w) \<Rightarrow> (Some (CodedError Error Publish_active), w)
          | (True, w) \<Rightarrow>
              (case publish_request en fc (hook_notification en fc input) w of
                 (False, w) \<Rightarrow> (Some (CodedError Error Publish_notification), w)
               | (True, w) \<Rightarrow> (None, publishCompleted en fc FlowCompleted w)))"

text \<open>The command: \<open>data\<close> is standard input, \<^const>\<open>None\<close> when it cannot be read.\<close>

definition dispatch_cmd :: "cenv \<Rightarrow> hook_text \<Rightarrow> wire option \<Rightarrow> hook_event \<Rightarrow> cli \<Rightarrow> cmd_error option \<times> cli" where
  "dispatch_cmd en ht data ev w =
     (case data of
        None \<Rightarrow> (Some (CodedError Error Read_stdin), w)
      | Some j \<Rightarrow>
          (case unmarshal dec_hi j of
             None \<Rightarrow> (Some (CodedError Error Parse_hook), w)
           | Some input \<Rightarrow>
               if hi_HookEventName input = ''PermissionRequest'' then dispatchPermissionRequest en ht input ev w
               else if hi_HookEventName input = ''Notification'' then dispatchNotification en input w
               else (None, w)))"

end
