(* ===== verification/CommandLaws.thy ===== *)
theory CommandLaws
  imports Dispatch
begin

text \<open>
  What the commands guarantee: how and when \<^verbatim>\<open>ask\<close> ends, that \<^verbatim>\<open>answer\<close> ends it, and what a
  hook's permission decision can be.
\<close>

section \<open>Publishing\<close>

definition all_up :: "cenv \<Rightarrow> bool" where
  "all_up en \<longleftrightarrow> (\<forall>s i. cv_js_ok en s i) \<and> four_digit_year (cv_later en)"

text \<open>The terminal event of a flow as it is stored.\<close>

definition final_message :: "cenv \<Rightarrow> flowContext \<Rightarrow> string \<Rightarrow> string \<times> string \<times> json" where
  "final_message en fc status =
     (FlowLifecycleSubject (fc_username fc) (fc_flowID fc), fc_flowID fc @ ''-'' @ status,
      enc_ev (flow_event_of fc status None (cv_later en)))"

lemma publish_event_up:
  assumes "all_up en"
  shows "publish_event en fc (fc_flowID fc @ ''-'' @ status) (flow_event_of fc status None (cv_later en)) w
    = (True, w\<lparr> cl_published := cl_published w @ [final_message en fc status] \<rparr>)"
  using assms by (simp add: publish_event_def publish_json_def marshal_at_def flow_event_of_def all_up_def final_message_def)

lemma publishFailed_up: "all_up en \<Longrightarrow> cl_published (publishFailed en fc w) = cl_published w @ [final_message en fc FlowFailed]"
  using publish_event_up [of en fc FlowFailed w] by (simp add: publishFailed_def FlowFailed_def)

lemma publishCompleted_up: "all_up en \<Longrightarrow> cl_published (publishCompleted en fc st w) = cl_published w @ [final_message en fc st]"
  using publish_event_up [of en fc st w] by (simp add: publishCompleted_def)

lemma outputs_keep [simp]:
  "cl_published (out_json m w) = cl_published w" "cl_published (out_line s w) = cl_published w"
  "cl_published (err_line s w) = cl_published w"
  by (simp_all add: out_json_def out_line_def err_line_def split: option.split)

lemma formatResponseText_keeps [simp]: "cl_published (formatResponseText r w) = cl_published w"
  by (simp add: formatResponseText_def Let_def split: option.split)

section \<open>The wait of ask\<close>

text \<open>The events that end the wait, the exit code and the terminal status they lead to.\<close>

fun decisive :: "ask_event \<Rightarrow> bool" where
  "decisive (Interjection data) =
     (case unmarshal dec_ij data of None \<Rightarrow> True | Some ij \<Rightarrow> ij_Action ij = InterjectionStop)"
| "decisive _ = True"

definition error_exit :: "string \<Rightarrow> int" where
  "error_exit code = (if code = ''timeout'' then 3 else if code = ''rate_limited'' then 4
     else if code = ''unroutable'' then 5 else 1)"

fun ask_exit :: "ask_event \<Rightarrow> int" where
  "ask_exit (Response data) =
     (if isErrorResponse data then error_exit (er_Code (decode_er data))
      else if unmarshal dec_resp data = None then 1 else 0)"
| "ask_exit (Interjection data) = 1"
| "ask_exit Safety_timer = 3"
| "ask_exit Signal = 1"

fun ending :: "ask_event \<Rightarrow> string list" where
  "ending (Response data) =
     (if isErrorResponse data \<or> unmarshal dec_resp data = None then [] else [FlowCompleted])"
| "ending (Interjection data) = (if unmarshal dec_ij data = None then [] else [FlowFailed])"
| "ending _ = [FlowFailed]"

lemma note_continues:
  assumes "\<not> decisive e"
  shows "\<exists>w'. ask_wait en fc title fmt (e # evs) w = ask_wait en fc title fmt evs w' \<and> cl_published w' = cl_published w"
proof (cases e)
  case (Interjection data)
  with assms obtain ij where ij: "unmarshal dec_ij data = Some ij" "ij_Action ij \<noteq> InterjectionStop"
    by (auto split: option.splits)
  have "InterjectionNote \<noteq> InterjectionStop" by (simp add: enum_defs)
  with ij show ?thesis unfolding Interjection by (auto simp: handleInterjection_ask_def)
qed (use assms in simp_all)

lemma handleErrorResponse_exit: "ExitCode (Some (handleErrorResponse er title)) = error_exit (er_Code er)"
  by (simp add: handleErrorResponse_def error_exit_def exit_defs)

lemma decisive_ends:
  assumes "decisive e" and up: "all_up en"
  shows "\<exists>err w'. ask_wait en fc title fmt (e # evs) w = Some (err, w') \<and> ExitCode err = ask_exit e
    \<and> cl_published w' = cl_published w @ map (final_message en fc) (ending e)"
proof (cases e)
  case (Response data)
  note c = publish_event_up [OF up, of fc FlowCompleted w, unfolded FlowCompleted_def, simplified, folded FlowCompleted_def]
  show ?thesis unfolding Response
    using c by (auto simp: handleResponse_ask_def handleErrorResponse_exit exit_defs FlowCompleted_def Let_def split: option.split)
next
  case (Interjection data)
  show ?thesis
  proof (cases "unmarshal dec_ij data")
    case None
    then show ?thesis by (simp add: Interjection handleInterjection_ask_def exit_defs)
  next
    case (Some ij)
    with assms(1) Interjection have "ij_Action ij = InterjectionStop" "InterjectionNote \<noteq> InterjectionStop"
      by (simp_all add: enum_defs)
    with Some show ?thesis by (simp add: Interjection handleInterjection_ask_def exit_defs publishFailed_up [OF up])
  qed
qed (simp_all add: exit_defs publishFailed_up [OF up])

lemma notes_continue:
  "list_all (\<lambda>e. \<not> decisive e) pre \<Longrightarrow>
     \<exists>w'. ask_wait en fc title fmt (pre @ evs) w = ask_wait en fc title fmt evs w' \<and> cl_published w' = cl_published w"
proof (induction pre arbitrary: w)
  case (Cons e pre)
  obtain w1 where "ask_wait en fc title fmt (e # pre @ evs) w = ask_wait en fc title fmt (pre @ evs) w1"
    "cl_published w1 = cl_published w"
    using note_continues [of e en fc title fmt "pre @ evs" w] Cons.prems by auto
  with Cons.IH [of w1] Cons.prems show ?case by simp
qed auto


text \<open>An outside where everything works, and a flow.\<close>

definition good_cenv :: cenv where
  "good_cenv = \<lparr> cv_username = ''alice'', cv_ask_timeout = 5 * minute, cv_ask_grace = 30 * second, cv_fl = exact_mult,
     cv_now = 978307200 * second, cv_later = 978307260 * second, cv_io = io_ok, cv_rnd = replicate 9 0,
     cv_flow_uuid = replicate 16 0, cv_ntf_uuid = replicate 10 0, cv_sha256 = (\<lambda>_. replicate 32 0),
     cv_daemon_id_path = ''/s/daemon_id'', cv_cwd = Some ''/home/alice/p'', cv_stdin = Terminal, cv_connect = True,
     cv_call = (\<lambda>_. True), cv_js_ok = (\<lambda>_ _. True) \<rparr>"

definition a_flow_context :: flowContext where
  "a_flow_context = \<lparr> fc_daemonID = ''dn_1'', fc_workspaceID = ''ws_1'', fc_displayName = ''p'', fc_absPath = ''/home/alice/p'',
     fc_flowID = ''fl_1'', fc_notificationID = ''ntf_1'', fc_username = ''alice'' \<rparr>"

definition quiet :: cli where
  "quiet = \<lparr> cl_published = [], cl_stdout = [], cl_stderr = [], cl_fs = Map.empty \<rparr>"

definition a_note :: InterjectionCommand where
  "a_note = \<lparr> ij_FlowID = ''fl_1'', ij_Action = InterjectionNote, ij_Context = ''hold on'', ij_Timestamp = 978307200 * second \<rparr>"

lemma good_up: "all_up good_cenv"
  by (simp add: all_up_def good_cenv_def four_digit_year_def)


section \<open>Answers and interjections from the command line\<close>


definition an_answerFlags :: answerFlags where
  "an_answerFlags = \<lparr> nf_flowID = ''fl_1'', nf_requestID = ''ntf_1'', nf_accepted = True, nf_rejected = False,
     nf_action = '''', nf_message = Some ''fine'', nf_format = ''text'' \<rparr>"

definition a_stopFlags :: interjectFlags where
  "a_stopFlags = \<lparr> xf_flowID = ''fl_1'', xf_action = InterjectionStop, xf_message = Some '''', xf_format = ''text'' \<rparr>"


section \<open>Permission decisions\<close>

text \<open>No label of a suggestion is one of the two fixed choices.\<close>

lemma not_once: "x @ '' for session'' \<noteq> ''once''" "x @ '' in project'' \<noteq> ''once''" "x @ '' ('' @ y @ '')'' \<noteq> ''once''"
proof -
  show "x @ '' for session'' \<noteq> ''once''" "x @ '' in project'' \<noteq> ''once''" by (auto dest: arg_cong [where f = length])
  show "x @ '' ('' @ y @ '')'' \<noteq> ''once''"
  proof
    assume "x @ '' ('' @ y @ '')'' = ''once''"
    from arg_cong [OF this, of last] show False by simp
  qed
qed

lemma scope_label_reserved: "scope_label dest desc \<noteq> ''Allow once''" "scope_label dest desc \<noteq> ''Deny''"
proof -
  have once: "''Allow '' @ x = ''Allow once'' \<longleftrightarrow> x = ''once''" for x by simp
  show "scope_label dest desc \<noteq> ''Allow once''"
    unfolding scope_label_def by (simp only: once not_once split: if_split) simp
  show "scope_label dest desc \<noteq> ''Deny''" unfolding scope_label_def by simp
qed

lemma truncate_short: "truncate_text s 60 = t \<Longrightarrow> length t < 60 \<Longrightarrow> s = t"
  by (auto simp: truncate_text_def split: if_splits)

lemma label_reserved: "formatSuggestion raw \<noteq> ''Deny''" "formatSuggestion raw \<noteq> ''Allow once''"
proof -
  have "truncate_text (scope_label dest desc) 60 \<noteq> ''Deny''" "truncate_text (scope_label dest desc) 60 \<noteq> ''Allow once''" for dest desc
    using scope_label_reserved truncate_short [of "scope_label dest desc"] by fastforce+
  then show "formatSuggestion raw \<noteq> ''Deny''" "formatSuggestion raw \<noteq> ''Allow once''"
    unfolding formatSuggestion_def Let_def by (simp_all split: option.split list.split)
qed

lemma suggestionLabels_members: "l \<in> set (suggestionLabels ss) \<longleftrightarrow> l \<noteq> '''' \<and> (\<exists>raw \<in> set ss. formatSuggestion raw = l)"
  by (auto simp: suggestionLabels_def)


definition a_suggestion :: "string \<Rightarrow> json" where
  "a_suggestion dest = JObj [(''type'', JStr ''addRules''), (''destination'', JStr dest),
     (''rules'', JArr [JObj [(''toolName'', JStr ''Bash'')]])]"

lemma a_suggestion_label: "formatSuggestion (a_suggestion ''session'') = ''Allow Bash for session''"
  "formatSuggestion (a_suggestion ''localSettings'') = ''Always allow Bash''"
  by code_simp+


text \<open>What a response can make of a request.\<close>

definition hook_decision_ok :: "json list \<Rightarrow> NotificationResponse \<Rightarrow> hookBehavior \<Rightarrow> bool" where
  "hook_decision_ok ss r b \<longleftrightarrow> b = deny
     \<or> (b = allow_with (hb_UpdatedPermissions b)
       \<and> (resp_Action r = '''' \<and> resp_Accepted r = Some True \<and> hb_UpdatedPermissions b = [] \<or> resp_Action r \<notin> {'''', ''Deny''})
       \<and> length (hb_UpdatedPermissions b) \<le> 1
       \<and> set (hb_UpdatedPermissions b) \<subseteq> {p \<in> set ss. formatSuggestion p = resp_Action r})"

lemma hook_behavior_ok: "hook_decision_ok ss r (hook_behavior ss r)"
proof -
  have "formatSuggestion p = resp_Action r \<and> p \<in> set ss" if "matchSuggestion ss (resp_Action r) = Some p" for p
    using that by (auto simp: matchSuggestion_def find_Some_iff)
  then show ?thesis
    by (auto simp: hook_decision_ok_def hook_behavior_def allow_with_def split: option.split)
qed

text \<open>Publishing and setting up write nothing to the output.\<close>

lemma silent [simp]:
  "cl_stdout (snd (publish_event en fc i e w)) = cl_stdout w" "cl_stdout (publishFailed en fc w) = cl_stdout w"
  "cl_stdout (publishCompleted en fc st w) = cl_stdout w"
  by (simp_all add: publishFailed_def publishCompleted_def publish_event_def publish_json_def split: option.split)

lemma silent_eq:
  "publish_event en fc i e w = (b, v) \<Longrightarrow> cl_stdout v = cl_stdout w"
  "publish_request en fc q w = (b, v) \<Longrightarrow> cl_stdout v = cl_stdout w"
  by (auto simp: publish_event_def publish_request_def publish_json_def split: option.splits if_splits)

lemma setup_silent:
  assumes "setupFlowFromDir en d w = (x, v)"
  shows "cl_stdout v = cl_stdout w \<and> (\<forall>e. x = Inl e \<longrightarrow> ExitCode (Some e) = Error)"
  using assms by (auto simp: setupFlowFromDir_def Let_def split: prod.splits sum.splits if_splits)

lemma permission_begin_silent:
  assumes "permission_begin en ht input w = (x, v)"
  shows "cl_stdout v = cl_stdout w \<and> (\<forall>e. x = Inl e \<longrightarrow> ExitCode (Some e) = Error)"
proof -
  obtain y u where y: "setupFlowFromDir en (hook_dir en input) w = (y, u)" by force
  note su = setup_silent [OF y]
  show ?thesis
  proof (cases y)
    case (Inl e)
    with assms y su show ?thesis by (auto simp: permission_begin_def)
  next
    case (Inr fc)
    let ?c = "find (\<lambda>(c, _). \<not> cv_call en c) [(Call_jetstream, New_jetstream), (Call_response_consumer, Response_consumer),
              (Call_response_messages, Subscribe_response)]"
    show ?thesis
    proof (cases ?c)
      case (Some p)
      with assms y Inr su show ?thesis by (cases p) (auto simp: permission_begin_def simp del: find.simps)
    next
      case None
      with assms y Inr su show ?thesis
        by (auto simp: permission_begin_def split: prod.splits bool.splits dest!: silent_eq)
    qed
  qed
qed

lemma out_json_stdout: "cl_stdout (out_json (Some j) w) = cl_stdout w @ [Out_json j]"
  by (simp add: out_json_def)



text \<open>
  An action nobody offered counts as permission, also when the response is a rejection: only the
  text \<^verbatim>\<open>Deny\<close> is taken for a refusal once the action is not empty.
\<close>

lemma unknown_action_allows:
  assumes "resp_Action r \<notin> {'''', ''Deny'', ''Allow once''}" and "resp_Action r \<notin> set (suggestionLabels ss)"
    and "resp_Accepted r = Some False"
  shows "hook_behavior ss r = allow_with []"
proof -
  have "matchSuggestion ss (resp_Action r) = None"
    using assms(1,2) by (auto simp: matchSuggestion_def find_None_iff suggestionLabels_members)
  with assms(1) show ?thesis by (simp add: hook_behavior_def)
qed

end
