(* ===== verification/Controller.thy ===== *)
theory Controller
  imports Config Presence
begin

text \<open>
  Packages daemon and broker (cli/internal/daemon/controller.go, cli/internal/broker/embedded.go,
  client.go): the embedded server with the accounts it enforces, the client connections, and the
  run of the daemon: start-up, the subsystems, the reload of the accounts, the shutdown. What the
  operating system, the NATS library and the subsystems answer is an argument. What happens is
  recorded as a trace of events; the goroutines inside the subsystems are not part of this model.
\<close>

section \<open>client.go: connections\<close>

datatype nats_option =
    ClientName string | MaxReconnects int | Handlers
  | AuthToken string | UserInfo string string | RootCAs string
  | Secure "(string \<times> string) option" | InProcess

record dial =
  dl_url :: string
  dl_options :: "nats_option list"

text \<open>\<^verbatim>\<open>tls.LoadX509KeyPair\<close> and \<^verbatim>\<open>nats.Connect\<close>: which pairs load, which dials succeed.\<close>

record net =
  nt_key_pair :: "string \<Rightarrow> string \<Rightarrow> bool"
  nt_connect :: "dial \<Rightarrow> bool"

datatype conn_error =
    Connect_embedded | Connect_shared | Connect_daemon | Load_client_cert
  | Daemon_not_started | Read_internal_token

definition auth_options :: "SharedBrokerConfig \<Rightarrow> nats_option list" where
  "auth_options cfg =
     (if sb_Token cfg \<noteq> '''' then [AuthToken (sb_Token cfg)]
      else if sb_Username cfg \<noteq> '''' then [UserInfo (sb_Username cfg) (sb_Password cfg)] else [])"

definition tls_options :: "net \<Rightarrow> SharedBrokerConfig \<Rightarrow> conn_error + nats_option list" where
  "tls_options nt cfg =
     (if \<not> sb_TLSEnabled cfg then Inr []
      else
        let roots = (if sb_CACert cfg \<noteq> '''' then [RootCAs (sb_CACert cfg)] else []) in
        if sb_ClientCert cfg \<noteq> '''' \<and> sb_ClientKey cfg \<noteq> '''' then
          (if nt_key_pair nt (sb_ClientCert cfg) (sb_ClientKey cfg)
           then Inr (roots @ [Secure (Some (sb_ClientCert cfg, sb_ClientKey cfg))])
           else Inl Load_client_cert)
        else Inr (roots @ [Secure None]))"

definition dial_shared :: "net \<Rightarrow> SharedBrokerConfig \<Rightarrow> nats_option list \<Rightarrow> conn_error + dial" where
  "dial_shared nt cfg base =
     (case tls_options nt cfg of
        Inl err \<Rightarrow> Inl err
      | Inr tls \<Rightarrow>
          (let d = \<lparr> dl_url = sb_URL cfg, dl_options = base @ auth_options cfg @ tls \<rparr> in
           if nt_connect nt d then Inr d else Inl Connect_shared))"

definition ConnectShared :: "net \<Rightarrow> SharedBrokerConfig \<Rightarrow> conn_error + dial" where
  "ConnectShared nt cfg = dial_shared nt cfg [ClientName ''renotify-daemon'', MaxReconnects (-1), Handlers]"

definition connectCLIShared :: "net \<Rightarrow> Config \<Rightarrow> conn_error + dial" where
  "connectCLIShared nt cfg = dial_shared nt (cf_SharedBroker cfg) [ClientName ''renotify-cli'', MaxReconnects 0]"

definition nats_url :: "string \<Rightarrow> int \<Rightarrow> string" where
  "nats_url host port = ''nats://'' @ host @ '':'' @ itoa port"

definition connectCLIEmbedded :: "net \<Rightarrow> io \<Rightarrow> fs \<Rightarrow> string \<Rightarrow> Config \<Rightarrow> conn_error + dial" where
  "connectCLIEmbedded nt e fs tokenPath cfg =
     (case os_ReadFile e fs tokenPath of
        NotExist \<Rightarrow> Inl Daemon_not_started
      | ReadErr \<Rightarrow> Inl Read_internal_token
      | ReadOk c \<Rightarrow>
          (let d = \<lparr> dl_url = nats_url (bc_TCPHost (cf_Broker cfg)) (bc_TCPPort (cf_Broker cfg)),
                     dl_options = [UserInfo ''daemon'' (trim_space (text_of c)), ClientName ''renotify-cli'',
                       MaxReconnects 0] \<rparr> in
           if nt_connect nt d then Inr d else Inl Connect_daemon))"

definition ConnectCLI :: "net \<Rightarrow> io \<Rightarrow> fs \<Rightarrow> string \<Rightarrow> Config \<Rightarrow> conn_error + dial" where
  "ConnectCLI nt e fs tokenPath cfg =
     (if bc_Enabled (cf_Broker cfg) then connectCLIEmbedded nt e fs tokenPath cfg else connectCLIShared nt cfg)"

definition ConnectEmbedded :: "net \<Rightarrow> string \<Rightarrow> string \<Rightarrow> conn_error + dial" where
  "ConnectEmbedded nt clientURL tok =
     (let d = \<lparr> dl_url = clientURL, dl_options = [InProcess, UserInfo ''daemon'' tok,
                  ClientName ''renotify-daemon'', MaxReconnects (-1), Handlers] \<rparr> in
      if nt_connect nt d then Inr d else Inl Connect_embedded)"

section \<open>embedded.go\<close>

record EmbeddedConfig =
  ec_TCPHost :: string
  ec_TCPPort :: int
  ec_WSSHost :: string
  ec_WSSPort :: int
  ec_TLSCert :: string
  ec_TLSKey :: string
  ec_Username :: string
  ec_InternalToken :: string
  ec_Devices :: "PairedDevice list"
  ec_JetStreamMaxMem :: int
  ec_StoreDir :: string

text \<open>The server options that depend on the configuration; a websocket listener always has TLS.\<close>

record websocket =
  ws_Host :: string
  ws_Port :: int
  ws_Cert :: string
  ws_Key :: string

record server_options =
  so_Host :: string
  so_Port :: int
  so_MaxMemory :: int
  so_StoreDir :: string
  so_Users :: "nats_user list"
  so_Websocket :: "websocket option"

text \<open>\<^verbatim>\<open>es_srv\<close> is the server once created: the options in force while it runs.\<close>

record EmbeddedServer =
  es_srv :: "server_options option"
  es_opts :: server_options
  es_storeDir :: string
  es_isTempDir :: bool

datatype server_error =
    Create_store_dir | Load_cert_key | Create_server | Not_ready | Not_started | Reload_options

text \<open>
  What the calls answer: the temporary directory, whether the server can be created, becomes
  ready, takes new options.
\<close>

record server_env =
  sv_net :: net
  sv_temp_dir :: "string option"
  sv_create :: "server_options \<Rightarrow> bool"
  sv_ready :: bool
  sv_reload :: "server_options \<Rightarrow> bool"

text \<open>What happens, in order.\<close>

datatype daemon_event =
    TempDirMade string | TempDirRemoved string
  | ServerStarted | Connected | SubStarted string | SubReady string | AllReady | AuthReloaded
  | SubStopped string | Drained | ServerStopped

definition NewEmbeddedServer ::
    "server_env \<Rightarrow> EmbeddedConfig \<Rightarrow> (server_error + EmbeddedServer) \<times> daemon_event list" where
  "NewEmbeddedServer sv cfg =
     (case (if ec_StoreDir cfg \<noteq> '''' then Some (ec_StoreDir cfg) else sv_temp_dir sv) of
        None \<Rightarrow> (Inl Create_store_dir, [])
      | Some dir \<Rightarrow>
          (let isTemp = (ec_StoreDir cfg = '''');
               made = (if isTemp then [TempDirMade dir] else []);
               opts = \<lparr> so_Host = ec_TCPHost cfg, so_Port = ec_TCPPort cfg, so_MaxMemory = ec_JetStreamMaxMem cfg,
                        so_StoreDir = dir,
                        so_Users = BuildAuthConfig (ec_Username cfg) (ec_InternalToken cfg) (ec_Devices cfg),
                        so_Websocket = None \<rparr>
           in if ec_TLSCert cfg \<noteq> '''' \<and> ec_TLSKey cfg \<noteq> '''' then
                (if \<not> nt_key_pair (sv_net sv) (ec_TLSCert cfg) (ec_TLSKey cfg)
                 then (Inl Load_cert_key, made @ (if isTemp then [TempDirRemoved dir] else []))
                 else (Inr \<lparr> es_srv = None,
                         es_opts = opts\<lparr> so_Websocket := Some \<lparr> ws_Host = ec_WSSHost cfg, ws_Port = ec_WSSPort cfg,
                                          ws_Cert = ec_TLSCert cfg, ws_Key = ec_TLSKey cfg \<rparr> \<rparr>,
                         es_storeDir = dir, es_isTempDir = isTemp \<rparr>, made))
              else (Inr \<lparr> es_srv = None, es_opts = opts, es_storeDir = dir, es_isTempDir = isTemp \<rparr>, made)))"

text \<open>A server that does not become ready is shut down; the field keeps it.\<close>

definition es_Start :: "server_env \<Rightarrow> EmbeddedServer \<Rightarrow> server_error option \<times> EmbeddedServer \<times> daemon_event list" where
  "es_Start sv s =
     (if \<not> sv_create sv (es_opts s) then (Some Create_server, s, [])
      else
        let s' = s\<lparr> es_srv := Some (es_opts s) \<rparr> in
        if \<not> sv_ready sv then (Some Not_ready, s', [ServerStarted, ServerStopped])
        else (None, s', [ServerStarted]))"

definition es_Shutdown :: "EmbeddedServer \<Rightarrow> daemon_event list" where
  "es_Shutdown s =
     (if es_srv s \<noteq> None then [ServerStopped] else [])
     @ (if es_storeDir s \<noteq> '''' \<and> es_isTempDir s then [TempDirRemoved (es_storeDir s)] else [])"

definition ClientURL :: "EmbeddedServer \<Rightarrow> string" where
  "ClientURL s =
     (case es_srv s of Some o' \<Rightarrow> nats_url (so_Host o') (so_Port o')
      | None \<Rightarrow> nats_url (so_Host (es_opts s)) (so_Port (es_opts s)))"

definition ReloadAuth ::
    "server_env \<Rightarrow> string \<Rightarrow> string \<Rightarrow> PairedDevice list \<Rightarrow> EmbeddedServer \<Rightarrow> server_error option \<times> EmbeddedServer" where
  "ReloadAuth sv username internalToken devices s =
     (case es_srv s of
        None \<Rightarrow> (Some Not_started, s)
      | Some _ \<Rightarrow>
          (let newOpts = (es_opts s)\<lparr> so_Users := BuildAuthConfig username internalToken devices \<rparr> in
           if sv_reload sv newOpts then (None, s\<lparr> es_srv := Some newOpts \<rparr>) else (Some Reload_options, s)))"

section \<open>controller.go\<close>

text \<open>How a subsystem answers: \<^verbatim>\<open>Start\<close> fails; it signals an error, never signals, or the context ends
  first; or it becomes ready.\<close>

datatype sub_answer = Start_fails | Ready_error | Ready_timeout | Context_done | Becomes_ready

record ctrl_env =
  ce_io :: io
  ce_server :: server_env
  ce_js :: js_server
  ce_sub :: "string \<Rightarrow> sub_answer"
  ce_id_rnd :: "byte list"
  ce_token_rnd :: "byte list"
  ce_device_rnd :: "byte list"
  ce_now :: time

record Controller =
  co_cfg :: Config
  co_subsystems :: "string list"
  co_reload :: bool
  co_on_reload :: bool
  co_DaemonIDPath :: string
  co_InternalTokenPath :: string
  co_PairingTokenPath :: string
  co_UsernamePath :: string
  co_DevicesPath :: string
  co_StateHome :: string

datatype ctrl_error =
    Daemon_id state_error | Tls state_error | Internal_token state_error | Load_devices state_error
  | Store_dir | Server server_error | Conn conn_error | Jetstream js_error
  | Subsystem string sub_answer | Context_err

text \<open>The files, the streams and consumers of the broker, the presence tracker behind
  \<^verbatim>\<open>OnReloadDevices\<close>, and what happened.\<close>

record world =
  wd_fs :: fs
  wd_js :: js_state
  wd_tracker :: Tracker
  wd_events :: "daemon_event list"

definition record_events :: "daemon_event list \<Rightarrow> world \<Rightarrow> world" where
  "record_events es w = w\<lparr> wd_events := wd_events w @ es \<rparr>"

definition NewController :: "xdg_env \<Rightarrow> Config \<Rightarrow> string list \<Rightarrow> Controller" where
  "NewController e cfg subs =
     \<lparr> co_cfg = cfg, co_subsystems = subs, co_reload = False, co_on_reload = False,
       co_DaemonIDPath = DaemonIDPath e, co_InternalTokenPath = InternalTokenPath e,
       co_PairingTokenPath = PairingTokenPath e, co_UsernamePath = PairingUsernamePath e,
       co_DevicesPath = DevicesPath e, co_StateHome = StateHome e \<rparr>"

definition embedded_config :: "Controller \<Rightarrow> string \<Rightarrow> string \<Rightarrow> string \<Rightarrow> PairedDevice list \<Rightarrow> EmbeddedConfig" where
  "embedded_config c cert key internalToken devices =
     (let b = cf_Broker (co_cfg c) in
      \<lparr> ec_TCPHost = bc_TCPHost b, ec_TCPPort = bc_TCPPort b, ec_WSSHost = bc_WSSHost b, ec_WSSPort = bc_WSSPort b,
        ec_TLSCert = cert, ec_TLSKey = key, ec_Username = cf_Username (co_cfg c), ec_InternalToken = internalToken,
        ec_Devices = devices, ec_JetStreamMaxMem = js_MaxBytes (cf_JetStream (co_cfg c)),
        ec_StoreDir = co_StateHome c \<rparr>)"

text \<open>The server, its start and the in-process client, from the credentials loaded.\<close>

definition start_server ::
    "ctrl_env \<Rightarrow> string \<Rightarrow> EmbeddedConfig \<Rightarrow> (ctrl_error + EmbeddedServer) \<times> daemon_event list" where
  "start_server e tok cfg =
     (case NewEmbeddedServer (ce_server e) cfg of
        (Inl err, es) \<Rightarrow> (Inl (Server err), es)
      | (Inr srv, es) \<Rightarrow>
          (case es_Start (ce_server e) srv of
             (Some err, _, es') \<Rightarrow> (Inl (Server err), es @ es')
           | (None, srv', es') \<Rightarrow>
               (case ConnectEmbedded (sv_net (ce_server e)) (ClientURL srv') tok of
                  Inl err \<Rightarrow> (Inl (Conn err), es @ es' @ es_Shutdown srv')
                | Inr _ \<Rightarrow> (Inr srv', es @ es' @ [Connected]))))"

definition startEmbedded :: "ctrl_env \<Rightarrow> Controller \<Rightarrow> world \<Rightarrow> (ctrl_error + EmbeddedServer) \<times> world" where
  "startEmbedded e c w =
     (let io = ce_io e; b = cf_Broker (co_cfg c) in
      case LoadTLS io (wd_fs w) (bc_CertFile b) (bc_KeyFile b) of
        Inl err \<Rightarrow> (Inl (Tls err), w)
      | Inr (cert, key) \<Rightarrow>
          (case LoadOrGenerateToken io (wd_fs w) (ce_token_rnd e) (co_InternalTokenPath c) of
             (Inl err, fs1) \<Rightarrow> (Inl (Internal_token err), w\<lparr> wd_fs := fs1 \<rparr>)
           | (Inr tok, fs1) \<Rightarrow>
               (let (_, fs2) = MigrateFromSingleToken io fs1 (ce_device_rnd e) (ce_now e)
                      (co_PairingTokenPath c) (co_UsernamePath c) (co_DevicesPath c);
                    w2 = w\<lparr> wd_fs := fs2 \<rparr> in
                case LoadDevices io fs2 (co_DevicesPath c) of
                  Inl err \<Rightarrow> (Inl (Load_devices err), w2)
                | Inr devices \<Rightarrow>
                    if mkdir_err io (co_StateHome c) then (Inl Store_dir, w2)
                    else
                      let (r, es) = start_server e tok (embedded_config c cert key tok devices) in
                      (r, record_events es w2))))"

definition startShared :: "ctrl_env \<Rightarrow> Controller \<Rightarrow> world \<Rightarrow> ctrl_error option \<times> world" where
  "startShared e c w =
     (case ConnectShared (sv_net (ce_server e)) (cf_SharedBroker (co_cfg c)) of
        Inl err \<Rightarrow> (Some (Conn err), w)
      | Inr _ \<Rightarrow> (None, record_events [Connected] w))"

text \<open>Start each subsystem and wait for it; \<^verbatim>\<open>started\<close> collects the ones that became ready.\<close>

fun start_subsystems ::
    "ctrl_env \<Rightarrow> string list \<Rightarrow> string list \<Rightarrow> world \<Rightarrow> ctrl_error option \<times> string list \<times> world" where
  "start_subsystems e [] started w = (None, started, w)"
| "start_subsystems e (s # ss) started w =
     (case ce_sub e s of
        Start_fails \<Rightarrow> (Some (Subsystem s Start_fails), started, w)
      | Context_done \<Rightarrow> (Some Context_err, started, record_events [SubStarted s] w)
      | Becomes_ready \<Rightarrow> start_subsystems e ss (started @ [s]) (record_events [SubStarted s, SubReady s] w)
      | failure \<Rightarrow> (Some (Subsystem s failure), started, record_events [SubStarted s] w))"

text \<open>The deferred stop; errors of \<^verbatim>\<open>Stop\<close> are only logged.\<close>

definition stop_subsystems :: "string list \<Rightarrow> world \<Rightarrow> world" where
  "stop_subsystems started = record_events (map SubStopped (rev started))"

text \<open>\<^verbatim>\<open>OnReloadDevices\<close> is the tracker's \<^verbatim>\<open>ReloadDevices\<close>; a failure to make the consumers is only
  logged.\<close>

definition reloadAuth :: "ctrl_env \<Rightarrow> Controller \<Rightarrow> EmbeddedServer option \<Rightarrow> world \<Rightarrow> EmbeddedServer option \<times> world" where
  "reloadAuth e c srv w =
     (case srv of
        None \<Rightarrow> (None, w)
      | Some s \<Rightarrow>
          (case LoadOrGenerateToken (ce_io e) (wd_fs w) (ce_token_rnd e) (co_InternalTokenPath c) of
             (Inl _, fs1) \<Rightarrow> (Some s, w\<lparr> wd_fs := fs1 \<rparr>)
           | (Inr tok, fs1) \<Rightarrow>
               (let w1 = w\<lparr> wd_fs := fs1 \<rparr> in
                case LoadDevices (ce_io e) fs1 (co_DevicesPath c) of
                  Inl _ \<Rightarrow> (Some s, w1)
                | Inr devices \<Rightarrow>
                    (case ReloadAuth (ce_server e) (cf_Username (co_cfg c)) tok devices s of
                       (Some _, s') \<Rightarrow> (Some s', w1)
                     | (None, s') \<Rightarrow>
                         (let (_, js) = EnsureJetStream (ce_js e) (cf_Username (co_cfg c)) devices
                                (cf_JetStream (co_cfg c)) (wd_js w1);
                              w2 = w1\<lparr> wd_js := js,
                                wd_tracker := (if co_on_reload c then ReloadDevices devices (wd_tracker w1)
                                               else wd_tracker w1) \<rparr>
                          in (Some s', record_events [AuthReloaded] w2))))))"

text \<open>
  The main loop as what arrives before the context is cancelled, which is the end of the list: a
  reload signal, with what the world answers during that reload, or a change another process
  makes to the files. Without a reload channel signals are not received.
\<close>

datatype happening = Reload ctrl_env | Disk fs

fun main_loop :: "Controller \<Rightarrow> happening list \<Rightarrow> EmbeddedServer option \<Rightarrow> world \<Rightarrow> EmbeddedServer option \<times> world" where
  "main_loop c [] srv w = (srv, w)"
| "main_loop c (Disk fs # hs) srv w = main_loop c hs srv (w\<lparr> wd_fs := fs \<rparr>)"
| "main_loop c (Reload e # hs) srv w =
     (if co_reload c then (let (srv', w') = reloadAuth e c srv w in main_loop c hs srv' w')
      else main_loop c hs srv w)"

text \<open>From the connection to the end of the run, before the deferred shutdown of the broker.\<close>

definition run_connected ::
    "ctrl_env \<Rightarrow> Controller \<Rightarrow> happening list \<Rightarrow> EmbeddedServer option \<Rightarrow> world \<Rightarrow>
     ctrl_error option \<times> EmbeddedServer option \<times> world" where
  "run_connected e c hs srv w =
     (let devices = (case LoadDevices (ce_io e) (wd_fs w) (co_DevicesPath c) of Inl _ \<Rightarrow> [] | Inr ds \<Rightarrow> ds) in
      case EnsureJetStream (ce_js e) (cf_Username (co_cfg c)) devices (cf_JetStream (co_cfg c)) (wd_js w) of
        (Some err, js) \<Rightarrow> (Some (Jetstream err), srv, w\<lparr> wd_js := js \<rparr>)
      | (None, js) \<Rightarrow>
          (case start_subsystems e (co_subsystems c) [] (w\<lparr> wd_js := js \<rparr>) of
             (Some err, started, w1) \<Rightarrow> (Some err, srv, stop_subsystems started w1)
           | (None, started, w1) \<Rightarrow>
               (let (srv', w2) = main_loop c hs srv (record_events [AllReady] w1)
                in (None, srv', stop_subsystems started w2))))"

definition shutdown_broker :: "EmbeddedServer option \<Rightarrow> world \<Rightarrow> world" where
  "shutdown_broker srv =
     record_events (Drained # (case srv of None \<Rightarrow> [] | Some s \<Rightarrow> es_Shutdown s))"

definition Run :: "ctrl_env \<Rightarrow> Controller \<Rightarrow> happening list \<Rightarrow> world \<Rightarrow> ctrl_error option \<times> world" where
  "Run e c hs w =
     (case LoadOrGenerateDaemonID (ce_io e) (wd_fs w) (ce_id_rnd e) (co_DaemonIDPath c) of
        (Inl err, fs1) \<Rightarrow> (Some (Daemon_id err), w\<lparr> wd_fs := fs1 \<rparr>)
      | (Inr _, fs1) \<Rightarrow>
          (let w1 = w\<lparr> wd_fs := fs1 \<rparr> in
           if bc_Enabled (cf_Broker (co_cfg c)) then
             (case startEmbedded e c w1 of
                (Inl err, w2) \<Rightarrow> (Some err, w2)
              | (Inr srv, w2) \<Rightarrow>
                  (let (err, srv', w3) = run_connected e c hs (Some srv) w2 in (err, shutdown_broker srv' w3)))
           else
             (case startShared e c w1 of
                (Some err, w2) \<Rightarrow> (Some err, w2)
              | (None, w2) \<Rightarrow>
                  (let (err, srv', w3) = run_connected e c hs None w2 in (err, shutdown_broker srv' w3)))))"

end
