(* ===== verification/ControllerLaws.thy ===== *)
theory ControllerLaws
  imports Controller
begin

text \<open>
  Theorems about the run of the daemon: what is started is stopped, in the right order, on every
  way out; and a device removed from the registry loses its account at the next reload.
\<close>

section \<open>The trace of a run\<close>

fun phase :: "daemon_event \<Rightarrow> nat" where
  "phase (TempDirMade d) = 0"
| "phase ServerStarted = 1"
| "phase Connected = 2"
| "phase (SubStarted s) = 3"
| "phase (SubReady s) = 3"
| "phase AllReady = 3"
| "phase AuthReloaded = 3"
| "phase (SubStopped s) = 4"
| "phase Drained = 5"
| "phase ServerStopped = 6"
| "phase (TempDirRemoved d) = 7"

text \<open>The subsystems a trace starts, reports ready, and stops.\<close>

definition started_subs :: "daemon_event list \<Rightarrow> string list" where
  "started_subs es = concat (map (\<lambda>x. case x of SubStarted s \<Rightarrow> [s] | _ \<Rightarrow> []) es)"

definition ready_subs :: "daemon_event list \<Rightarrow> string list" where
  "ready_subs es = concat (map (\<lambda>x. case x of SubReady s \<Rightarrow> [s] | _ \<Rightarrow> []) es)"

definition stopped_subs :: "daemon_event list \<Rightarrow> string list" where
  "stopped_subs es = concat (map (\<lambda>x. case x of SubStopped s \<Rightarrow> [s] | _ \<Rightarrow> []) es)"

lemma subs_simps [simp]:
  "started_subs [] = []" "ready_subs [] = []" "stopped_subs [] = []"
  "started_subs (x # es) = (case x of SubStarted s \<Rightarrow> [s] | _ \<Rightarrow> []) @ started_subs es"
  "ready_subs (x # es) = (case x of SubReady s \<Rightarrow> [s] | _ \<Rightarrow> []) @ ready_subs es"
  "stopped_subs (x # es) = (case x of SubStopped s \<Rightarrow> [s] | _ \<Rightarrow> []) @ stopped_subs es"
  "started_subs (es @ fs) = started_subs es @ started_subs fs"
  "ready_subs (es @ fs) = ready_subs es @ ready_subs fs"
  "stopped_subs (es @ fs) = stopped_subs es @ stopped_subs fs"
  by (simp_all add: started_subs_def ready_subs_def stopped_subs_def)

lemma record_events_sel [simp]:
  "wd_events (record_events es w) = wd_events w @ es" "wd_fs (record_events es w) = wd_fs w"
  "wd_js (record_events es w) = wd_js w" "wd_tracker (record_events es w) = wd_tracker w"
  by (simp_all add: record_events_def)

text \<open>The events of subsystems \<open>ready\<close>, then of one that does not become ready, if any.\<close>

definition start_trace :: "string list \<Rightarrow> string list \<Rightarrow> daemon_event list" where
  "start_trace ready failed = concat (map (\<lambda>s. [SubStarted s, SubReady s]) ready) @ map SubStarted failed"

lemma start_trace_subs [simp]:
  "started_subs (start_trace ready failed) = ready @ failed"
  "ready_subs (start_trace ready failed) = ready"
  "stopped_subs (start_trace ready failed) = []"
proof -
  have f: "started_subs (map SubStarted xs) = xs" "ready_subs (map SubStarted xs) = []"
    "stopped_subs (map SubStarted xs) = []" for xs
    by (induction xs) simp_all
  show "started_subs (start_trace ready failed) = ready @ failed"
    "ready_subs (start_trace ready failed) = ready" "stopped_subs (start_trace ready failed) = []"
    unfolding start_trace_def by (induction ready) (simp_all add: f)
qed

lemma stop_trace_subs [simp]:
  "started_subs (map SubStopped xs) = []" "ready_subs (map SubStopped xs) = []"
  "stopped_subs (map SubStopped xs) = xs"
  by (induction xs) simp_all

lemma reload_trace_subs [simp]:
  "started_subs (replicate n AuthReloaded) = []" "ready_subs (replicate n AuthReloaded) = []"
  "stopped_subs (replicate n AuthReloaded) = []"
  by (induction n) simp_all

lemma start_trace_phase: "x \<in> set (start_trace ready failed) \<Longrightarrow> phase x = 3"
  by (auto simp: start_trace_def)

lemma start_subsystems_trace:
  "start_subsystems e ss started w = (err, started', w') \<Longrightarrow>
     \<exists>ready failed rest. ss = ready @ failed @ rest \<and> length failed \<le> 1 \<and> started' = started @ ready
       \<and> (err = None \<longrightarrow> failed @ rest = []) \<and> (err \<noteq> None \<longrightarrow> ready \<noteq> ss)
       \<and> w' = record_events (start_trace ready failed) w"
proof (induction ss arbitrary: started w)
  case Nil
  then show ?case by (simp add: start_trace_def record_events_def)
next
  case (Cons s ss)
  show ?case
  proof (cases "ce_sub e s")
    case Becomes_ready
    with Cons.prems have "start_subsystems e ss (started @ [s]) (record_events [SubStarted s, SubReady s] w) = (err, started', w')"
      by simp
    from Cons.IH [OF this] obtain ready failed rest where r: "ss = ready @ failed @ rest" "length failed \<le> 1"
      "started' = (started @ [s]) @ ready" "err = None \<longrightarrow> failed @ rest = []" "err \<noteq> None \<longrightarrow> ready \<noteq> ss"
      "w' = record_events (start_trace ready failed) (record_events [SubStarted s, SubReady s] w)"
      by blast
    then have "s # ss = (s # ready) @ failed @ rest \<and> length failed \<le> 1 \<and> started' = started @ s # ready
        \<and> (err = None \<longrightarrow> failed @ rest = []) \<and> (err \<noteq> None \<longrightarrow> s # ready \<noteq> s # ss)
        \<and> w' = record_events (start_trace (s # ready) failed) w"
      by (simp add: start_trace_def record_events_def)
    then show ?thesis by blast
  next
    case Start_fails
    with Cons.prems show ?thesis
      by (intro exI [of _ "[]"] exI [of _ "[]"] exI [of _ "s # ss"]) (auto simp: start_trace_def record_events_def)
  next
    case Ready_error
    with Cons.prems show ?thesis
      by (intro exI [of _ "[]"] exI [of _ "[s]"] exI [of _ ss]) (auto simp: start_trace_def)
  next
    case Ready_timeout
    with Cons.prems show ?thesis
      by (intro exI [of _ "[]"] exI [of _ "[s]"] exI [of _ ss]) (auto simp: start_trace_def)
  next
    case Context_done
    with Cons.prems show ?thesis
      by (intro exI [of _ "[]"] exI [of _ "[s]"] exI [of _ ss]) (auto simp: start_trace_def)
  qed
qed

text \<open>A server that was created stays created; its shutdown is the same one.\<close>

lemma ReloadAuth_shutdown:
  "ReloadAuth sv u t ds s = (err, s') \<Longrightarrow> es_Shutdown s' = es_Shutdown s"
  by (auto simp: ReloadAuth_def es_Shutdown_def Let_def split: option.splits if_splits)

lemma reloadAuth_trace:
  assumes "reloadAuth e c srv w = (srv', w')"
  shows "(\<exists>n. wd_events w' = wd_events w @ replicate n AuthReloaded)
    \<and> map_option es_Shutdown srv' = map_option es_Shutdown srv"
  using assms ReloadAuth_shutdown
  by (auto simp: reloadAuth_def Let_def split: option.splits prod.splits sum.splits if_splits
      intro: exI [of _ 0] exI [of _ 1])

lemma main_loop_trace:
  "main_loop c hs srv w = (srv', w') \<Longrightarrow>
     (\<exists>n. wd_events w' = wd_events w @ replicate n AuthReloaded)
     \<and> map_option es_Shutdown srv' = map_option es_Shutdown srv"
proof (induction c hs srv w rule: main_loop.induct)
  case (1 c srv w)
  then show ?case by (auto intro: exI [of _ 0])
next
  case (2 c fs hs srv w)
  then show ?case by simp
next
  case (3 c e hs srv w)
  show ?case
  proof (cases "co_reload c")
    case True
    obtain s1 w1 where r: "reloadAuth e c srv w = (s1, w1)" by force
    with True "3.prems" have "main_loop c hs s1 w1 = (srv', w')" by simp
    with "3.IH"(1) [OF True r [symmetric] refl] reloadAuth_trace [OF r] show ?thesis
      by (metis append.assoc replicate_add)
  qed (use 3 in simp)
qed

lemma run_connected_trace:
  assumes "run_connected e c hs srv w = (err, srv', w')"
  shows "map_option es_Shutdown srv' = map_option es_Shutdown srv \<and>
    (\<exists>ready failed rest n. co_subsystems c = ready @ failed @ rest \<and> length failed \<le> 1
       \<and> (err = None \<longrightarrow> failed @ rest = [])
       \<and> wd_events w' = wd_events w @ start_trace ready failed
           @ (if err = None then AllReady # replicate n AuthReloaded else [])
           @ map SubStopped (rev ready))"
proof -
  define ds where "ds = (case LoadDevices (ce_io e) (wd_fs w) (co_DevicesPath c) of Inl _ \<Rightarrow> [] | Inr ds \<Rightarrow> ds)"
  obtain je js where ej: "EnsureJetStream (ce_js e) (cf_Username (co_cfg c)) ds (cf_JetStream (co_cfg c)) (wd_js w) = (je, js)"
    by force
  obtain se started w1 where ss: "start_subsystems e (co_subsystems c) [] (w\<lparr> wd_js := js \<rparr>) = (se, started, w1)"
    by (metis prod.exhaust)
  show ?thesis
  proof (cases je)
    case (Some x)
    with assms ej have "srv' = srv" "err \<noteq> None" "wd_events w' = wd_events w"
      by (auto simp: run_connected_def Let_def ds_def [symmetric])
    then have "map_option es_Shutdown srv' = map_option es_Shutdown srv
      \<and> co_subsystems c = [] @ [] @ co_subsystems c \<and> length ([] :: string list) \<le> 1
      \<and> (err = None \<longrightarrow> [] @ co_subsystems c = [])
      \<and> wd_events w' = wd_events w @ start_trace [] [] @ (if err = None then AllReady # replicate 0 AuthReloaded else [])
          @ map SubStopped (rev [])"
      by (auto simp: start_trace_def)
    then show ?thesis by blast
  next
    case None
    from start_subsystems_trace [OF ss] obtain ready failed rest where r: "co_subsystems c = ready @ failed @ rest"
      "length failed \<le> 1" "started = ready" "se = None \<longrightarrow> failed @ rest = []"
      and w1: "w1 = record_events (start_trace ready failed) (w\<lparr> wd_js := js \<rparr>)" by auto
    show ?thesis
    proof (cases se)
      case (Some x)
      with None assms ej ss r w1 have "srv' = srv" "err \<noteq> None"
        "wd_events w' = wd_events w @ start_trace ready failed @ map SubStopped (rev ready)"
        by (auto simp: run_connected_def Let_def ds_def [symmetric] stop_subsystems_def)
      with r show ?thesis by auto
    next
      case se: None
      obtain s2 w2 where ml: "main_loop c hs srv (record_events [AllReady] w1) = (s2, w2)" by force
      with None se assms ej ss r have "err = None" "srv' = s2" "w' = stop_subsystems ready w2"
        by (auto simp: run_connected_def Let_def ds_def [symmetric])
      with main_loop_trace [OF ml] r se w1 show ?thesis by (fastforce simp: stop_subsystems_def)
    qed
  qed
qed

text \<open>Start-up leaves a connected client, and with the embedded broker a server; or nothing.\<close>

lemma NewEmbeddedServer_trace:
  assumes "NewEmbeddedServer sv cfg = (r, es)"
  shows "\<exists>d. (case r of Inl _ \<Rightarrow> es = [] \<or> es = [TempDirMade d, TempDirRemoved d]
       | Inr srv \<Rightarrow> (es = [] \<or> es = [TempDirMade d]) \<and> es_srv srv = None)"
  using assms by (auto simp: NewEmbeddedServer_def Let_def split: option.splits if_splits)

lemma es_Start_trace:
  assumes "es_Start sv s = (err, s', es)"
  shows "(err = None \<longrightarrow> es = [ServerStarted] \<and> es_srv s' \<noteq> None)
    \<and> (err \<noteq> None \<longrightarrow> es = [] \<or> es = [ServerStarted, ServerStopped])"
  using assms by (auto simp: es_Start_def Let_def split: if_splits)

lemma es_Shutdown_trace:
  "es_srv s \<noteq> None \<Longrightarrow> \<exists>ds. es_Shutdown s = ServerStopped # map TempDirRemoved ds"
  by (cases "es_storeDir s \<noteq> '''' \<and> es_isTempDir s")
    (auto simp: es_Shutdown_def intro: exI [of _ "[es_storeDir s]"])

lemma start_server_trace:
  assumes "start_server e tok cfg = (r, es)"
  shows "\<exists>made ds. (case r of
       Inl _ \<Rightarrow> es = map TempDirMade made @ map TempDirRemoved ds
            \<or> es = map TempDirMade made @ [ServerStarted, ServerStopped] @ map TempDirRemoved ds
     | Inr srv \<Rightarrow> es = map TempDirMade made @ [ServerStarted, Connected] \<and> es_srv srv \<noteq> None)"
proof -
  have fail: ?thesis if "r = Inl x" and "es = map TempDirMade made @ map TempDirRemoved ds
      \<or> es = map TempDirMade made @ [ServerStarted, ServerStopped] @ map TempDirRemoved ds" for x made ds
    unfolding that(1) sum.case using that(2) by blast
  obtain r1 es1 where n: "NewEmbeddedServer (ce_server e) cfg = (r1, es1)" by force
  from NewEmbeddedServer_trace [OF n] obtain d where d: "case r1 of Inl _ \<Rightarrow> es1 = [] \<or> es1 = [TempDirMade d, TempDirRemoved d]
       | Inr srv \<Rightarrow> (es1 = [] \<or> es1 = [TempDirMade d]) \<and> es_srv srv = None" by blast
  show ?thesis
  proof (cases r1)
    case (Inl err)
    with assms n have "r = Inl (Server err)" "es = es1" by (simp_all add: start_server_def)
    moreover from Inl d have "es1 = [] \<or> es1 = [TempDirMade d, TempDirRemoved d]" by simp
    ultimately show ?thesis using fail [of _ "[]" "[]"] fail [of _ "[d]" "[d]"] by auto
  next
    case (Inr srv)
    with d have "es1 = map TempDirMade [] \<or> es1 = map TempDirMade [d]" by simp
    then obtain made where made: "es1 = map TempDirMade made" by blast
    obtain e2 s2 es2 where s: "es_Start (ce_server e) srv = (e2, s2, es2)" by (metis prod.exhaust)
    show ?thesis
    proof (cases e2)
      case (Some x)
      with assms n Inr s made have "r = Inl (Server x)" "es = map TempDirMade made @ es2"
        by (simp_all add: start_server_def)
      moreover from es_Start_trace [OF s] Some have "es2 = [] \<or> es2 = [ServerStarted, ServerStopped]" by simp
      ultimately show ?thesis using fail [of _ made "[]"] by auto
    next
      case None
      with es_Start_trace [OF s] have t: "es2 = [ServerStarted]" "es_srv s2 \<noteq> None" by simp_all
      from es_Shutdown_trace [OF t(2)] obtain ds where ds: "es_Shutdown s2 = ServerStopped # map TempDirRemoved ds" by blast
      show ?thesis
      proof (cases "ConnectEmbedded (sv_net (ce_server e)) (ClientURL s2) tok")
        case (Inl y)
        with assms n \<open>r1 = Inr srv\<close> s t made None ds have "r = Inl (Conn y)"
          "es = map TempDirMade made @ [ServerStarted, ServerStopped] @ map TempDirRemoved ds"
          by (simp_all add: start_server_def)
        then show ?thesis using fail by blast
      next
        case (Inr y)
        with assms n \<open>r1 = Inr srv\<close> s t made None show ?thesis
          by (auto simp: start_server_def intro: exI [of _ made])
      qed
    qed
  qed
qed

text \<open>
  A run that gets no connection leaves at most a server started and stopped; one that does is
  start-up, subsystems, main loop, stops, drain and the shutdown of the server there is.
\<close>

definition unconnected :: "daemon_event list \<Rightarrow> bool" where
  "unconnected es \<longleftrightarrow> (\<exists>made mid ds. es = map TempDirMade made @ mid @ map TempDirRemoved ds
     \<and> mid \<in> {[], [ServerStarted, ServerStopped]})"

definition connected :: "Controller \<Rightarrow> bool \<Rightarrow> daemon_event list \<Rightarrow> bool" where
  "connected c completed es \<longleftrightarrow> (\<exists>made up down ds ready failed rest n.
     es = map TempDirMade made @ up @ [Connected] @ start_trace ready failed
        @ (if completed then AllReady # replicate n AuthReloaded else [])
        @ map SubStopped (rev ready) @ [Drained] @ down @ map TempDirRemoved ds
     \<and> (up, down) \<in> {([], []), ([ServerStarted], [ServerStopped])}
     \<and> co_subsystems c = ready @ failed @ rest \<and> length failed \<le> 1 \<and> (completed \<longrightarrow> failed @ rest = []))"

lemma startEmbedded_trace:
  assumes "startEmbedded e c w = (r, w')"
  shows "\<exists>es. wd_events w' = wd_events w @ es \<and> (case r of Inl _ \<Rightarrow> unconnected es
     | Inr srv \<Rightarrow> (\<exists>made. es = map TempDirMade made @ [ServerStarted, Connected]) \<and> es_srv srv \<noteq> None)"
proof -
  have none: "unconnected []" by (auto simp: unconnected_def)
  have srv: "case r of Inl _ \<Rightarrow> unconnected es
     | Inr srv \<Rightarrow> (\<exists>made. es = map TempDirMade made @ [ServerStarted, Connected]) \<and> es_srv srv \<noteq> None"
    if s: "start_server e tok cfg = (r, es)" for r es tok cfg
  proof (cases r)
    case (Inl err)
    with start_server_trace [OF s] obtain made ds where "es = map TempDirMade made @ [] @ map TempDirRemoved ds
        \<or> es = map TempDirMade made @ [ServerStarted, ServerStopped] @ map TempDirRemoved ds" by auto
    then have "unconnected es" unfolding unconnected_def by blast
    with Inl show ?thesis by simp
  qed (use start_server_trace [OF s] in auto)
  from assms show ?thesis unfolding startEmbedded_def Let_def
    by (auto simp: none split: sum.splits prod.splits if_splits dest: srv)
qed

lemma run_connected_closed:
  assumes "run_connected e c hs srv w = (err, srv', w')"
    and "wd_events w = map TempDirMade made @ up @ [Connected]"
    and "shutdown_broker srv w' = w''"
    and "(up, down) \<in> {([], []), ([ServerStarted], [ServerStopped])}"
    and "case srv of None \<Rightarrow> up = [] | Some s \<Rightarrow> up = [ServerStarted] \<and> es_srv s \<noteq> None"
  shows "connected c (err = None) (wd_events (shutdown_broker srv' w'))"
proof -
  from run_connected_trace [OF assms(1)] obtain ready failed rest n where
    s: "map_option es_Shutdown srv' = map_option es_Shutdown srv"
    and r: "co_subsystems c = ready @ failed @ rest" "length failed \<le> 1" "err = None \<longrightarrow> failed @ rest = []"
    and ev: "wd_events w' = wd_events w @ start_trace ready failed
           @ (if err = None then AllReady # replicate n AuthReloaded else []) @ map SubStopped (rev ready)"
    by blast
  have "\<exists>ds. (case srv' of None \<Rightarrow> [] | Some s \<Rightarrow> es_Shutdown s) = down @ map TempDirRemoved ds"
  proof (cases srv)
    case None
    with s assms(4,5) show ?thesis by simp
  next
    case (Some s0)
    with s obtain s1 where "srv' = Some s1" "es_Shutdown s1 = es_Shutdown s0" by auto
    with Some es_Shutdown_trace [of s0] assms(4,5) show ?thesis by auto
  qed
  then obtain ds where "wd_events (shutdown_broker srv' w') = wd_events w' @ Drained # down @ map TempDirRemoved ds"
    unfolding shutdown_broker_def by auto
  with ev assms(2) have "wd_events (shutdown_broker srv' w') = map TempDirMade made @ up @ [Connected]
      @ start_trace ready failed @ (if err = None then AllReady # replicate n AuthReloaded else [])
      @ map SubStopped (rev ready) @ [Drained] @ down @ map TempDirRemoved ds" by simp
  with r assms(4) show ?thesis unfolding connected_def by blast
qed

lemma Run_trace:
  assumes "Run e c hs w = (err, w')" and "wd_events w = []"
  shows "(err \<noteq> None \<and> unconnected (wd_events w')) \<or> connected c (err = None) (wd_events w')"
proof -
  have none: "unconnected []" by (auto simp: unconnected_def)
  obtain r1 fs1 where id: "LoadOrGenerateDaemonID (ce_io e) (wd_fs w) (ce_id_rnd e) (co_DaemonIDPath c) = (r1, fs1)" by force
  let ?w = "w\<lparr> wd_fs := fs1 \<rparr>"
  show ?thesis
  proof (cases r1)
    case (Inl x)
    with assms id none show ?thesis by (auto simp: Run_def)
  next
    case (Inr x)
    note id = id [unfolded Inr]
    show ?thesis
    proof (cases "bc_Enabled (cf_Broker (co_cfg c))")
      case True
      obtain r w2 where st: "startEmbedded e c ?w = (r, w2)" by force
      from startEmbedded_trace [OF st] assms(2) have t: "case r of Inl _ \<Rightarrow> unconnected (wd_events w2)
         | Inr srv \<Rightarrow> (\<exists>made. wd_events w2 = map TempDirMade made @ [ServerStarted, Connected]) \<and> es_srv srv \<noteq> None"
        by auto
      show ?thesis
      proof (cases r)
        case (Inl y)
        with assms id True st t show ?thesis by (auto simp: Run_def)
      next
        case (Inr srv)
        with t obtain made where made: "wd_events w2 = map TempDirMade made @ [ServerStarted] @ [Connected]"
          and srv: "es_srv srv \<noteq> None" by auto
        obtain er s3 w3 where rc: "run_connected e c hs (Some srv) w2 = (er, s3, w3)" by (metis prod.exhaust)
        from assms id True st Inr rc have "err = er" "w' = shutdown_broker s3 w3" by (simp_all add: Run_def)
        with run_connected_closed [OF rc made refl, of "[ServerStopped]"] srv show ?thesis by simp
      qed
    next
      case False
      obtain r w2 where st: "startShared e c ?w = (r, w2)" by force
      show ?thesis
      proof (cases r)
        case (Some y)
        with assms id False st none show ?thesis by (auto simp: Run_def startShared_def split: sum.splits)
      next
        case None
        with st assms(2) have ev: "wd_events w2 = map TempDirMade [] @ [] @ [Connected]"
          by (auto simp: startShared_def split: sum.splits)
        obtain er s3 w3 where rc: "run_connected e c hs None w2 = (er, s3, w3)" by (metis prod.exhaust)
        from assms id False st None rc have "err = er" "w' = shutdown_broker s3 w3" by (simp_all add: Run_def)
        with run_connected_closed [OF rc ev refl, of "[]"] show ?thesis by simp
      qed
    qed
  qed
qed

lemma directory_trace [simp]:
  "started_subs (map TempDirMade ds) = []" "ready_subs (map TempDirMade ds) = []" "stopped_subs (map TempDirMade ds) = []"
  "started_subs (map TempDirRemoved ds) = []" "ready_subs (map TempDirRemoved ds) = []"
  "stopped_subs (map TempDirRemoved ds) = []"
  by (induction ds) simp_all

lemma sorted_same_phase: "\<forall>x \<in> set es. phase x = k \<Longrightarrow> sorted (map phase es)"
  by (induction es) auto

lemma phases_sorted [simp]:
  "sorted (map (phase \<circ> TempDirMade) xs)" "sorted (map (phase \<circ> TempDirRemoved) xs)"
  "sorted (map (phase \<circ> SubStopped) xs)"
  by (induction xs) simp_all

lemma start_phases_sorted [simp]: "sorted (map phase (start_trace ready failed))"
  using sorted_same_phase [of "start_trace ready failed" 3] by (simp add: start_trace_phase)

lemma start_trace_has: "x \<in> set (start_trace ready failed) \<Longrightarrow> \<exists>s. x = SubStarted s \<or> x = SubReady s"
  by (auto simp: start_trace_def)

lemma count_start_trace [simp]:
  "(\<forall>s. x \<noteq> SubStarted s \<and> x \<noteq> SubReady s) \<Longrightarrow> count_list (start_trace ready failed) x = 0"
  by (rule count_notin) (auto dest: start_trace_has)

lemma counts_other [simp]:
  "(\<And>y. x \<noteq> f y) \<Longrightarrow> count_list (map f xs) x = 0"
  by (induction xs) (simp_all, metis)

text \<open>What the property claims of a trace.\<close>

definition tidy :: "Controller \<Rightarrow> bool \<Rightarrow> daemon_event list \<Rightarrow> bool" where
  "tidy c completed es \<longleftrightarrow>
      stopped_subs es = rev (ready_subs es) \<and> sorted (map phase es)
    \<and> (\<exists>failed rest. started_subs es = ready_subs es @ failed \<and> co_subsystems c = started_subs es @ rest
         \<and> length failed \<le> 1 \<and> (completed \<longrightarrow> failed @ rest = []))
    \<and> count_list es Drained = count_list es Connected \<and> count_list es Connected \<le> 1
    \<and> count_list es ServerStopped = count_list es ServerStarted \<and> count_list es ServerStarted \<le> 1
    \<and> (completed \<longleftrightarrow> AllReady \<in> set es)"

lemma tidy_unconnected: "unconnected es \<Longrightarrow> tidy c False es"
proof -
  assume "unconnected es"
  then obtain made mid ds where es: "es = map TempDirMade made @ mid @ map TempDirRemoved ds"
    "mid \<in> {[], [ServerStarted, ServerStopped]}" by (auto simp: unconnected_def)
  then have "sorted (map phase es)" by (auto simp: sorted_append)
  with es show ?thesis by (auto simp: tidy_def)
qed

lemma tidy_connected: "connected c completed es \<Longrightarrow> tidy c completed es"
proof -
  assume "connected c completed es"
  then obtain made up down ds ready failed rest n where
    es: "es = map TempDirMade made @ up @ [Connected] @ start_trace ready failed
        @ (if completed then AllReady # replicate n AuthReloaded else [])
        @ map SubStopped (rev ready) @ [Drained] @ down @ map TempDirRemoved ds"
    and ud: "(up, down) \<in> {([], []), ([ServerStarted], [ServerStopped])}"
    and c: "co_subsystems c = ready @ failed @ rest" "length failed \<le> 1" "completed \<longrightarrow> failed @ rest = []"
    unfolding connected_def by blast
  have st: "\<forall>x \<in> set (start_trace ready failed). phase x = 3" by (simp add: start_trace_phase)
  have "sorted (map phase es)" unfolding es using ud st
    by (auto simp: sorted_append)
  moreover have "AllReady \<in> set es \<longleftrightarrow> completed" unfolding es using ud st
    by (auto dest: start_trace_has)
  ultimately show ?thesis unfolding tidy_def es using ud c by auto
qed

section \<open>Properties\<close>

text \<open>
  C13 (safety): what a run of the daemon starts it stops. Whatever the world answers and wherever
  the run fails: every subsystem that became ready is stopped exactly once, in reverse order;
  then the client is drained, if it ever connected, and then the server stopped, if it ever
  started. At most one subsystem, the last started, is not stopped: one that did not become ready,
  and then the run fails. The run succeeds exactly when all became ready.
\<close>

theorem run_cleans_up:
  assumes "Run e c hs w = (err, w')" and "wd_events w = []"
  shows "let es = wd_events w' in
      stopped_subs es = rev (ready_subs es) \<and> sorted (map phase es)
    \<and> (\<exists>failed rest. started_subs es = ready_subs es @ failed \<and> co_subsystems c = started_subs es @ rest
         \<and> length failed \<le> 1 \<and> (err = None \<longrightarrow> failed @ rest = []))
    \<and> count_list es Drained = count_list es Connected \<and> count_list es Connected \<le> 1
    \<and> count_list es ServerStopped = count_list es ServerStarted \<and> count_list es ServerStarted \<le> 1
    \<and> (err = None \<longleftrightarrow> AllReady \<in> set es)"
proof -
  have "tidy c (err = None) (wd_events w')"
    using Run_trace [OF assms] tidy_unconnected tidy_connected by (metis (full_types))
  then show ?thesis unfolding tidy_def Let_def by blast
qed

section \<open>Reloading the accounts\<close>

lemma LoadDevices_env:
  "LoadDevices e fs p = Inr ds \<Longrightarrow> \<not> read_err e' p \<Longrightarrow> LoadDevices e' fs p = Inr ds"
  by (auto simp: LoadDevices_def os_ReadFile_def split: if_splits)

lemma RemoveDevice_loads:
  assumes "LoadDevices e fs p = Inr ds" and "RemoveDevice e fs p i = (True, None, fs')"
  shows "LoadDevices e fs' p = Inr (filter (\<lambda>d. pd_DeviceID d \<noteq> i) ds)"
  using assms devices.load_saved [OF assms(1)]
  by (auto simp: RemoveDevice_def Let_def split: if_splits)

lemma reloadAuth_keeps:
  assumes "reloadAuth e c (Some s) w = (srv, w')" and "es_srv s \<noteq> None" and "tracker_ok (wd_tracker w)"
  shows "(\<exists>s'. srv = Some s' \<and> es_srv s' \<noteq> None) \<and> tracker_ok (wd_tracker w')"
  using assms ReloadDevices_ok [of "wd_tracker w"]
  by (auto simp: reloadAuth_def ReloadAuth_def Let_def
      split: sum.splits prod.splits option.splits if_splits)

lemma main_loop_append:
  "main_loop c (xs @ ys) srv w = (case main_loop c xs srv w of (srv', w') \<Rightarrow> main_loop c ys srv' w')"
  by (induction c xs srv w rule: main_loop.induct) (simp_all split: prod.split)

lemma main_loop_keeps:
  "main_loop c hs (Some s) w = (srv, w') \<Longrightarrow> es_srv s \<noteq> None \<Longrightarrow> tracker_ok (wd_tracker w) \<Longrightarrow>
     (\<exists>s'. srv = Some s' \<and> es_srv s' \<noteq> None) \<and> tracker_ok (wd_tracker w')"
proof (induction hs arbitrary: s w)
  case (Cons h hs)
  show ?case
  proof (cases h)
    case (Disk fs)
    with Cons.prems show ?thesis by (intro Cons.IH [of s "w\<lparr> wd_fs := fs \<rparr>"]) simp_all
  next
    case (Reload e)
    obtain s1 w1 where r: "reloadAuth e c (Some s) w = (s1, w1)" by force
    from reloadAuth_keeps [OF r Cons.prems(2,3)] Cons Reload r show ?thesis
      by (cases "co_reload c") auto
  qed
qed auto

lemma reloadAuth_ok:
  assumes "os_ReadFile (ce_io e) (wd_fs w) (co_InternalTokenPath c) = ReadOk t"
    and "LoadDevices (ce_io e) (wd_fs w) (co_DevicesPath c) = Inr ds"
    and "\<forall>opts. sv_reload (ce_server e) opts" and "es_srv s \<noteq> None" and "co_on_reload c"
    and "reloadAuth e c (Some s) w = (srv, w')"
  shows "\<exists>s' opts. srv = Some s' \<and> es_srv s' = Some opts
    \<and> so_Users opts = BuildAuthConfig (cf_Username (co_cfg c)) (trim_space (text_of t)) ds
    \<and> wd_tracker w' = ReloadDevices ds (wd_tracker w)"
  using assms
  by (auto simp: reloadAuth_def LoadOrGenerateToken_def loadOrGenerate_def ReloadAuth_def Let_def
      split: prod.splits)

text \<open>
  C5 (safety): a revoked device is locked out. In a running daemon, whatever happened before: once
  the device \<open>i\<close> has been removed from the registry and the daemon has been signalled, no account of
  the server is the device's and the presence tracker does not list it, while every other paired
  device keeps its account and its entry, and the daemon account keeps the token on disk. The
  reads and the server's \<^verbatim>\<open>ReloadOptions\<close> are supposed to succeed in that reload.
\<close>

theorem revoked_device_locked_out:
  assumes "es_srv s \<noteq> None" and "tracker_ok (wd_tracker w)" and "co_reload c" and "co_on_reload c"
    and "LoadDevices io fs (co_DevicesPath c) = Inr ds"
    and "RemoveDevice io fs (co_DevicesPath c) i = (True, None, fs')"
    and "\<not> read_err (ce_io e) (co_DevicesPath c)"
    and "os_ReadFile (ce_io e) fs' (co_InternalTokenPath c) = ReadOk t"
    and "\<forall>opts. sv_reload (ce_server e) opts"
    and "main_loop c (hs @ [Disk fs', Reload e]) (Some s) w = (srv, w')"
  shows "\<exists>s' opts. srv = Some s' \<and> es_srv s' = Some opts
    \<and> map u_Username (so_Users opts)
        = ''daemon'' # map (\<lambda>d. ''mobile-'' @ pd_DeviceID d) (filter (\<lambda>d. pd_DeviceID d \<noteq> i) ds)
    \<and> map u_Password (so_Users opts)
        = trim_space (text_of t) # map pd_Token (filter (\<lambda>d. pd_DeviceID d \<noteq> i) ds)
    \<and> NatsUsername i \<notin> u_Username ` set (so_Users opts)
    \<and> gm_get (tk_devices (wd_tracker w')) i = None
    \<and> (\<forall>d \<in> set ds. pd_DeviceID d \<noteq> i \<longrightarrow> gm_get (tk_devices (wd_tracker w')) (pd_DeviceID d) \<noteq> None)"
proof -
  let ?left = "filter (\<lambda>d. pd_DeviceID d \<noteq> i) ds"
  obtain s1 w1 where m: "main_loop c hs (Some s) w = (s1, w1)" by force
  from main_loop_keeps [OF m assms(1,2)] obtain s2 where s2: "s1 = Some s2" "es_srv s2 \<noteq> None"
    and tk: "tracker_ok (wd_tracker w1)" by blast
  let ?w1 = "w1\<lparr> wd_fs := fs' \<rparr>"
  from assms(3,10) m s2 have r: "reloadAuth e c (Some s2) ?w1 = (srv, w')"
    by (simp add: main_loop_append split: prod.splits)
  from RemoveDevice_loads [OF assms(5,6)] assms(7) have load: "LoadDevices (ce_io e) fs' (co_DevicesPath c) = Inr ?left"
    by (rule LoadDevices_env)
  from reloadAuth_ok [of e ?w1 c t ?left s2 srv w'] assms(8,9,4) s2 r load obtain s' opts where
    o: "srv = Some s'" "es_srv s' = Some opts"
      "so_Users opts = BuildAuthConfig (cf_Username (co_cfg c)) (trim_space (text_of t)) ?left"
    and t: "wd_tracker w' = ReloadDevices ?left (wd_tracker w1)" by auto
  have get: "gm_get (tk_devices (wd_tracker w')) k \<noteq> None \<longleftrightarrow> k \<in> pd_DeviceID ` set ?left" for k
    unfolding t get_ReloadDevices [OF tk] using find_in_ids [of k ?left] by (auto split: option.splits)
  note acc = auth_accounts [of "cf_Username (co_cfg c)" "trim_space (text_of t)" ?left i, folded o(3)]
  have "i \<notin> pd_DeviceID ` set ?left" by auto
  with acc get have no: "NatsUsername i \<notin> u_Username ` set (so_Users opts)"
    "gm_get (tk_devices (wd_tracker w')) i = None" by blast+
  have others: "\<forall>d \<in> set ds. pd_DeviceID d \<noteq> i \<longrightarrow> gm_get (tk_devices (wd_tracker w')) (pd_DeviceID d) \<noteq> None"
    unfolding get by auto
  note a = acc [THEN conjunct1] acc [THEN conjunct2, THEN conjunct1]
  show ?thesis
    by (intro exI [of _ s'] exI [of _ opts] conjI; fact o(1) o(2) a no others)
qed

text \<open>A daemon on a shared broker whose second subsystem never signals.\<close>

definition a_server_env :: server_env where
  "a_server_env = \<lparr> sv_net = \<lparr> nt_key_pair = (\<lambda>_ _. True), nt_connect = (\<lambda>_. True) \<rparr>, sv_temp_dir = Some ''/tmp/j'',
     sv_create = (\<lambda>_. True), sv_ready = True, sv_reload = (\<lambda>_. True) \<rparr>"

definition a_ctrl_env :: ctrl_env where
  "a_ctrl_env = \<lparr> ce_io = io_ok, ce_server = a_server_env,
     ce_js = \<lparr> js_new_ok = True, create_stream = (\<lambda>_. JS_ok), has_stream = (\<lambda>_. True), create_consumer = (\<lambda>_. True) \<rparr>,
     ce_sub = (\<lambda>s. if s = ''mcp'' then Ready_timeout else Becomes_ready),
     ce_id_rnd = [], ce_token_rnd = [], ce_device_rnd = [], ce_now = zero_time \<rparr>"

definition a_controller :: Controller where
  "a_controller = \<lparr> co_cfg = a_config\<lparr> cf_Broker := (cf_Broker a_config)\<lparr> bc_Enabled := False \<rparr> \<rparr>,
     co_subsystems = [''ledger'', ''mcp'', ''registry''], co_reload = True, co_on_reload = True,
     co_DaemonIDPath = ''i'', co_InternalTokenPath = ''t'', co_PairingTokenPath = ''p'', co_UsernamePath = ''u'',
     co_DevicesPath = ''d'', co_StateHome = ''/s'' \<rparr>"

definition two_devices :: "PairedDevice list" where
  "two_devices = [one_device, one_device\<lparr> pd_DeviceID := ''mb_2'', pd_Token := ''rn_tk_2'' \<rparr>]"

definition a_state_dir :: fs where
  "a_state_dir = [''i'' \<mapsto> \<lparr> f_content = Text ''dn_1'', f_mode = perm600 \<rparr>,
     ''t'' \<mapsto> \<lparr> f_content = Text ''rn_tk_0'', f_mode = perm600 \<rparr>,
     ''d'' \<mapsto> \<lparr> f_content = JsonText (JArr (map enc_pd two_devices)), f_mode = perm600 \<rparr>]"

definition a_world :: world where
  "a_world = \<lparr> wd_fs = a_state_dir, wd_js = \<lparr> made_streams = [], made_consumers = [] \<rparr>,
     wd_tracker = new_Tracker ''alice'' minute two_devices, wd_events = [] \<rparr>"

lemma a_env_simps [simp]:
  "ce_io a_ctrl_env = io_ok" "ce_sub a_ctrl_env s = (if s = ''mcp'' then Ready_timeout else Becomes_ready)"
  "ce_id_rnd a_ctrl_env = []" "ce_server a_ctrl_env = a_server_env" "nt_connect (sv_net a_server_env) d = True"
  "sv_reload a_server_env opts = True" "wd_events a_world = []" "wd_fs a_world = a_state_dir"
  "co_subsystems a_controller = [''ledger'', ''mcp'', ''registry'']" "co_DaemonIDPath a_controller = ''i''"
  "co_DevicesPath a_controller = ''d''" "co_InternalTokenPath a_controller = ''t''" "co_reload a_controller"
  "co_on_reload a_controller" "\<not> bc_Enabled (cf_Broker (co_cfg a_controller))"
  "sb_TLSEnabled (cf_SharedBroker (co_cfg a_controller)) = False"
  "js_new_ok (ce_js a_ctrl_env)" "create_stream (ce_js a_ctrl_env) sc = JS_ok" "create_consumer (ce_js a_ctrl_env) cc"
  by (simp_all add: a_ctrl_env_def a_server_env_def a_world_def a_controller_def a_config_def Default_def)

lemma an_id_loads: "LoadOrGenerateDaemonID io_ok a_state_dir [] ''i'' = (Inr (trim_space ''dn_1''), a_state_dir)"
  by (simp add: LoadOrGenerateDaemonID_def loadOrGenerate_def os_ReadFile_def a_state_dir_def)

lemma a_jetstream: "\<exists>js. EnsureJetStream (ce_js a_ctrl_env) u ds cfg st = (None, js)"
proof -
  have "ensure_consumers (ce_js a_ctrl_env) ccs st = (None, st\<lparr> made_consumers := made_consumers st @ ccs \<rparr>)" for ccs st
    by (induction ccs arbitrary: st) simp_all
  then show ?thesis by (simp add: EnsureJetStream_def ensure_stream_def)
qed

lemma a_run_ready: "ready_subs (wd_events (snd (Run a_ctrl_env a_controller [] a_world))) = [''ledger'']"
proof -
  have sh: "startShared a_ctrl_env a_controller (a_world\<lparr> wd_fs := a_state_dir \<rparr>)
      = (None, record_events [Connected] (a_world\<lparr> wd_fs := a_state_dir \<rparr>))"
    by (simp add: startShared_def ConnectShared_def dial_shared_def tls_options_def Let_def)
  obtain js where "EnsureJetStream (ce_js a_ctrl_env) (cf_Username (co_cfg a_controller))
     (case LoadDevices io_ok a_state_dir ''d'' of Inl _ \<Rightarrow> [] | Inr ds \<Rightarrow> ds) (cf_JetStream (co_cfg a_controller))
     (wd_js a_world) = (None, js)" using a_jetstream by blast
  then show ?thesis
    by (simp add: Run_def an_id_loads sh run_connected_def stop_subsystems_def shutdown_broker_def)
qed

theorem run_cleans_up_witness:
  "stopped_subs (wd_events (snd (Run a_ctrl_env a_controller [] a_world))) = [''ledger'']"
proof -
  obtain err w' where r: "Run a_ctrl_env a_controller [] a_world = (err, w')" by force
  have "wd_events a_world = []" by simp
  from run_cleans_up [OF r this] a_run_ready r show ?thesis by (simp add: Let_def)
qed

text \<open>Two devices, one removed while the server runs.\<close>

definition a_server :: EmbeddedServer where
  "a_server = (let o' = \<lparr> so_Host = ''127.0.0.1'', so_Port = 4222, so_MaxMemory = 1, so_StoreDir = ''/s'',
       so_Users = BuildAuthConfig ''alice'' ''rn_tk_0'' two_devices, so_Websocket = None \<rparr>
     in \<lparr> es_srv = Some o', es_opts = o', es_storeDir = ''/s'', es_isTempDir = False \<rparr>)"

definition revoked_dir :: fs where
  "revoked_dir = snd (snd (RemoveDevice io_ok a_state_dir ''d'' ''mb_1''))"

theorem revoked_device_locked_out_witness:
  "\<exists>s' opts. fst (main_loop a_controller [Disk revoked_dir, Reload a_ctrl_env] (Some a_server) a_world) = Some s'
     \<and> es_srv s' = Some opts \<and> NatsUsername ''mb_1'' \<notin> u_Username ` set (so_Users opts)
     \<and> map u_Username (so_Users opts) = [''daemon'', ''mobile-mb_2'']"
proof -
  have ok: "list_all (\<lambda>d. four_digit_year (pd_PairedAt d)) two_devices"
    by (simp add: two_devices_def one_device_def four_digit_year_def)
  have load: "LoadDevices io_ok a_state_dir (co_DevicesPath a_controller) = Inr two_devices"
    using ok by (intro LoadDevices_content [where f = "\<lparr> f_content = JsonText (JArr (map enc_pd two_devices)), f_mode = perm600 \<rparr>"])
      (simp_all add: a_state_dir_def)
  have rm: "RemoveDevice io_ok a_state_dir (co_DevicesPath a_controller) ''mb_1'' = (True, None, revoked_dir)"
    using load ok unfolding revoked_dir_def
    by (simp add: RemoveDevice_def SaveDevices_def two_devices_def one_device_def writeAtomicBytes_def
        writeAtomicBytes_run_def Let_def)
  have t: "os_ReadFile (ce_io a_ctrl_env) revoked_dir (co_InternalTokenPath a_controller) = ReadOk (Text ''rn_tk_0'')"
    using load ok unfolding revoked_dir_def
    by (simp add: RemoveDevice_def SaveDevices_def two_devices_def one_device_def writeAtomicBytes_def
        writeAtomicBytes_run_def Let_def os_ReadFile_def put_file_def tmp_of_def a_state_dir_def)
  have s: "es_srv a_server \<noteq> None" and tk: "tracker_ok (wd_tracker a_world)"
    by (simp_all add: a_server_def Let_def a_world_def new_Tracker_ok)
  obtain srv w' where m: "main_loop a_controller ([] @ [Disk revoked_dir, Reload a_ctrl_env]) (Some a_server) a_world = (srv, w')"
    by force
  have left: "filter (\<lambda>d. pd_DeviceID d \<noteq> ''mb_1'') two_devices = [one_device\<lparr> pd_DeviceID := ''mb_2'', pd_Token := ''rn_tk_2'' \<rparr>]"
    by (simp add: two_devices_def one_device_def)
  from revoked_device_locked_out [OF s tk _ _ load rm _ t _ m, unfolded left] m show ?thesis by auto
qed

end
