(* ===== verification/Netutil.thy ===== *)
theory Netutil
  imports StateFiles
begin

text \<open>
  Package netutil (cli/internal/netutil): which addresses of the machine go into the certificate and
  the pairing code. An address is the bytes of a \<^verbatim>\<open>net.IP\<close> (4 or 16); the interfaces are an argument.
\<close>

unbundle bit_operations_syntax

section \<open>Addresses\<close>

type_synonym ip = "byte list"

definition v4_prefix :: ip where
  "v4_prefix = replicate 10 0 @ [255, 255]"

definition To4 :: "ip \<Rightarrow> ip option" where
  "To4 a = (if length a = 4 then Some a
            else if length a = 16 \<and> take 12 a = v4_prefix then Some (drop 12 a) else None)"

definition IsLoopback :: "ip \<Rightarrow> bool" where
  "IsLoopback a = (case To4 a of Some b \<Rightarrow> b ! 0 = 127 | None \<Rightarrow> a = replicate 15 0 @ [1])"

definition IsLinkLocalUnicast :: "ip \<Rightarrow> bool" where
  "IsLinkLocalUnicast a = (case To4 a of Some b \<Rightarrow> b ! 0 = 169 \<and> b ! 1 = 254
     | None \<Rightarrow> length a = 16 \<and> a ! 0 = 0xFE \<and> (a ! 1) AND 0xC0 = 0x80)"

definition IsLinkLocalMulticast :: "ip \<Rightarrow> bool" where
  "IsLinkLocalMulticast a = (case To4 a of Some b \<Rightarrow> b ! 0 = 224 \<and> b ! 1 = 0 \<and> b ! 2 = 0
     | None \<Rightarrow> length a = 16 \<and> a ! 0 = 0xFF \<and> (a ! 1) AND 0x0F = 0x02)"

text \<open>
  The text of an address: dotted decimal, or groups of hexadecimal digits with the first longest
  run of two or more zero groups elided.
\<close>

definition hex_digit :: "nat \<Rightarrow> char" where
  "hex_digit n = ''0123456789abcdef'' ! n"

fun hex_digits :: "nat \<Rightarrow> nat \<Rightarrow> string" where
  "hex_digits 0 n = []"
| "hex_digits (Suc w) n = hex_digits w (n div 16) @ [hex_digit (n mod 16)]"

definition hex_group :: "nat \<Rightarrow> string" where
  "hex_group n = (let s = dropWhile (\<lambda>c. c = CHR ''0'') (hex_digits 4 n) in if s = [] then ''0'' else s)"

fun groups :: "ip \<Rightarrow> nat list" where
  "groups (a # b # r) = (256 * unat a + unat b) # groups r"
| "groups _ = []"

definition zero_run :: "nat list \<Rightarrow> nat \<Rightarrow> nat" where
  "zero_run gs i = length (takeWhile (\<lambda>g. g = 0) (drop i gs))"

definition best_run :: "nat list \<Rightarrow> nat \<times> nat" where
  "best_run gs = fold (\<lambda>i (s, n). if n < zero_run gs i then (i, zero_run gs i) else (s, n)) [0..<length gs] (0, 0)"

fun join_with :: "string \<Rightarrow> string list \<Rightarrow> string" where
  "join_with sep [] = ''''"
| "join_with sep [s] = s"
| "join_with sep (s # ss) = s @ sep @ join_with sep ss"

definition v6_text :: "nat list \<Rightarrow> string" where
  "v6_text gs = (case best_run gs of (s, n) \<Rightarrow>
     if n < 2 then join_with '':'' (map hex_group gs)
     else join_with '':'' (map hex_group (take s gs)) @ ''::'' @ join_with '':'' (map hex_group (drop (s + n) gs)))"

definition IP_String :: "ip \<Rightarrow> string" where
  "IP_String a =
     (if a = [] then ''<nil>''
      else case To4 a of
        Some b \<Rightarrow> join_with ''.'' (map (\<lambda>x. itoa (int (unat x))) b)
      | None \<Rightarrow> if length a = 16 then v6_text (groups a)
                else ''?'' @ concat (map (\<lambda>x. hex_digits 2 (unat x)) a))"

text \<open>\<^verbatim>\<open>net.ParseIP("127.0.0.1")\<close>: the 16-byte form.\<close>

definition localhost :: ip where
  "localhost = v4_prefix @ [127, 0, 0, 1]"

section \<open>discover.go\<close>

text \<open>An address of an interface is a network with its IP, or something else; the list may fail.\<close>

record interface =
  if_up :: bool
  if_running :: bool
  if_loopback :: bool
  if_addrs :: "ip option list option"

definition usable_ip :: "ip \<Rightarrow> bool" where
  "usable_ip a \<longleftrightarrow> \<not> (IsLoopback a \<or> IsLinkLocalUnicast a \<or> IsLinkLocalMulticast a)"

definition interface_ips :: "interface \<Rightarrow> ip list" where
  "interface_ips i =
     (if \<not> if_up i \<or> \<not> if_running i \<or> if_loopback i then []
      else case if_addrs i of None \<Rightarrow> []
        | Some addrs \<Rightarrow> filter usable_ip (concat (map (\<lambda>a. case a of None \<Rightarrow> [] | Some x \<Rightarrow> [x]) addrs)))"

definition DiscoverIPs :: "interface list option \<Rightarrow> ip list option" where
  "DiscoverIPs ifaces = map_option (\<lambda>is. concat (map interface_ips is)) ifaces"

definition isPrivateIPv4 :: "ip \<Rightarrow> bool" where
  "isPrivateIPv4 a =
     (case To4 a of None \<Rightarrow> False
      | Some b \<Rightarrow> b ! 0 = 10 \<or> (b ! 0 = 172 \<and> 16 \<le> b ! 1 \<and> b ! 1 \<le> 31) \<or> (b ! 0 = 192 \<and> b ! 1 = 168))"

text \<open>The loop with its two candidates.\<close>

fun preferred_loop :: "ip list \<Rightarrow> ip option \<Rightarrow> ip option \<Rightarrow> ip" where
  "preferred_loop [] v4 v6 = (case v4 of Some a \<Rightarrow> a | None \<Rightarrow> (case v6 of Some a \<Rightarrow> a | None \<Rightarrow> localhost))"
| "preferred_loop (a # as) v4 v6 =
     (case To4 a of
        Some b \<Rightarrow> if isPrivateIPv4 b then b else preferred_loop as (if v4 = None then Some b else v4) v6
      | None \<Rightarrow> preferred_loop as v4 (if v6 = None then Some a else v6))"

definition PreferredIP :: "ip list \<Rightarrow> ip" where
  "PreferredIP ips = preferred_loop ips None None"

text \<open>deduplicateIPs of pair.go: the first of the addresses with one text.\<close>

fun dedup_loop :: "ip list \<Rightarrow> string list \<Rightarrow> ip list" where
  "dedup_loop [] seen = []"
| "dedup_loop (a # as) seen =
     (if IP_String a \<in> set seen then dedup_loop as seen else a # dedup_loop as (IP_String a # seen))"

definition deduplicateIPs :: "ip list \<Rightarrow> ip list" where
  "deduplicateIPs ips = dedup_loop ips []"

section \<open>Which address is preferred\<close>

lemma To4_length: "To4 a = Some b \<Longrightarrow> length b = 4"
  by (auto simp: To4_def split: if_splits)

lemma To4_To4: "To4 a = Some b \<Longrightarrow> To4 b = Some b"
  using To4_length [of a b] by (simp add: To4_def)

text \<open>The candidates in the order of preference.\<close>

definition v4_of :: "ip list \<Rightarrow> ip list" where
  "v4_of ips = concat (map (\<lambda>a. case To4 a of None \<Rightarrow> [] | Some b \<Rightarrow> [b]) ips)"

definition candidates :: "ip list \<Rightarrow> ip list" where
  "candidates ips = filter isPrivateIPv4 (v4_of ips) @ v4_of ips @ filter (\<lambda>a. To4 a = None) ips @ [localhost]"

lemma v4_of_simps [simp]:
  "v4_of [] = []" "v4_of (a # as) = (case To4 a of None \<Rightarrow> [] | Some b \<Rightarrow> [b]) @ v4_of as"
  by (simp_all add: v4_of_def)

lemma preferred_loop_hd:
  "preferred_loop ips v4 v6 = hd (filter isPrivateIPv4 (v4_of ips)
     @ (case v4 of None \<Rightarrow> v4_of ips | Some a \<Rightarrow> [a])
     @ (case v6 of None \<Rightarrow> filter (\<lambda>a. To4 a = None) ips | Some a \<Rightarrow> [a]) @ [localhost])"
proof (induction ips arbitrary: v4 v6)
  case Nil
  show ?case by (cases v4; cases v6) simp_all
next
  case (Cons a ips)
  show ?case
  proof (cases "To4 a")
    case None
    then show ?thesis using Cons.IH [of v4 "if v6 = None then Some a else v6"]
      by (cases v6) (simp_all add: hd_append split: option.split)
  next
    case (Some b)
    then show ?thesis using Cons.IH [of "if v4 = None then Some b else v4" v6]
      by (cases v4) (simp_all add: hd_append)
  qed
qed

lemma dedup_loop_spec:
  "distinct (map IP_String (dedup_loop ips seen)) \<and> set (dedup_loop ips seen) \<subseteq> set ips
   \<and> IP_String ` set (dedup_loop ips seen) = IP_String ` set ips - set seen"
  by (induction ips arbitrary: seen) auto

lemma v4_usable: "To4 a = Some b \<Longrightarrow> usable_ip b = usable_ip a"
  using To4_To4 [of a b] by (simp add: usable_ip_def IsLoopback_def IsLinkLocalUnicast_def IsLinkLocalMulticast_def)

lemma discovered_usable: "DiscoverIPs ifaces = Some ips \<Longrightarrow> a \<in> set ips \<Longrightarrow> usable_ip a"
  by (auto simp: DiscoverIPs_def interface_ips_def split: option.splits if_splits)

lemma preferred_candidate:
  assumes "ips \<noteq> []"
  shows "\<exists>b \<in> set ips. preferred_loop ips None None = b \<or> To4 b = Some (preferred_loop ips None None)"
proof -
  let ?l = "filter isPrivateIPv4 (v4_of ips) @ v4_of ips @ filter (\<lambda>a. To4 a = None) ips"
  have v4: "b \<in> set (v4_of ips) \<longleftrightarrow> (\<exists>a \<in> set ips. To4 a = Some b)" for b
    by (induction ips) (auto split: option.splits)
  have ne: "?l \<noteq> []"
  proof (cases "\<exists>a \<in> set ips. To4 a = None")
    case True
    then show ?thesis by (auto simp: filter_empty_conv)
  next
    case False
    with assms obtain a b where "a \<in> set ips" "To4 a = Some b" by (cases ips) auto
    with v4 [of b] have "v4_of ips \<noteq> []" by auto
    then show ?thesis by simp
  qed
  have "preferred_loop ips None None = hd (?l @ [localhost])" by (simp add: preferred_loop_hd)
  with ne have "preferred_loop ips None None \<in> set ?l" by (metis hd_append2 hd_in_set)
  then show ?thesis using v4 by auto
qed

text \<open>
  The address in the pairing code is the head of a list in order of preference:
  the private IPv4 addresses, all IPv4 addresses, the IPv6 ones, the loopback address. When any
  address was discovered it is one of those (in its short form), and neither loopback nor link
  local; the addresses put into the certificate are those discovered and the loopback address,
  each text once.
\<close>

theorem preferred_address:
  "PreferredIP ips = hd (candidates ips)
   \<and> (DiscoverIPs ifaces = Some (a # as) \<longrightarrow> usable_ip (PreferredIP (a # as))
        \<and> (\<exists>b \<in> set (a # as). PreferredIP (a # as) = b \<or> To4 b = Some (PreferredIP (a # as))))
   \<and> distinct (map IP_String (deduplicateIPs (ips @ [localhost])))
   \<and> IP_String ` set (deduplicateIPs (ips @ [localhost])) = insert (IP_String localhost) (IP_String ` set ips)"
proof -
  have a: "PreferredIP ips = hd (candidates ips)"
    by (simp add: PreferredIP_def preferred_loop_hd candidates_def)
  have b: "\<exists>b \<in> set (a # as). PreferredIP (a # as) = b \<or> To4 b = Some (PreferredIP (a # as))"
    unfolding PreferredIP_def by (rule preferred_candidate) simp
  then have "DiscoverIPs ifaces = Some (a # as) \<Longrightarrow> usable_ip (PreferredIP (a # as))"
    using discovered_usable v4_usable by metis
  with a b dedup_loop_spec [of "ips @ [localhost]" "[]"] show ?thesis
    by (simp add: deduplicateIPs_def)
qed

theorem preferred_address_witness:
  "PreferredIP [[192, 168, 1, 2]] = [192, 168, 1, 2] \<and> usable_ip (PreferredIP [[192, 168, 1, 2]])"
proof -
  let ?if = "\<lparr> if_up = True, if_running = True, if_loopback = False, if_addrs = Some [Some [192, 168, 1, 2]] \<rparr>"
  have d: "DiscoverIPs (Some [?if]) = Some [[192, 168, 1, 2]]"
    by (simp add: DiscoverIPs_def interface_ips_def usable_ip_def IsLoopback_def IsLinkLocalUnicast_def
        IsLinkLocalMulticast_def To4_def)
  from preferred_address [of "[[192, 168, 1, 2]]" "Some [?if]" "[192, 168, 1, 2]" "[]"] d
  have "usable_ip (PreferredIP [[192, 168, 1, 2]])" by blast
  moreover have "PreferredIP [[192, 168, 1, 2]] = [192, 168, 1, 2]"
    by (simp add: PreferredIP_def To4_def isPrivateIPv4_def)
  ultimately show ?thesis by simp
qed

end
