(* ===== verification/Tlsgen.thy ===== *)
theory Tlsgen
  imports Netutil
begin

text \<open>
  The self-signed certificate of the WSS listener (cli/internal/tlsgen): the template that
  \<^verbatim>\<open>Generate\<close> fills in, the order of its steps and their errors, the fingerprint. The primitives it
  calls (ECDSA keys, the random serial, X.509 signing, DER, PEM, SHA-256, the clock) are arguments.
\<close>

section \<open>Certificates\<close>

datatype key_usage = KeyUsageDigitalSignature

datatype ext_key_usage = ExtKeyUsageServerAuth

record Certificate =
  ct_SerialNumber :: nat
  ct_CommonName :: string
  ct_NotBefore :: time
  ct_NotAfter :: time
  ct_KeyUsage :: key_usage
  ct_ExtKeyUsage :: "ext_key_usage list"
  ct_BasicConstraintsValid :: bool
  ct_IPAddresses :: "ip list"
  ct_DNSNames :: "string list"

text \<open>
  A key and DER data are bytes. Signing takes the template and the key; its parent is the template
  itself and the public key that of the key.
\<close>

record crypto =
  cr_key :: "byte list option"
  cr_serial :: "nat option"
  cr_now :: time
  cr_create :: "Certificate \<Rightarrow> byte list \<Rightarrow> byte list option"
  cr_ec_key :: "byte list \<Rightarrow> byte list option"
  cr_pem_encode :: "string \<Rightarrow> byte list \<Rightarrow> string"
  cr_pem_decode :: "string \<Rightarrow> (string \<times> byte list) option"
  cr_sha256 :: "byte list \<Rightarrow> byte list"

datatype tls_error = Generate_key | Generate_serial | Create_certificate | Marshal_key | Read_cert | No_certificate

section \<open>tlsgen.go\<close>

record GenerateParams =
  gp_DaemonID :: string
  gp_IPs :: "ip list"
  gp_Hostnames :: "string list"

record GenerateResult =
  ge_CertPEM :: string
  ge_KeyPEM :: string
  ge_CertDER :: "byte list"
  ge_Fingerprint :: string

definition Fingerprint :: "crypto \<Rightarrow> byte list \<Rightarrow> string" where
  "Fingerprint cr der = concat (map (\<lambda>b. hex_digits 2 (unat b)) (cr_sha256 cr der))"

definition cert_template :: "nat \<Rightarrow> time \<Rightarrow> GenerateParams \<Rightarrow> Certificate" where
  "cert_template serial now params =
     \<lparr> ct_SerialNumber = serial, ct_CommonName = ''renotify-'' @ gp_DaemonID params, ct_NotBefore = now,
       ct_NotAfter = now + 1095 * 24 * hour, ct_KeyUsage = KeyUsageDigitalSignature,
       ct_ExtKeyUsage = [ExtKeyUsageServerAuth], ct_BasicConstraintsValid = True, ct_IPAddresses = gp_IPs params,
       ct_DNSNames = gp_Hostnames params \<rparr>"

definition Generate :: "crypto \<Rightarrow> GenerateParams \<Rightarrow> tls_error + GenerateResult" where
  "Generate cr params =
     (case cr_key cr of None \<Rightarrow> Inl Generate_key
      | Some key \<Rightarrow> (case cr_serial cr of None \<Rightarrow> Inl Generate_serial
      | Some serial \<Rightarrow> (case cr_create cr (cert_template serial (cr_now cr) params) key of None \<Rightarrow> Inl Create_certificate
      | Some certDER \<Rightarrow> (case cr_ec_key cr key of None \<Rightarrow> Inl Marshal_key
      | Some keyDER \<Rightarrow>
          Inr \<lparr> ge_CertPEM = cr_pem_encode cr ''CERTIFICATE'' certDER, ge_KeyPEM = cr_pem_encode cr ''EC PRIVATE KEY'' keyDER,
                ge_CertDER = certDER, ge_Fingerprint = Fingerprint cr certDER \<rparr>))))"

definition FingerprintFromPEMFile :: "crypto \<Rightarrow> io \<Rightarrow> fs \<Rightarrow> string \<Rightarrow> tls_error + string" where
  "FingerprintFromPEMFile cr e fs certPath =
     (case os_ReadFile e fs certPath of
        ReadOk c \<Rightarrow>
          (case cr_pem_decode cr (text_of c) of
             Some (t, der) \<Rightarrow> if t \<noteq> ''CERTIFICATE'' then Inl No_certificate else Inr (Fingerprint cr der)
           | None \<Rightarrow> Inl No_certificate)
      | _ \<Rightarrow> Inl Read_cert)"

section \<open>What is generated\<close>

text \<open>What the code relies on of \<^verbatim>\<open>encoding/pem\<close>: a block that was encoded is found again.\<close>

definition pem_roundtrip :: "crypto \<Rightarrow> bool" where
  "pem_roundtrip cr \<longleftrightarrow> (\<forall>t der. cr_pem_decode cr (cr_pem_encode cr t der) = Some (t, der))"

lemma Generate_signed:
  assumes "Generate cr params = Inr g"
  obtains serial key where "cr_create cr (cert_template serial (cr_now cr) params) key = Some (ge_CertDER g)"
    "ge_CertPEM g = cr_pem_encode cr ''CERTIFICATE'' (ge_CertDER g)" "ge_Fingerprint g = Fingerprint cr (ge_CertDER g)"
  using assms by (auto simp: Generate_def split: option.splits)

text \<open>The fingerprint read back from the file is the one of the certificate written to it.\<close>

lemma fingerprint_of_generated:
  assumes "Generate cr params = Inr g" and "pem_roundtrip cr" and "fs p = Some f" and "f_content f = Text (ge_CertPEM g)"
    and "FingerprintFromPEMFile cr e fs p = Inr fp"
  shows "fp = ge_Fingerprint g"
proof (rule Generate_signed [OF assms(1)])
  assume "ge_CertPEM g = cr_pem_encode cr ''CERTIFICATE'' (ge_CertDER g)" "ge_Fingerprint g = Fingerprint cr (ge_CertDER g)"
  with assms(2-5) show ?thesis
    by (auto simp: FingerprintFromPEMFile_def os_ReadFile_def pem_roundtrip_def split: if_splits)
qed

end
