(* ===== verification/Daemon.thy ===== *)
theory Daemon
  imports Controller
begin

text \<open>
  The daemon command (cli/internal/command/daemon.go, signal.go): the PID file, start, stop, status
  and reload, the signal other commands send after a change of the registry, the re-execution in
  the background, and the life of the daemon process around the run of the controller.
\<close>

section \<open>Processes\<close>

datatype signal = SIGHUP | SIGTERM

text \<open>
  The operating system: the file system calls, which processes \<^verbatim>\<open>os.FindProcess\<close> finds, which
  exist (signal 0), which take a signal, the process of the caller, and the \<open>k\<close>-th later look at
  a process.
\<close>

record os_env =
  oe_io :: io
  oe_find :: "int \<Rightarrow> bool"
  oe_alive :: "int \<Rightarrow> bool"
  oe_signal :: "int \<Rightarrow> signal \<Rightarrow> bool"
  oe_later :: "nat \<Rightarrow> int \<Rightarrow> bool"
  oe_pid :: int

text \<open>What a command changes: files, signals delivered, what it prints (a line, a JSON value, or a row of
  cells for the tab writer).\<close>

datatype item = Line string | Json json | Row "string list"

record host =
  ho_fs :: fs
  ho_signals :: "(int \<times> signal) list"
  ho_stdout :: "item list"
  ho_stderr :: "item list"

datatype daemon_error =
    Config_invalid config_error | Already_running int | No_pid_file | Stale_pid int
  | Find_process int | Signal_process int | Logger | Daemon_id_error state_error | Run_failed ctrl_error
  | Resolve_executable | Start_background

text \<open>Each error has the exit code of \<^verbatim>\<open>exitcode.Error\<close>.\<close>

type_synonym daemon_result = "daemon_error option"

text \<open>\<^verbatim>\<open>strconv.Atoi\<close>: an optional sign and digits, within 64 bits.\<close>

definition Atoi :: "string \<Rightarrow> int option" where
  "Atoi s =
     (let neg = (s \<noteq> [] \<and> hd s = CHR ''-'');
          ds = (if s \<noteq> [] \<and> (hd s = CHR ''-'' \<or> hd s = CHR ''+'') then tl s else s);
          n = (if neg then - int (num_of ds) else int (num_of ds))
      in if ds = [] \<or> \<not> list_all is_digit ds \<or> n < - (2 ^ 63) \<or> 2 ^ 63 \<le> n then None else Some n)"

definition readPID :: "io \<Rightarrow> string \<Rightarrow> fs \<Rightarrow> int option" where
  "readPID e p fs = (case os_ReadFile e fs p of ReadOk c \<Rightarrow> Atoi (trim_space (text_of c)) | _ \<Rightarrow> None)"

definition processRunning :: "os_env \<Rightarrow> int \<Rightarrow> bool" where
  "processRunning e pid \<longleftrightarrow> oe_find e pid \<and> oe_alive e pid"

text \<open>The write truncates the file first; a failing one may leave anything.\<close>

definition writePID :: "os_env \<Rightarrow> string \<Rightarrow> fs \<Rightarrow> bool \<times> fs" where
  "writePID e p fs =
     (if mkdir_err (oe_io e) (dir_of p) then (False, fs)
      else case write_err (oe_io e) p of
        Some junk \<Rightarrow> (False, put_file fs p junk perm600)
      | None \<Rightarrow> (True, put_file fs p (Text (itoa (oe_pid e) @ [CHR 0x0A])) perm600))"

definition removePIDIfOwned :: "os_env \<Rightarrow> string \<Rightarrow> fs \<Rightarrow> fs" where
  "removePIDIfOwned e p fs =
     (if readPID (oe_io e) p fs = Some (oe_pid e) then os_Remove (oe_io e) fs p else fs)"

section \<open>stop, status, reload\<close>

definition host_out :: "string \<Rightarrow> host \<Rightarrow> host" where
  "host_out s h = h\<lparr> ho_stdout := ho_stdout h @ [Line s] \<rparr>"

definition host_err :: "string \<Rightarrow> host \<Rightarrow> host" where
  "host_err s h = h\<lparr> ho_stderr := ho_stderr h @ [Line s] \<rparr>"

definition remove_pid :: "os_env \<Rightarrow> string \<Rightarrow> host \<Rightarrow> host" where
  "remove_pid e p h = h\<lparr> ho_fs := os_Remove (oe_io e) (ho_fs h) p \<rparr>"

definition deliver :: "int \<Rightarrow> signal \<Rightarrow> host \<Rightarrow> host" where
  "deliver pid sig h = h\<lparr> ho_signals := ho_signals h @ [(pid, sig)] \<rparr>"

text \<open>The part stop and reload share: find a running daemon and signal it.\<close>

definition signal_daemon :: "os_env \<Rightarrow> string \<Rightarrow> signal \<Rightarrow> host \<Rightarrow> (daemon_error + int) \<times> host" where
  "signal_daemon e p sig h =
     (case readPID (oe_io e) p (ho_fs h) of
        None \<Rightarrow> (Inl No_pid_file, h)
      | Some pid \<Rightarrow>
          if \<not> processRunning e pid then (Inl (Stale_pid pid), remove_pid e p h)
          else if \<not> oe_find e pid then (Inl (Find_process pid), h)
          else if \<not> oe_signal e pid sig then (Inl (Signal_process pid), h)
          else (Inr pid, deliver pid sig h))"

text \<open>Twenty looks, a quarter of a second apart.\<close>

fun await_exit :: "os_env \<Rightarrow> int \<Rightarrow> nat \<Rightarrow> nat \<Rightarrow> bool" where
  "await_exit e pid k 0 = False"
| "await_exit e pid k (Suc n) = (if \<not> (oe_find e pid \<and> oe_later e k pid) then True else await_exit e pid (Suc k) n)"

definition daemon_stop :: "os_env \<Rightarrow> string \<Rightarrow> host \<Rightarrow> daemon_result \<times> host" where
  "daemon_stop e p h =
     (case signal_daemon e p SIGTERM h of
        (Inl er, h) \<Rightarrow> (Some er, h)
      | (Inr pid, h) \<Rightarrow>
          if await_exit e pid 0 20 then (None, host_err ''daemon stopped'' h)
          else (None, host_err (''SIGTERM sent to pid '' @ itoa pid @ ''; waiting for exit'') h))"

definition daemon_status :: "os_env \<Rightarrow> string \<Rightarrow> host \<Rightarrow> daemon_result \<times> host" where
  "daemon_status e p h =
     (case readPID (oe_io e) p (ho_fs h) of
        None \<Rightarrow> (None, host_out ''stopped'' h)
      | Some pid \<Rightarrow>
          if \<not> processRunning e pid then (None, host_out ''stopped (stale PID removed)'' (remove_pid e p h))
          else (None, host_out (''running (pid '' @ itoa pid @ '')'') h))"

definition daemon_reload :: "os_env \<Rightarrow> string \<Rightarrow> host \<Rightarrow> daemon_result \<times> host" where
  "daemon_reload e p h =
     (case signal_daemon e p SIGHUP h of
        (Inl er, h) \<Rightarrow> (Some er, h)
      | (Inr pid, h) \<Rightarrow> (None, host_err (''Reload signal sent to daemon (PID '' @ itoa pid @ '')'') h))"

section \<open>signal.go\<close>

datatype signal_result = SignalSent | SignalNoDaemon | SignalFailed

text \<open>Unlike the commands above, a stale file stays.\<close>

definition signalDaemonReload :: "os_env \<Rightarrow> string \<Rightarrow> host \<Rightarrow> (signal_result \<times> int) \<times> host" where
  "signalDaemonReload e p h =
     (case readPID (oe_io e) p (ho_fs h) of
        None \<Rightarrow> ((SignalNoDaemon, 0), h)
      | Some pid \<Rightarrow>
          if \<not> oe_find e pid then ((SignalNoDaemon, pid), h)
          else if \<not> oe_alive e pid then ((SignalNoDaemon, pid), h)
          else if \<not> oe_signal e pid SIGHUP then ((SignalFailed, pid), h)
          else ((SignalSent, pid), deliver pid SIGHUP h))"

definition notifyDaemonAfterPair :: "os_env \<Rightarrow> string \<Rightarrow> host \<Rightarrow> host" where
  "notifyDaemonAfterPair e p h =
     (case signalDaemonReload e p h of ((res, pid), h) \<Rightarrow>
        (case res of
           SignalSent \<Rightarrow> host_err (''Daemon (PID '' @ itoa pid @ '') notified to reload auth.'') h
         | SignalNoDaemon \<Rightarrow> host_err ''Note: no running daemon detected. Start with: renotify daemon start'' h
         | SignalFailed \<Rightarrow> host_err (''Note: could not signal daemon (PID '' @ itoa pid
             @ ''). Restart with: renotify daemon stop && renotify daemon start'') h))"

section \<open>start\<close>

text \<open>The flags given on the command line.\<close>

record startFlags =
  sf_foreground :: "bool option"
  sf_username :: "string option"
  sf_logLevel :: "string option"
  sf_sharedURL :: "string option"
  sf_disableMCP :: "bool option"

definition apply_flags :: "startFlags \<Rightarrow> Config \<Rightarrow> Config" where
  "apply_flags fl c0 =
     (let c1 = (case sf_foreground fl of None \<Rightarrow> c0
            | Some b \<Rightarrow> c0\<lparr> cf_Daemon := (cf_Daemon c0)\<lparr> dc_Foreground := b \<rparr> \<rparr>);
          c2 = (case sf_username fl of None \<Rightarrow> c1 | Some u \<Rightarrow> c1\<lparr> cf_Username := u \<rparr>);
          c3 = (case sf_logLevel fl of None \<Rightarrow> c2
            | Some l \<Rightarrow> c2\<lparr> cf_Daemon := (cf_Daemon c2)\<lparr> dc_LogLevel := l \<rparr> \<rparr>);
          c4 = (case sf_sharedURL fl of None \<Rightarrow> c3
            | Some u \<Rightarrow> c3\<lparr> cf_Broker := (cf_Broker c3)\<lparr> bc_Enabled := False \<rparr>,
                            cf_SharedBroker := (cf_SharedBroker c3)\<lparr> sb_URL := u \<rparr> \<rparr>)
      in case sf_disableMCP fl of None \<Rightarrow> c4
         | Some b \<Rightarrow> c4\<lparr> cf_MCP := (cf_MCP c4)\<lparr> mc_Enabled := \<not> b \<rparr> \<rparr>)"

text \<open>
  The flags pflag visits, changed ones with their values as text, and the inherited config flag.
  The child gets them as separate arguments.
\<close>

definition daemonize_args :: "string \<Rightarrow> (string \<times> string) list \<Rightarrow> string option \<Rightarrow> string list" where
  "daemonize_args exe visited config =
     [exe, ''daemon'', ''start'']
     @ concat (map (\<lambda>(n, v). if n = ''foreground'' then [] else [''--'' @ n, v]) visited)
     @ (case config of None \<Rightarrow> [] | Some p \<Rightarrow> [''--config'', p])"

datatype log_level = LevelDebug | LevelInfo | LevelWarn | LevelError

definition parseLogLevel :: "string \<Rightarrow> log_level" where
  "parseLogLevel s =
     (if s = ''debug'' then LevelDebug else if s = ''warn'' then LevelWarn
      else if s = ''error'' then LevelError else LevelInfo)"

datatype log_target = LogStderr log_level | LogFile log_level string

text \<open>The log file must open: its directory has to be there.\<close>

definition setupLogger :: "(string \<Rightarrow> bool) \<Rightarrow> bool \<Rightarrow> string \<Rightarrow> string \<Rightarrow> log_target option" where
  "setupLogger opens foreground level logFile =
     (if foreground then Some (LogStderr (parseLogLevel level))
      else if opens logFile then Some (LogFile (parseLogLevel level) logFile) else None)"

definition subsystem_names :: "Config \<Rightarrow> string list" where
  "subsystem_names cfg =
     [''ledger''] @ (if mc_Enabled (cf_MCP cfg) then [''http'', ''mcp''] else [])
     @ [''heartbeat'', ''presence'', ''registry'']"

text \<open>
  The daemon process: \<open>opens\<close> says which log files open, \<open>ce\<close> and \<open>hs\<close> are what the controller's
  run meets. The device list of the tracker is read before the run.
\<close>

definition runDaemon ::
    "os_env \<Rightarrow> (string \<Rightarrow> bool) \<Rightarrow> xdg_env \<Rightarrow> ctrl_env \<Rightarrow> happening list \<Rightarrow> Config \<Rightarrow> js_state \<Rightarrow> fs \<Rightarrow>
     daemon_result \<times> fs \<times> daemon_event list" where
  "runDaemon e opens xe ce hs cfg js fs =
     (let p = PIDPath xe; d = cf_Daemon cfg in
      if setupLogger opens (dc_Foreground d) (dc_LogLevel d) (dc_LogFile d) = None then (Some Logger, fs, [])
      else
        let fs1 = (case readPID (oe_io e) p fs of
              Some pid \<Rightarrow> if processRunning e pid then fs else os_Remove (oe_io e) fs p | None \<Rightarrow> fs);
            (_, fs2) = writePID e p fs1 in
        case LoadOrGenerateDaemonID (oe_io e) fs2 (ce_id_rnd ce) (DaemonIDPath xe) of
          (Inl er, fs3) \<Rightarrow> (Some (Daemon_id_error er), removePIDIfOwned e p fs3, [])
        | (Inr _, fs3) \<Rightarrow>
            (let devices = (case LoadDevices (oe_io e) fs3 (DevicesPath xe) of Inl _ \<Rightarrow> [] | Inr ds \<Rightarrow> ds);
                 w = \<lparr> wd_fs = fs3, wd_js = js,
                       wd_tracker = new_Tracker (cf_Username cfg) (dp_StaleThreshold (cf_DevicePresence cfg)) devices,
                       wd_events = [] \<rparr>;
                 c = (NewController xe cfg (subsystem_names cfg))\<lparr> co_reload := True, co_on_reload := True \<rparr>;
                 (er, w') = Run ce c hs w
             in (map_option Run_failed er, removePIDIfOwned e p (wd_fs w'), wd_events w')))"

text \<open>
  The start command; the second component tells whether the process went on as the daemon, or
  started one in the background with these arguments.
\<close>

datatype started = Nothing | Background "string list" | Ran "daemon_event list"

record start_env =
  se_os :: os_env
  se_xdg :: xdg_env
  se_opens :: "string \<Rightarrow> bool"
  se_child :: bool
  se_executable :: "string option"
  se_visited :: "(string \<times> string) list"
  se_config_flag :: "string option"
  se_spawns :: bool
  se_ctrl :: ctrl_env
  se_happenings :: "happening list"
  se_js :: js_state

definition daemonize :: "start_env \<Rightarrow> daemon_result \<times> started" where
  "daemonize e =
     (case se_executable e of
        None \<Rightarrow> (Some Resolve_executable, Nothing)
      | Some exe \<Rightarrow>
          if se_spawns e then (None, Background (daemonize_args exe (se_visited e) (se_config_flag e)))
          else (Some Start_background, Nothing))"

definition daemon_start :: "start_env \<Rightarrow> startFlags \<Rightarrow> Config \<Rightarrow> fs \<Rightarrow> daemon_result \<times> fs \<times> started" where
  "daemon_start e fl cfg0 fs =
     (let cfg = apply_flags fl cfg0; os = se_os e; p = PIDPath (se_xdg e) in
      case Validate cfg of
        Some ce \<Rightarrow> (Some (Config_invalid ce), fs, Nothing)
      | None \<Rightarrow>
          (case (case readPID (oe_io os) p fs of
                   None \<Rightarrow> Inr fs
                 | Some pid \<Rightarrow> if processRunning os pid then Inl pid else Inr (os_Remove (oe_io os) fs p)) of
             Inl pid \<Rightarrow> (Some (Already_running pid), fs, Nothing)
           | Inr fs1 \<Rightarrow>
               if \<not> dc_Foreground (cf_Daemon cfg) \<and> \<not> se_child e then
                 (case daemonize e of (er, st) \<Rightarrow> (er, fs1, st))
               else
                 (case runDaemon os (se_opens e) (se_xdg e) (se_ctrl e) (se_happenings e) cfg (se_js e) fs1 of
                    (er, fs2, es) \<Rightarrow> (er, fs2, Ran es))))"

section \<open>The PID file\<close>

lemma digit_visible: "is_digit c \<Longrightarrow> visible c"
  by (simp add: is_digit_def visible_def)

lemma itoa_visible: "list_all visible (itoa n)"
proof -
  have "list_all visible (digits w m)" for w m
    using digits_are_digits [of w m] by (auto simp: list_all_iff digit_visible)
  then show ?thesis by (simp add: itoa_def visible_def)
qed

lemma digits_not_sign:
  "ds \<noteq> [] \<Longrightarrow> list_all is_digit ds \<Longrightarrow> hd ds \<noteq> CHR ''-'' \<and> hd ds \<noteq> CHR ''+''"
  by (cases ds) (auto simp: is_digit_def)

lemma Atoi_itoa: "- (2 ^ 63) \<le> n \<Longrightarrow> n < 2 ^ 63 \<Longrightarrow> Atoi (itoa n) = Some n"
proof -
  assume n: "- (2 ^ 63) \<le> n" "n < 2 ^ 63"
  let ?d = "digits (ndigits (nat \<bar>n\<bar>)) (nat \<bar>n\<bar>)"
  have d: "?d \<noteq> []" "list_all is_digit ?d" "num_of ?d = nat \<bar>n\<bar>"
    by (subst ndigits.simps, simp) (simp_all add: digits_are_digits ndigits_bound)
  show ?thesis
  proof (cases "n < 0")
    case True
    then have "itoa n = CHR ''-'' # ?d" by (simp add: itoa_def)
    with d n True show ?thesis by (simp add: Atoi_def)
  next
    case False
    then have "itoa n = ?d" by (simp add: itoa_def)
    with d n False digits_not_sign [OF d(1,2)] show ?thesis by (simp add: Atoi_def Let_def)
  qed
qed

lemma readPID_written:
  assumes "writePID a p fs = (True, fs1)" and "- (2 ^ 63) \<le> oe_pid a" and "oe_pid a < 2 ^ 63" and "\<not> read_err e p"
  shows "readPID e p fs1 = Some (oe_pid a)"
proof -
  from assms(1,4) have "os_ReadFile e fs1 p = ReadOk (Text (itoa (oe_pid a) @ [CHR 0x0A]))"
    by (auto simp: writePID_def put_file_def os_ReadFile_def split: if_splits option.splits)
  then show ?thesis using assms(2,3) by (simp add: readPID_def trim_space_line [OF itoa_visible] Atoi_itoa)
qed

text \<open>
  C14 (safety): one daemon at a time, and signals for the right one. Once a daemon \<open>a\<close> has written
  its PID file and while it runs, every other process finds it: a start is refused and changes
  nothing, the status names it, a stop sends SIGTERM to it and to nothing else, and the clean-up
  of another process leaves its file; its own removes it.
\<close>

theorem pid_file_exclusive:
  assumes "writePID a p fs = (True, fs1)" and "- (2 ^ 63) \<le> oe_pid a" and "oe_pid a < 2 ^ 63"
    and "p = PIDPath (se_xdg e)" and "b = se_os e" and "\<not> read_err (oe_io b) p"
    and "processRunning b (oe_pid a)" and "oe_signal b (oe_pid a) SIGTERM" and "oe_pid b \<noteq> oe_pid a"
    and "Validate (apply_flags fl cfg) = None" and "ho_fs h = fs1"
  shows "daemon_start e fl cfg fs1 = (Some (Already_running (oe_pid a)), fs1, Nothing)
    \<and> daemon_status b p h = (None, host_out (''running (pid '' @ itoa (oe_pid a) @ '')'') h)
    \<and> ho_signals (snd (daemon_stop b p h)) = ho_signals h @ [(oe_pid a, SIGTERM)]
    \<and> removePIDIfOwned b p fs1 = fs1
    \<and> (\<not> read_err (oe_io a) p \<and> \<not> remove_err (oe_io a) p \<longrightarrow> removePIDIfOwned a p fs1 = fs1(p := None))"
proof -
  note pid = readPID_written [OF assms(1-3)]
  have f: "oe_find b (oe_pid a)" using assms(7) by (simp add: processRunning_def)
  show ?thesis
    using assms(4-11) pid f
    by (simp add: daemon_start_def daemon_status_def daemon_stop_def signal_daemon_def removePIDIfOwned_def
        os_Remove_def deliver_def host_err_def)
qed

definition an_os :: os_env where
  "an_os = \<lparr> oe_io = io_ok, oe_find = (\<lambda>_. True), oe_alive = (\<lambda>p. p = 100), oe_signal = (\<lambda>_ _. True),
     oe_later = (\<lambda>k p. k < 3), oe_pid = 200 \<rparr>"

definition an_xdg :: xdg_env where
  "an_xdg = \<lparr> xe_config = '''', xe_state = '''', xe_home = ''/home/alice'' \<rparr>"

definition pid_dir :: fs where
  "pid_dir = snd (writePID (an_os\<lparr> oe_pid := 100 \<rparr>) (PIDPath an_xdg) Map.empty)"

theorem pid_file_exclusive_witness:
  "ho_signals (snd (daemon_stop an_os (PIDPath an_xdg)
       \<lparr> ho_fs = pid_dir, ho_signals = [], ho_stdout = [], ho_stderr = [] \<rparr>)) = [(100, SIGTERM)]"
proof -
  let ?a = "an_os\<lparr> oe_pid := 100 \<rparr>" and ?p = "PIDPath an_xdg"
  let ?h = "\<lparr> ho_fs = pid_dir, ho_signals = [], ho_stdout = [], ho_stderr = [] \<rparr> :: host"
  let ?fl = "\<lparr> sf_foreground = None, sf_username = None, sf_logLevel = None, sf_sharedURL = None, sf_disableMCP = None \<rparr>"
  obtain e :: start_env where e: "se_xdg e = an_xdg" "se_os e = an_os" by (metis start_env.select_convs(1,2))
  have w: "writePID ?a ?p Map.empty = (True, pid_dir)" by (simp add: pid_dir_def writePID_def an_os_def)
  have v: "Validate (apply_flags ?fl a_config) = None"
    by (simp add: apply_flags_def Validate_valid a_config_def Default_valid defaultUsername_def)
  have os: "oe_pid ?a = 100" "oe_io an_os = io_ok" "processRunning an_os 100" "oe_signal an_os 100 SIGTERM" "oe_pid an_os = 200"
    by (simp_all add: an_os_def processRunning_def)
  have "ho_signals (snd (daemon_stop an_os ?p ?h)) = ho_signals ?h @ [(oe_pid ?a, SIGTERM)]"
    using pid_file_exclusive [OF w _ _ _ _ _ _ _ _ v, of e an_os ?h] e os by simp
  then show ?thesis by (simp add: os)
qed

end
