(* ===== verification/Pairing.thy ===== *)
theory Pairing
  imports Tlsgen Daemon
begin

text \<open>
  Pairing and its commands (cli/internal/pairing, and pair.go, pairings.go, revoke.go, silent.go of
  cli/internal/command). Cryptography is an argument, as in Tlsgen; so is the drawing of the QR code.
\<close>

section \<open>pairing/pair.go\<close>

datatype pair_error =
    Pair_daemon_id state_error | Check_TLS state_error | Discover | Generate_cert tls_error | Write_TLS state_error
  | Device_id state_error | Device_token state_error | Add_device state_error | Pair_fingerprint tls_error


record PairConfig =
  pc_CertPath :: string
  pc_KeyPath :: string
  pc_TokenPath :: string
  pc_UsernamePath :: string
  pc_DevicesPath :: string
  pc_DaemonIDPath :: string
  pc_Username :: string
  pc_WSSPort :: int
  pc_RegenerateCert :: bool
  pc_OverrideIP :: string

record PairResult =
  pr_Host :: string
  pr_Port :: int
  pr_Token :: string
  pr_DeviceID :: string
  pr_CertFingerprint :: string
  pr_CertRegenerated :: bool
  pr_Payload :: json
  pr_Username :: string

record pair_env =
  pv_io :: io
  pv_crypto :: crypto
  pv_interfaces :: "interface list option"
  pv_daemon_rnd :: "byte list"
  pv_id_rnd :: "byte list"
  pv_token_rnd :: "byte list"
  pv_now :: time

definition provisioning :: "PairConfig \<Rightarrow> string \<Rightarrow> string \<Rightarrow> string \<Rightarrow> string \<Rightarrow> json" where
  "provisioning cfg host tok fingerprint deviceID =
     JObj ([(''v'', JNum 2), (''h'', JStr host), (''p'', JNum (pc_WSSPort cfg)), (''t'', JStr tok),
            (''c'', JStr fingerprint), (''u'', JStr (pc_Username cfg))]
           @ e_str_opt ''d'' deviceID @ e_str_opt ''n'' (NatsUsername deviceID))"

text \<open>Steps 3 and 4: the addresses and, when there is none or a new one is wanted, the certificate.\<close>

definition pair_cert ::
    "pair_env \<Rightarrow> PairConfig \<Rightarrow> string \<Rightarrow> bool \<Rightarrow> fs \<Rightarrow> (pair_error + ip list \<times> bool) \<times> fs" where
  "pair_cert e cfg daemonID certExists fs =
     (let needDiscovery = (\<not> certExists \<or> pc_RegenerateCert cfg \<or> pc_OverrideIP cfg = '''') in
      case (if needDiscovery then DiscoverIPs (pv_interfaces e) else Some []) of
        None \<Rightarrow> (Inl Discover, fs)
      | Some ips \<Rightarrow>
          if certExists \<and> \<not> pc_RegenerateCert cfg then (Inr (ips, False), fs)
          else case Generate (pv_crypto e) \<lparr> gp_DaemonID = daemonID, gp_IPs = deduplicateIPs (ips @ [localhost]),
                 gp_Hostnames = [''localhost''] \<rparr> of
            Inl err \<Rightarrow> (Inl (Generate_cert err), fs)
          | Inr g \<Rightarrow>
              (case WriteTLS (pv_io e) fs (pc_CertPath cfg) (ge_CertPEM g) (pc_KeyPath cfg) (ge_KeyPEM g) of
                 (Some err, fs1) \<Rightarrow> (Inl (Write_TLS err), fs1)
               | (None, fs1) \<Rightarrow> (Inr (ips, True), fs1)))"

text \<open>Steps 6 and 7: the device and its registration.\<close>

definition pair_device :: "pair_env \<Rightarrow> PairConfig \<Rightarrow> fs \<Rightarrow> (pair_error + string \<times> string) \<times> fs" where
  "pair_device e cfg fs =
     (case GenerateDeviceID (pv_io e) (pv_id_rnd e) of
        Inl err \<Rightarrow> (Inl (Device_id err), fs)
      | Inr deviceID \<Rightarrow>
          (case GenerateDeviceToken (pv_io e) (pv_token_rnd e) of
             Inl err \<Rightarrow> (Inl (Device_token err), fs)
           | Inr tok \<Rightarrow>
               (case AddDevice (pv_io e) fs (pc_DevicesPath cfg)
                       \<lparr> pd_DeviceID = deviceID, pd_Token = tok, pd_PairedAt = pv_now e \<rparr> of
                  (Some err, fs1) \<Rightarrow> (Inl (Add_device err), fs1)
                | (None, fs1) \<Rightarrow> (Inr (deviceID, tok), fs1))))"

definition Pair :: "pair_env \<Rightarrow> PairConfig \<Rightarrow> fs \<Rightarrow> (pair_error + PairResult) \<times> fs" where
  "Pair e cfg fs =
     (case LoadOrGenerateDaemonID (pv_io e) fs (pv_daemon_rnd e) (pc_DaemonIDPath cfg) of
        (Inl err, fs1) \<Rightarrow> (Inl (Pair_daemon_id err), fs1)
      | (Inr daemonID, fs1) \<Rightarrow>
          (case LoadTLS (pv_io e) fs1 (pc_CertPath cfg) (pc_KeyPath cfg) of
             Inl err \<Rightarrow> (Inl (Check_TLS err), fs1)
           | Inr (existingCert, _) \<Rightarrow>
               (case pair_cert e cfg daemonID (existingCert \<noteq> '''') fs1 of
                  (Inl err, fs2) \<Rightarrow> (Inl err, fs2)
                | (Inr (ips, regenerated), fs2) \<Rightarrow>
                    (let host = (if pc_OverrideIP cfg \<noteq> '''' then pc_OverrideIP cfg
                                 else IP_String (PreferredIP ips)) in
                     case pair_device e cfg fs2 of
                       (Inl err, fs3) \<Rightarrow> (Inl err, fs3)
                     | (Inr (deviceID, tok), fs3) \<Rightarrow>
                         (case FingerprintFromPEMFile (pv_crypto e) (pv_io e) fs3 (pc_CertPath cfg) of
                            Inl err \<Rightarrow> (Inl (Pair_fingerprint err), fs3)
                          | Inr fingerprint \<Rightarrow>
                              (Inr \<lparr> pr_Host = host, pr_Port = pc_WSSPort cfg, pr_Token = tok,
                                     pr_DeviceID = deviceID, pr_CertFingerprint = fingerprint,
                                     pr_CertRegenerated = regenerated,
                                     pr_Payload = provisioning cfg host tok fingerprint deviceID,
                                     pr_Username = pc_Username cfg \<rparr>, fs3))))))"

section \<open>command/pair.go, pairings.go\<close>

datatype pairing_cmd_error =
    Invalid_ip string | Pair_failed pair_error | Load_failed state_error | Remove_failed state_error
  | Silent_argument string | No_devices | Device_unknown string | Device_required | Several_devices
  | Connect_failed conn_error | Publish_failed string

type_synonym pairing_error = "pairing_cmd_error go_error"

definition out_item :: "item \<Rightarrow> host \<Rightarrow> host" where
  "out_item x h = h\<lparr> ho_stdout := ho_stdout h @ [x] \<rparr>"

definition pair_config :: "xdg_env \<Rightarrow> Config \<Rightarrow> string \<Rightarrow> bool \<Rightarrow> PairConfig" where
  "pair_config xe cfg ip' regenerate =
     \<lparr> pc_CertPath = TLSCertPath xe, pc_KeyPath = TLSKeyPath xe, pc_TokenPath = PairingTokenPath xe,
       pc_UsernamePath = PairingUsernamePath xe, pc_DevicesPath = DevicesPath xe, pc_DaemonIDPath = DaemonIDPath xe,
       pc_Username = cf_Username cfg, pc_WSSPort = bc_WSSPort (cf_Broker cfg), pc_RegenerateCert = regenerate,
       pc_OverrideIP = ip' \<rparr>"

text \<open>The QR code is drawn from the payload.\<close>

definition writeTextOutput :: "PairResult \<Rightarrow> host \<Rightarrow> host" where
  "writeTextOutput r h =
     fold out_item [
       Line (''Pairing QR code for '' @ pr_Username r @ '' (wss://'' @ pr_Host r @ '':'' @ itoa (pr_Port r) @ '')''),
       Line '''', Json (pr_Payload r), Line '''',
       Line ''Scan this code with the Renotify app to pair.'',
       Line (''Token: '' @ pr_Token r @ '' (new)''),
       Line (''Cert:  '' @ pr_CertFingerprint r @ '' (''
         @ (if pr_CertRegenerated r then ''new'' else ''existing'') @ '')'')] h"

definition writeJSONOutput :: "PairResult \<Rightarrow> host \<Rightarrow> host" where
  "writeJSONOutput r = out_item (Json (JObj [(''host'', JStr (pr_Host r)), (''port'', JNum (pr_Port r)),
     (''token'', JStr (pr_Token r)), (''cert_fingerprint'', JStr (pr_CertFingerprint r)),
     (''cert_regenerated'', JBool (pr_CertRegenerated r)), (''username'', JStr (pr_Username r))]))"

text \<open>\<open>valid_ip\<close> is \<^verbatim>\<open>net.ParseIP\<close> succeeding.\<close>

definition pair_cmd ::
    "(string \<Rightarrow> bool) \<Rightarrow> os_env \<Rightarrow> pair_env \<Rightarrow> xdg_env \<Rightarrow> Config \<Rightarrow> string \<Rightarrow> bool \<Rightarrow> string \<Rightarrow> host \<Rightarrow>
     pairing_error option \<times> host" where
  "pair_cmd valid_ip os e xe cfg ip' regenerate format h =
     (if ip' \<noteq> '''' \<and> \<not> valid_ip ip' then (Some (CodedError Error (Invalid_ip ip')), h)
      else case Pair e (pair_config xe cfg ip' regenerate) (ho_fs h) of
        (Inl err, fs1) \<Rightarrow> (Some (CodedError Error (Pair_failed err)), h\<lparr> ho_fs := fs1 \<rparr>)
      | (Inr r, fs1) \<Rightarrow>
          (let h1 = (if format = ''json'' then writeJSONOutput r else writeTextOutput r) (h\<lparr> ho_fs := fs1 \<rparr>)
           in (None, notifyDaemonAfterPair os (PIDPath xe) h1)))"

definition pairings_cmd :: "io \<Rightarrow> xdg_env \<Rightarrow> string \<Rightarrow> host \<Rightarrow> pairing_error option \<times> host" where
  "pairings_cmd e xe format h =
     (case LoadDevices e (ho_fs h) (DevicesPath xe) of
        Inl err \<Rightarrow> (Some (OtherError (Load_failed err)), h)
      | Inr ds \<Rightarrow>
          if format = ''json'' then (None, out_item (Json (JArr (map enc_pd ds))) h)
          else if ds = [] then (None, host_err ''No paired devices.'' h)
          else (None, fold out_item (Row [''DEVICE ID'', ''PAIRED AT'']
                 # map (\<lambda>d. Row [pd_DeviceID d, rfc3339 (pd_PairedAt d)]) ds) h))"

section \<open>command/revoke.go\<close>

record revoke_env =
  rv_os :: os_env
  rv_xdg :: xdg_env
  rv_rnd :: "byte list"
  rv_now :: time

definition signalAndLog :: "revoke_env \<Rightarrow> Config \<Rightarrow> host \<Rightarrow> host" where
  "signalAndLog e cfg h =
     (if \<not> bc_Enabled (cf_Broker cfg)
      then host_err ''Shared broker mode: local token deleted. The operator must revoke on the broker side.'' h
      else case signalDaemonReload (rv_os e) (PIDPath (rv_xdg e)) h of ((res, pid), h) \<Rightarrow>
        (case res of
           SignalSent \<Rightarrow> host_err (''Daemon (PID '' @ itoa pid @ '') notified ''
             @ [CHR 0xE2, CHR 0x80, CHR 0x94] @ '' device will be disconnected.'') h
         | SignalNoDaemon \<Rightarrow> host_err ''Note: no running daemon detected. Device revoked from disk.'' h
         | SignalFailed \<Rightarrow> host_err (''Warning: could not signal daemon (PID '' @ itoa pid
             @ ''). Device revoked from disk but daemon still has old auth.'') h))"

definition writeRevokeOutput :: "string \<Rightarrow> bool \<Rightarrow> string \<Rightarrow> bool \<Rightarrow> host \<Rightarrow> pairing_error option \<times> host" where
  "writeRevokeOutput format revoked message embedded h =
     (None, if format = ''json''
            then out_item (Json (JObj [(''revoked'', JBool revoked), (''message'', JStr message),
                   (''embedded_broker'', JBool embedded)])) h
            else host_err message h)"

definition revokeDevice :: "revoke_env \<Rightarrow> Config \<Rightarrow> string \<Rightarrow> string \<Rightarrow> host \<Rightarrow> pairing_error option \<times> host" where
  "revokeDevice e cfg deviceID format h =
     (case RemoveDevice (oe_io (rv_os e)) (ho_fs h) (DevicesPath (rv_xdg e)) deviceID of
        (_, Some err, fs1) \<Rightarrow> (Some (CodedError Error (Remove_failed err)), h\<lparr> ho_fs := fs1 \<rparr>)
      | (removed, None, fs1) \<Rightarrow>
          (let h1 = h\<lparr> ho_fs := fs1 \<rparr> in
           if \<not> removed
           then writeRevokeOutput format False (''device '' @ deviceID @ '' not found'') (bc_Enabled (cf_Broker cfg)) h1
           else writeRevokeOutput format True (''device '' @ deviceID @ '' revoked'') (bc_Enabled (cf_Broker cfg))
                  (signalAndLog e cfg h1)))"

definition revokeAll ::
    "revoke_env \<Rightarrow> Config \<Rightarrow> PairedDevice list \<Rightarrow> string \<Rightarrow> host \<Rightarrow> pairing_error option \<times> host" where
  "revokeAll e cfg devices format h =
     (if devices = [] then writeRevokeOutput format False ''no paired devices'' (bc_Enabled (cf_Broker cfg)) h
      else case ClearDevices (oe_io (rv_os e)) (ho_fs h) (DevicesPath (rv_xdg e)) of
        (Some err, fs1) \<Rightarrow> (Some (CodedError Error (Remove_failed err)), h\<lparr> ho_fs := fs1 \<rparr>)
      | (None, fs1) \<Rightarrow>
          writeRevokeOutput format True (itoa (int (length devices)) @ '' device(s) revoked'')
            (bc_Enabled (cf_Broker cfg)) (signalAndLog e cfg (h\<lparr> ho_fs := fs1 \<rparr>)))"

definition revoke_cmd ::
    "revoke_env \<Rightarrow> Config \<Rightarrow> string \<Rightarrow> bool \<Rightarrow> string \<Rightarrow> host \<Rightarrow> pairing_error option \<times> host" where
  "revoke_cmd e cfg deviceID all format h0 =
     (let io = oe_io (rv_os e); xe = rv_xdg e;
          h = h0\<lparr> ho_fs := snd (MigrateFromSingleToken io (ho_fs h0) (rv_rnd e) (rv_now e)
                 (PairingTokenPath xe) (PairingUsernamePath xe) (DevicesPath xe)) \<rparr> in
      case LoadDevices io (ho_fs h) (DevicesPath xe) of
        Inl err \<Rightarrow> (Some (CodedError Error (Load_failed err)), h)
      | Inr devices \<Rightarrow>
          if all then revokeAll e cfg devices format h
          else if deviceID \<noteq> '''' then revokeDevice e cfg deviceID format h
          else case devices of
            [] \<Rightarrow> writeRevokeOutput format False ''no paired devices'' (bc_Enabled (cf_Broker cfg)) h
          | [d] \<Rightarrow> revokeDevice e cfg (pd_DeviceID d) format h
          | _ \<Rightarrow> (Some (CodedError Usage Several_devices), h))"

section \<open>command/silent.go\<close>

text \<open>The devices addressed by the flags.\<close>

definition silent_targets :: "PairedDevice list \<Rightarrow> bool \<Rightarrow> string \<Rightarrow> pairing_error + PairedDevice list" where
  "silent_targets devices all deviceID =
     (if all then Inr devices
      else if deviceID \<noteq> '''' then
        (case find (\<lambda>d. pd_DeviceID d = deviceID) devices of
           None \<Rightarrow> Inl (CodedError Error (Device_unknown deviceID)) | Some d \<Rightarrow> Inr [d])
      else if length devices = 1 then Inr devices
      else Inl (CodedError Usage Device_required))"

definition device_control :: "bool \<Rightarrow> time \<Rightarrow> json" where
  "device_control silent now =
     JObj [(''command'', JStr ''set_silent''), (''value'', JBool silent), (''timestamp'', JStr (rfc3339 now))]"

text \<open>Publish to each target in turn; a failure ends the command, what was sent stays sent.\<close>

fun publish_control ::
    "(string \<Rightarrow> bool) \<Rightarrow> string \<Rightarrow> json \<Rightarrow> PairedDevice list \<Rightarrow> string option \<times> (string \<times> json) list" where
  "publish_control ok username j [] = (None, [])"
| "publish_control ok username j (d # ds) =
     (let subject = DeviceControlSubject username (pd_DeviceID d) in
      if \<not> ok subject then (Some (pd_DeviceID d), [])
      else case publish_control ok username j ds of (er, sent) \<Rightarrow> (er, (subject, j) # sent))"

record silent_env =
  sl_io :: io
  sl_xdg :: xdg_env
  sl_net :: net
  sl_publish :: "string \<Rightarrow> bool"
  sl_now :: time

definition silent_cmd ::
    "silent_env \<Rightarrow> Config \<Rightarrow> string \<Rightarrow> string \<Rightarrow> bool \<Rightarrow> string \<Rightarrow> host \<Rightarrow>
     pairing_error option \<times> (string \<times> json) list \<times> host" where
  "silent_cmd e cfg arg deviceID all format h =
     (if arg \<noteq> ''on'' \<and> arg \<noteq> ''off'' then (Some (CodedError Usage (Silent_argument arg)), [], h)
      else let silent = (arg = ''on'') in
      case LoadDevices (sl_io e) (ho_fs h) (DevicesPath (sl_xdg e)) of
        Inl err \<Rightarrow> (Some (CodedError Error (Load_failed err)), [], h)
      | Inr devices \<Rightarrow>
          if devices = [] then (Some (CodedError Error No_devices), [], h)
          else case silent_targets devices all deviceID of
            Inl er \<Rightarrow>
              (Some er, [], if er = CodedError Usage Device_required
                 then fold host_err (''Multiple devices paired. Specify --device or --all:''
                        # map (\<lambda>d. ''  '' @ pd_DeviceID d) devices) h
                 else h)
          | Inr targets \<Rightarrow>
              (case ConnectCLI (sl_net e) (sl_io e) (ho_fs h) (InternalTokenPath (sl_xdg e)) cfg of
                 Inl er \<Rightarrow> (Some (CodedError Error (Connect_failed er)), [], h)
               | Inr _ \<Rightarrow>
                   (case publish_control (sl_publish e) (cf_Username cfg) (device_control silent (sl_now e)) targets of
                      (Some d, sent) \<Rightarrow> (Some (CodedError Error (Publish_failed d)), sent, h)
                    | (None, sent) \<Rightarrow>
                        (None, sent,
                         if format = ''json''
                         then out_item (Json (JArr (map (\<lambda>d. JObj [(''device_id'', JStr (pd_DeviceID d)),
                                (''silent'', JBool silent)]) targets))) h
                         else fold out_item (map (\<lambda>d. Line (''Silent mode set to '' @ arg @ '' for '' @ pd_DeviceID d))
                                targets) h))))"

section \<open>What pairing changes\<close>

text \<open>The files pairing writes are different files, as are the temporary ones.\<close>

definition separate :: "PairConfig \<Rightarrow> bool" where
  "separate cfg \<longleftrightarrow> (let ps = [pc_DaemonIDPath cfg, pc_CertPath cfg, pc_KeyPath cfg, pc_DevicesPath cfg] in
     distinct ps \<and> (\<forall>p \<in> set ps. \<forall>q \<in> set ps. p \<noteq> tmp_of q))"

lemma writeAtomic_frame:
  "writeAtomic e fs p val = (err, fs') \<Longrightarrow> q \<noteq> p \<Longrightarrow> q \<noteq> tmp_of p \<Longrightarrow> fs' q = fs q"
  by (auto simp: writeAtomic_def dest: writeAtomicBytes_result(3))

lemma daemon_id_frame:
  "LoadOrGenerateDaemonID e fs rnd p = (r, fs') \<Longrightarrow> q \<noteq> p \<Longrightarrow> q \<noteq> tmp_of p \<Longrightarrow> fs' q = fs q"
  by (auto simp: LoadOrGenerateDaemonID_def loadOrGenerate_def dest: writeAtomic_frame
      split: read_result.splits sum.splits prod.splits option.splits)

lemma WriteTLS_frame:
  "WriteTLS e fs c cp k kp = (err, fs') \<Longrightarrow> q \<notin> {c, tmp_of c, k, tmp_of k} \<Longrightarrow> fs' q = fs q"
  by (auto simp: WriteTLS_def os_Remove_def dest!: writeAtomicBytes_result(3) [of _ _ _ _ _ _ _ q]
      split: prod.splits option.splits if_splits)

lemma pair_cert_frame:
  "pair_cert e cfg i ex fs = (r, fs') \<Longrightarrow> q \<notin> {pc_CertPath cfg, tmp_of (pc_CertPath cfg), pc_KeyPath cfg, tmp_of (pc_KeyPath cfg)}
     \<Longrightarrow> fs' q = fs q"
  by (auto simp: pair_cert_def Let_def dest: WriteTLS_frame
      split: option.splits sum.splits prod.splits if_splits)

lemma AddDevice_loads:
  "LoadDevices e fs p = Inr ds \<Longrightarrow> AddDevice e fs p d = (None, fs') \<Longrightarrow> LoadDevices e fs' p = Inr (ds @ [d])"
  by (auto simp: AddDevice_def intro: devices.load_saved)

lemma pair_device_ok:
  assumes "pair_device e cfg fs = (Inr (i, t), fs')" and "LoadDevices (pv_io e) fs (pc_DevicesPath cfg) = Inr ds"
  shows "LoadDevices (pv_io e) fs' (pc_DevicesPath cfg)
      = Inr (ds @ [\<lparr> pd_DeviceID = i, pd_Token = t, pd_PairedAt = pv_now e \<rparr>])"
  using assms
  by (auto simp: pair_device_def intro: AddDevice_loads split: sum.splits prod.splits option.splits)

lemma Pair_steps:
  assumes "Pair e cfg fs = (Inr r, fs')"
  obtains i fs1 certs key ips regen fs2 where
    "LoadOrGenerateDaemonID (pv_io e) fs (pv_daemon_rnd e) (pc_DaemonIDPath cfg) = (Inr i, fs1)"
    "LoadTLS (pv_io e) fs1 (pc_CertPath cfg) (pc_KeyPath cfg) = Inr (certs, key)"
    "pair_cert e cfg i (certs \<noteq> '''') fs1 = (Inr (ips, regen), fs2)"
    "pair_device e cfg fs2 = (Inr (pr_DeviceID r, pr_Token r), fs')"
    "FingerprintFromPEMFile (pv_crypto e) (pv_io e) fs' (pc_CertPath cfg) = Inr (pr_CertFingerprint r)"
    "pr_CertRegenerated r = regen"
    "pr_Payload r = provisioning cfg (pr_Host r) (pr_Token r) (pr_CertFingerprint r) (pr_DeviceID r)"
    "pr_Host r = (if pc_OverrideIP cfg \<noteq> '''' then pc_OverrideIP cfg else IP_String (PreferredIP ips))"
  using assms
  by (auto simp: Pair_def Let_def split: sum.splits prod.splits)

lemma pair_device_frame:
  "pair_device e cfg fs = (r, fs') \<Longrightarrow> q \<noteq> pc_DevicesPath cfg \<Longrightarrow> q \<noteq> tmp_of (pc_DevicesPath cfg) \<Longrightarrow> fs' q = fs q"
  by (auto simp: pair_device_def AddDevice_def SaveDevices_def dest: writeAtomicBytes_result(3)
      split: sum.splits prod.splits option.splits if_splits)

lemma pair_cert_kept: "pair_cert e cfg i ex fs = (Inr (ips, False), fs') \<Longrightarrow> fs' = fs"
  by (auto simp: pair_cert_def Let_def split: option.splits sum.splits prod.splits if_splits)

lemma WriteTLS_written:
  assumes "WriteTLS e fs c cp k kp = (None, fs')" and "c \<noteq> k" and "c \<noteq> tmp_of k"
  shows "\<exists>f. fs' c = Some f \<and> f_content f = Text cp"
proof -
  from assms(1) obtain fs1 where w: "writeAtomicBytes e fs c (Text cp) perm644 = (None, fs1)"
    "writeAtomicBytes e fs1 k (Text kp) perm600 = (None, fs')"
    by (auto simp: WriteTLS_def split: prod.splits option.splits)
  with writeAtomicBytes_result(3) [OF w(2) assms(2,3)] writeAtomicBytes_result(1) [OF w(1) refl] show ?thesis by simp
qed

lemma pair_cert_generated:
  assumes "pair_cert e cfg i ex fs = (Inr (ips, True), fs')" and "separate cfg"
  obtains g f where "DiscoverIPs (pv_interfaces e) = Some ips"
    "Generate (pv_crypto e) \<lparr> gp_DaemonID = i, gp_IPs = deduplicateIPs (ips @ [localhost]), gp_Hostnames = [''localhost''] \<rparr> = Inr g"
    "fs' (pc_CertPath cfg) = Some f" "f_content f = Text (ge_CertPEM g)"
  using assms
  by (auto simp: pair_cert_def Let_def separate_def dest!: WriteTLS_written split: option.splits sum.splits prod.splits if_splits)

lemma Pair_registry:
  assumes pair: "Pair e cfg fs = (Inr r, fs')" and sep: "separate cfg"
    and load: "LoadDevices (pv_io e) fs (pc_DevicesPath cfg) = Inr ds"
  shows "LoadDevices (pv_io e) fs' (pc_DevicesPath cfg)
      = Inr (ds @ [\<lparr> pd_DeviceID = pr_DeviceID r, pd_Token = pr_Token r, pd_PairedAt = pv_now e \<rparr>])"
proof (rule Pair_steps [OF pair])
  fix i fs1 certs key ips regen fs2
  assume 1: "LoadOrGenerateDaemonID (pv_io e) fs (pv_daemon_rnd e) (pc_DaemonIDPath cfg) = (Inr i, fs1)"
    and 2: "pair_cert e cfg i (certs \<noteq> '''') fs1 = (Inr (ips, regen), fs2)"
    and 3: "pair_device e cfg fs2 = (Inr (pr_DeviceID r, pr_Token r), fs')"
  have "fs2 (pc_DevicesPath cfg) = fs (pc_DevicesPath cfg)"
    using daemon_id_frame [OF 1, of "pc_DevicesPath cfg"] pair_cert_frame [OF 2, of "pc_DevicesPath cfg"] sep
    by (auto simp: separate_def Let_def)
  then have "LoadDevices (pv_io e) fs2 (pc_DevicesPath cfg) = Inr ds"
    using load LoadDevices_cong [of fs2 "pc_DevicesPath cfg" fs] by simp
  from pair_device_ok [OF 3 this] show ?thesis .
qed

text \<open>The entry of a provisioning payload.\<close>

fun entry_of :: "string \<Rightarrow> json \<Rightarrow> json option" where
  "entry_of k (JObj kvs) = map_of kvs k"
| "entry_of k _ = None"

text \<open>
  C23 (functional): a pairing that succeeds lets the phone that scans its code in, and nobody out.
  The accounts the server builds from the registry afterwards are those before plus, at the end,
  one whose user name and password are the entries \<^verbatim>\<open>n\<close> and \<^verbatim>\<open>t\<close> of the code; the fingerprint in
  the code is that of the certificate on disk; and when there was a certificate and none was asked
  for, it is untouched.
\<close>

theorem pairing_adds_device:
  assumes "Pair e cfg fs = (Inr r, fs')" and "separate cfg"
    and "LoadDevices (pv_io e) fs (pc_DevicesPath cfg) = Inr ds"
  shows "\<exists>ds' u. LoadDevices (pv_io e) fs' (pc_DevicesPath cfg) = Inr ds'
      \<and> BuildAuthConfig (pc_Username cfg) tok ds' = BuildAuthConfig (pc_Username cfg) tok ds @ [u]
      \<and> entry_of ''n'' (pr_Payload r) = Some (JStr (u_Username u))
      \<and> entry_of ''t'' (pr_Payload r) = Some (JStr (u_Password u))
      \<and> entry_of ''u'' (pr_Payload r) = Some (JStr (pc_Username cfg))
      \<and> (\<exists>f. FingerprintFromPEMFile (pv_crypto e) (pv_io e) fs' (pc_CertPath cfg) = Inr f
            \<and> entry_of ''c'' (pr_Payload r) = Some (JStr f))
      \<and> (\<not> pr_CertRegenerated r \<longrightarrow> fs' (pc_CertPath cfg) = fs (pc_CertPath cfg))"
proof (rule Pair_steps [OF assms(1)])
  fix i fs1 certs key ips regen fs2
  let ?d = "\<lparr> pd_DeviceID = pr_DeviceID r, pd_Token = pr_Token r, pd_PairedAt = pv_now e \<rparr>"
  assume 1: "LoadOrGenerateDaemonID (pv_io e) fs (pv_daemon_rnd e) (pc_DaemonIDPath cfg) = (Inr i, fs1)"
    and 2: "pair_cert e cfg i (certs \<noteq> '''') fs1 = (Inr (ips, regen), fs2)"
    and 3: "pair_device e cfg fs2 = (Inr (pr_DeviceID r, pr_Token r), fs')"
    and f: "FingerprintFromPEMFile (pv_crypto e) (pv_io e) fs' (pc_CertPath cfg) = Inr (pr_CertFingerprint r)"
    and regen: "pr_CertRegenerated r = regen"
    and p: "pr_Payload r = provisioning cfg (pr_Host r) (pr_Token r) (pr_CertFingerprint r) (pr_DeviceID r)"
  have kept: "\<not> pr_CertRegenerated r \<longrightarrow> fs' (pc_CertPath cfg) = fs (pc_CertPath cfg)"
    using pair_cert_kept [of e cfg i "certs \<noteq> ''''" fs1 ips fs2] 2 regen assms(2)
      daemon_id_frame [OF 1, of "pc_CertPath cfg"] pair_device_frame [OF 3, of "pc_CertPath cfg"]
    by (auto simp: separate_def Let_def)
  have "BuildAuthConfig (pc_Username cfg) tok (ds @ [?d])
      = BuildAuthConfig (pc_Username cfg) tok ds @ [mobileUser (pc_Username cfg) ?d]"
    by (simp add: BuildAuthConfig_def)
  moreover have "NatsUsername j \<noteq> ''''" for j by (simp add: NatsUsername_def)
  ultimately show ?thesis using f p kept Pair_registry [OF assms]
    by (intro exI [of _ "ds @ [?d]"] exI [of _ "mobileUser (pc_Username cfg) ?d"])
      (simp add: provisioning_def e_str_opt_def mobileUser_def Let_def)
qed

lemma preferred_text: "IP_String (PreferredIP ips) \<in> insert (IP_String localhost) (IP_String ` set ips)"
proof (cases ips)
  case Nil
  then show ?thesis by (simp add: PreferredIP_def)
next
  case (Cons a as)
  then obtain b where b: "b \<in> set ips" "PreferredIP ips = b \<or> To4 b = Some (PreferredIP ips)"
    using preferred_candidate [of ips] by (auto simp: PreferredIP_def)
  moreover have "IP_String c = IP_String b" if "To4 b = Some c" for c
    using that To4_To4 [OF that] by (auto simp: IP_String_def To4_def split: if_splits)
  ultimately show ?thesis by fastforce
qed

text \<open>
  C24 (safety): the code pins the certificate that was made for this machine. When a pairing made a new
  certificate, the fingerprint in the code is that of the signed bytes; they were signed for the
  daemon id, for three years, for exactly the loopback address and the addresses discovered, each
  once, and the address in the code is one of them unless it was given with \<^verbatim>\<open>--ip\<close>.
\<close>

theorem certificate_in_code:
  assumes "Pair e cfg fs = (Inr r, fs')" and "separate cfg" and "pem_roundtrip (pv_crypto e)" and "pr_CertRegenerated r"
  shows "\<exists>c key der ips i. cr_create (pv_crypto e) c key = Some der
      \<and> entry_of ''c'' (pr_Payload r) = Some (JStr (Fingerprint (pv_crypto e) der))
      \<and> fst (LoadOrGenerateDaemonID (pv_io e) fs (pv_daemon_rnd e) (pc_DaemonIDPath cfg)) = Inr i
      \<and> ct_CommonName c = ''renotify-'' @ i \<and> ct_NotAfter c - ct_NotBefore c = 3 * 365 * 24 * hour
      \<and> DiscoverIPs (pv_interfaces e) = Some ips \<and> distinct (map IP_String (ct_IPAddresses c))
      \<and> IP_String ` set (ct_IPAddresses c) = insert (IP_String localhost) (IP_String ` set ips)
      \<and> (pc_OverrideIP cfg = '''' \<longrightarrow>
           (\<exists>a \<in> set (ct_IPAddresses c). entry_of ''h'' (pr_Payload r) = Some (JStr (IP_String a))))"
proof (rule Pair_steps [OF assms(1)])
  fix i fs1 certs key ips regen fs2
  assume 1: "LoadOrGenerateDaemonID (pv_io e) fs (pv_daemon_rnd e) (pc_DaemonIDPath cfg) = (Inr i, fs1)"
    and 2: "pair_cert e cfg i (certs \<noteq> '''') fs1 = (Inr (ips, regen), fs2)"
    and 3: "pair_device e cfg fs2 = (Inr (pr_DeviceID r, pr_Token r), fs')"
    and f: "FingerprintFromPEMFile (pv_crypto e) (pv_io e) fs' (pc_CertPath cfg) = Inr (pr_CertFingerprint r)"
    and regen: "pr_CertRegenerated r = regen"
    and p: "pr_Payload r = provisioning cfg (pr_Host r) (pr_Token r) (pr_CertFingerprint r) (pr_DeviceID r)"
    and h: "pr_Host r = (if pc_OverrideIP cfg \<noteq> '''' then pc_OverrideIP cfg else IP_String (PreferredIP ips))"
  let ?params = "\<lparr> gp_DaemonID = i, gp_IPs = deduplicateIPs (ips @ [localhost]), gp_Hostnames = [''localhost''] \<rparr>"
  from 2 regen assms(4) have "pair_cert e cfg i (certs \<noteq> '''') fs1 = (Inr (ips, True), fs2)" by simp
  then obtain g fl where g: "DiscoverIPs (pv_interfaces e) = Some ips" "Generate (pv_crypto e) ?params = Inr g"
    "fs2 (pc_CertPath cfg) = Some fl" "f_content fl = Text (ge_CertPEM g)"
    by (rule pair_cert_generated [OF _ assms(2)])
  moreover have "fs' (pc_CertPath cfg) = fs2 (pc_CertPath cfg)"
    using pair_device_frame [OF 3] assms(2) by (simp add: separate_def Let_def)
  ultimately have "pr_CertFingerprint r = ge_Fingerprint g"
    using fingerprint_of_generated [OF g(2) assms(3) _ g(4) f] by simp
  then have fp: "pr_CertFingerprint r = Fingerprint (pv_crypto e) (ge_CertDER g)" using Generate_signed [OF g(2)] by metis
  obtain serial key where "cr_create (pv_crypto e) (cert_template serial (cr_now (pv_crypto e)) ?params) key = Some (ge_CertDER g)"
    using Generate_signed [OF g(2)] by metis
  moreover have "distinct (map IP_String (deduplicateIPs (ips @ [localhost])))"
    "IP_String ` set (deduplicateIPs (ips @ [localhost])) = insert (IP_String localhost) (IP_String ` set ips)"
    using dedup_loop_spec [of "ips @ [localhost]" "[]"] by (simp_all add: deduplicateIPs_def)
  moreover from this(2) obtain a where "a \<in> set (deduplicateIPs (ips @ [localhost]))" "IP_String (PreferredIP ips) = IP_String a"
    using preferred_text [of ips] by (metis imageE)
  ultimately show ?thesis using fp p h g(1) 1
    by (intro exI [of _ "cert_template serial (cr_now (pv_crypto e)) ?params"] exI [of _ key] exI [of _ "ge_CertDER g"]
          exI [of _ ips] exI [of _ i] conjI)
      (auto simp: cert_template_def provisioning_def)
qed

text \<open>
  A pairing that runs before the first migration loses the old one. When only the legacy
  token is there, the registry after the pairing holds the new device alone, and no later migration
  adds the legacy token: it finds a registry and does nothing.
\<close>

theorem pairing_skips_migration:
  assumes "Pair e cfg fs = (Inr r, fs')" and "separate cfg" and "fs (pc_DevicesPath cfg) = None"
    and "\<not> read_err (pv_io e) (pc_DevicesPath cfg)"
    and "LoadPairingToken (pv_io e) fs (pc_TokenPath cfg) = Inr legacy" and "legacy \<noteq> pr_Token r"
    and "\<not> stat_err e' (pc_DevicesPath cfg)"
  shows "MigrateFromSingleToken e' fs' rnd now (pc_TokenPath cfg) (pc_UsernamePath cfg) (pc_DevicesPath cfg) = (None, fs')
    \<and> (\<exists>ds'. LoadDevices (pv_io e) fs' (pc_DevicesPath cfg) = Inr ds' \<and> map pd_Token ds' = [pr_Token r]
        \<and> legacy \<notin> set (map pd_Token ds'))"
proof -
  have none: "LoadDevices (pv_io e) fs (pc_DevicesPath cfg) = Inr []"
    using assms(3,4) by (simp add: LoadDevices_def os_ReadFile_def)
  note reg = Pair_registry [OF assms(1,2) none]
  then have "fs' (pc_DevicesPath cfg) \<noteq> None"
    by (cases "fs' (pc_DevicesPath cfg)") (auto simp: LoadDevices_def os_ReadFile_def split: if_splits)
  with assms(6,7) reg show ?thesis by (simp add: MigrateFromSingleToken_def)
qed

section \<open>Revoking, from the command to the signal\<close>

lemma signalDaemonReload_effect:
  "signalDaemonReload os p h = ((res, pid), h') \<Longrightarrow>
     ho_fs h' = ho_fs h \<and> ho_signals h' = ho_signals h @ (if res = SignalSent then [(pid, SIGHUP)] else [])"
  by (auto simp: signalDaemonReload_def deliver_def split: option.splits if_splits)

lemma signalAndLog_effect:
  "ho_fs (signalAndLog e cfg h) = ho_fs h
   \<and> (bc_Enabled (cf_Broker cfg) \<longrightarrow> signalDaemonReload (rv_os e) (PIDPath (rv_xdg e)) h = ((SignalSent, pid), h')
        \<longrightarrow> ho_signals (signalAndLog e cfg h) = ho_signals h @ [(pid, SIGHUP)])"
proof -
  obtain res q h1 where s: "signalDaemonReload (rv_os e) (PIDPath (rv_xdg e)) h = ((res, q), h1)"
    by (metis prod.exhaust)
  from signalDaemonReload_effect [OF s] s show ?thesis
    by (auto simp: signalAndLog_def host_err_def split: signal_result.splits)
qed

lemma writeRevokeOutput_effect:
  "writeRevokeOutput format b m emb h = (err, h') \<Longrightarrow> err = None \<and> ho_fs h' = ho_fs h \<and> ho_signals h' = ho_signals h"
  by (auto simp: writeRevokeOutput_def out_item_def host_err_def split: if_splits)

text \<open>
  A device named on the command line and in the registry: its removal is written and the running
  daemon is signalled, which is what the reload of the accounts starts from.
\<close>

lemma revoke_removes_and_signals:
  assumes "ho_fs h = snd (MigrateFromSingleToken (oe_io (rv_os e)) (ho_fs h0) (rv_rnd e) (rv_now e)
        (PairingTokenPath (rv_xdg e)) (PairingUsernamePath (rv_xdg e)) (DevicesPath (rv_xdg e)))"
    and "LoadDevices (oe_io (rv_os e)) (ho_fs h) (DevicesPath (rv_xdg e)) = Inr ds" and "i \<noteq> ''''"
    and "RemoveDevice (oe_io (rv_os e)) (ho_fs h) (DevicesPath (rv_xdg e)) i = (True, None, fs')"
    and "bc_Enabled (cf_Broker cfg)"
    and "signalDaemonReload (rv_os e) (PIDPath (rv_xdg e)) (h0\<lparr> ho_fs := fs' \<rparr>) = ((SignalSent, pid), h1)"
    and "revoke_cmd e cfg i False format h0 = (err, h')"
  shows "err = None \<and> ho_fs h' = fs' \<and> ho_signals h' = ho_signals h0 @ [(pid, SIGHUP)]"
proof -
  let ?h = "h0\<lparr> ho_fs := ho_fs h \<rparr>"
  have "revoke_cmd e cfg i False format h0 = revokeDevice e cfg i format ?h"
    using assms(2,3) by (simp add: revoke_cmd_def Let_def flip: assms(1))
  also have "\<dots> = writeRevokeOutput format True (''device '' @ i @ '' revoked'') (bc_Enabled (cf_Broker cfg))
      (signalAndLog e cfg (h0\<lparr> ho_fs := fs' \<rparr>))"
    using assms(4) by (simp add: revokeDevice_def Let_def)
  finally have "writeRevokeOutput format True (''device '' @ i @ '' revoked'') (bc_Enabled (cf_Broker cfg))
      (signalAndLog e cfg (h0\<lparr> ho_fs := fs' \<rparr>)) = (err, h')" using assms(7) by simp
  from writeRevokeOutput_effect [OF this] signalAndLog_effect [of e cfg "h0\<lparr> ho_fs := fs' \<rparr>" pid h1] assms(5,6)
  show ?thesis by simp
qed

section \<open>Witnesses\<close>

definition a_pair_env :: pair_env where
  "a_pair_env = \<lparr> pv_io = io_ok,
     pv_crypto = \<lparr> cr_key = None, cr_serial = None, cr_now = 0, cr_create = (\<lambda>_ _. None), cr_ec_key = (\<lambda>_. None),
       cr_pem_encode = (\<lambda>_ _. ''''), cr_pem_decode = (\<lambda>_. Some (''CERTIFICATE'', [1])), cr_sha256 = (\<lambda>_. [171]) \<rparr>,
     pv_interfaces = None, pv_daemon_rnd = [], pv_id_rnd = replicate 9 7, pv_token_rnd = replicate 32 9, pv_now = 0 \<rparr>"

definition a_pair_config :: PairConfig where
  "a_pair_config = \<lparr> pc_CertPath = ''c'', pc_KeyPath = ''k'', pc_TokenPath = ''t'', pc_UsernamePath = ''u'',
     pc_DevicesPath = ''d'', pc_DaemonIDPath = ''i'', pc_Username = ''alice'', pc_WSSPort = 4223,
     pc_RegenerateCert = False, pc_OverrideIP = ''10.0.0.5'' \<rparr>"

definition a_legacy_dir :: fs where
  "a_legacy_dir = (\<lambda>p. if p \<in> {''c'', ''k'', ''i'', ''t''} then Some \<lparr> f_content = Text (''x'' @ [CHR 0x0A]), f_mode = perm600 \<rparr> else None)"

lemma gen_id_total: "n \<le> 8 * length rnd \<Longrightarrow> \<exists>enc. gen_id pre n io_ok rnd = Inr (pre @ enc)"
  using EncodeBits_total [of n rnd] by (auto simp: gen_id_def split: sum.split)

lemma a_pairing:
  "\<exists>r fs'. Pair a_pair_env a_pair_config a_legacy_dir = (Inr r, fs') \<and> hd (pr_Token r) = CHR ''r''"
proof -
  obtain i where i: "GenerateDeviceID io_ok (replicate 9 7) = Inr i"
    using gen_id_total [of 65 "replicate 9 7" "''mb_''"] by (auto simp: GenerateDeviceID_def)
  obtain t where t: "GenerateDeviceToken io_ok (replicate 32 9) = Inr t" "hd t = CHR ''r''"
    using gen_id_total [of 256 "replicate 32 9" "''rn_tk_''"] by (auto simp: GenerateDeviceToken_def)
  show ?thesis
    by (simp add: Pair_def a_pair_env_def a_pair_config_def a_legacy_dir_def LoadOrGenerateDaemonID_def loadOrGenerate_def
        os_ReadFile_def LoadTLS_def fileExists_def pair_cert_def pair_device_def i t AddDevice_def LoadDevices_def
        SaveDevices_def four_digit_year_def writeAtomicBytes_def writeAtomicBytes_run_def put_file_def tmp_of_def
        FingerprintFromPEMFile_def Let_def)
qed

lemma a_pair_config_separate: "separate a_pair_config"
  by (simp add: separate_def a_pair_config_def tmp_of_def)

lemma a_legacy_simps:
  "LoadDevices io_ok a_legacy_dir ''d'' = Inr []" "a_legacy_dir ''d'' = None" "pv_io a_pair_env = io_ok"
  "pc_DevicesPath a_pair_config = ''d''" "pc_TokenPath a_pair_config = ''t''"
  "LoadPairingToken io_ok a_legacy_dir ''t'' = Inr ''x''"
  using trim_space_line [of "''x''"]
  by (simp_all add: visible_def LoadDevices_def os_ReadFile_def a_legacy_dir_def a_pair_env_def a_pair_config_def LoadPairingToken_def)

theorem pairing_adds_device_witness:
  "\<exists>r fs' ds' u. Pair a_pair_env a_pair_config a_legacy_dir = (Inr r, fs')
      \<and> LoadDevices io_ok fs' ''d'' = Inr ds' \<and> entry_of ''n'' (pr_Payload r) = Some (JStr (u_Username u))
      \<and> BuildAuthConfig ''alice'' '''' ds' = [daemonUser ''alice'' '''', u]"
proof -
  obtain r fs' where p: "Pair a_pair_env a_pair_config a_legacy_dir = (Inr r, fs')" using a_pairing by blast
  have u: "pc_Username a_pair_config = ''alice''" by (simp add: a_pair_config_def)
  have l: "LoadDevices (pv_io a_pair_env) a_legacy_dir (pc_DevicesPath a_pair_config) = Inr []"
    by (simp add: a_legacy_simps)
  from pairing_adds_device [OF p a_pair_config_separate l, of "''''"] p show ?thesis
    unfolding u a_legacy_simps by (fastforce simp: BuildAuthConfig_def)
qed

theorem pairing_skips_migration_witness:
  "\<exists>r fs'. Pair a_pair_env a_pair_config a_legacy_dir = (Inr r, fs')
     \<and> MigrateFromSingleToken io_ok fs' [] 0 ''t'' (pc_UsernamePath a_pair_config) ''d'' = (None, fs')"
proof -
  obtain r fs' where p: "Pair a_pair_env a_pair_config a_legacy_dir = (Inr r, fs')" "hd (pr_Token r) = CHR ''r''"
    using a_pairing by blast
  then have "''x'' \<noteq> pr_Token r" by (cases "pr_Token r") auto
  with pairing_skips_migration [OF p(1) a_pair_config_separate, of "''x''" io_ok "[]" 0] p
  show ?thesis by (simp add: a_legacy_simps)
qed

text \<open>A block encoding with its inverse, and a machine without a network on which all keys are the same.\<close>

definition a_pem :: "string \<Rightarrow> byte list \<Rightarrow> string" where
  "a_pem t der = replicate (length t) CHR ''.'' @ CHR ''-'' # t @ map (\<lambda>b. char_of (unat b)) der"

definition a_pem_decode :: "string \<Rightarrow> (string \<times> byte list) option" where
  "a_pem_decode s = (let n = length (takeWhile (\<lambda>c. c = CHR ''.'') s); rest = drop (Suc n) s
     in Some (take n rest, map (\<lambda>c. word_of_nat (of_char c)) (drop n rest)))"

definition a_cert_env :: pair_env where
  "a_cert_env = a_pair_env\<lparr> pv_interfaces := Some [],
     pv_crypto := \<lparr> cr_key = Some [7], cr_serial = Some 1, cr_now = 978307200 * second, cr_create = (\<lambda>c key. Some [1, 2]),
       cr_ec_key = Some, cr_pem_encode = a_pem, cr_pem_decode = a_pem_decode, cr_sha256 = (\<lambda>_. [171]) \<rparr> \<rparr>"

lemma a_pem_roundtrip: "pem_roundtrip (pv_crypto a_cert_env)"
proof -
  have "word_of_nat (of_char (char_of (unat b) :: char)) = b" for b :: byte
    using unsigned_less [of b, where ?'a = nat] by simp
  moreover have "takeWhile (\<lambda>c. c = CHR ''.'') (replicate n CHR ''.'' @ CHR ''-'' # cs) = replicate n CHR ''.''" for n cs
    by (induction n) auto
  ultimately show ?thesis
    by (simp add: pem_roundtrip_def a_cert_env_def a_pem_def a_pem_decode_def Let_def comp_def)
qed

definition a_cert_config :: PairConfig where
  "a_cert_config = a_pair_config\<lparr> pc_RegenerateCert := True, pc_OverrideIP := '''' \<rparr>"

lemma a_cert_pairing: "\<exists>r fs'. Pair a_cert_env a_cert_config a_legacy_dir = (Inr r, fs') \<and> pr_CertRegenerated r"
proof -
  obtain i where i: "GenerateDeviceID io_ok (replicate 9 7) = Inr i"
    using gen_id_total [of 65 "replicate 9 7" "''mb_''"] by (auto simp: GenerateDeviceID_def)
  obtain t where t: "GenerateDeviceToken io_ok (replicate 32 9) = Inr t"
    using gen_id_total [of 256 "replicate 32 9" "''rn_tk_''"] by (auto simp: GenerateDeviceToken_def)
  show ?thesis
    by (simp add: Pair_def a_cert_env_def a_cert_config_def a_pair_env_def a_pair_config_def a_legacy_dir_def
        LoadOrGenerateDaemonID_def loadOrGenerate_def os_ReadFile_def LoadTLS_def fileExists_def pair_cert_def Generate_def
        DiscoverIPs_def WriteTLS_def pair_device_def i t AddDevice_def LoadDevices_def SaveDevices_def four_digit_year_def
        writeAtomicBytes_def writeAtomicBytes_run_def put_file_def tmp_of_def FingerprintFromPEMFile_def a_pem_def
        a_pem_decode_def Let_def)
qed

theorem certificate_in_code_witness:
  "\<exists>r fs'. Pair a_cert_env a_cert_config a_legacy_dir = (Inr r, fs')
     \<and> entry_of ''c'' (pr_Payload r) = Some (JStr ''ab'') \<and> entry_of ''h'' (pr_Payload r) = Some (JStr ''127.0.0.1'')"
proof -
  obtain r fs' where p: "Pair a_cert_env a_cert_config a_legacy_dir = (Inr r, fs')" "pr_CertRegenerated r"
    using a_cert_pairing by blast
  have "separate a_cert_config" by (simp add: separate_def a_cert_config_def a_pair_config_def tmp_of_def)
  note code = certificate_in_code [OF p(1) this a_pem_roundtrip p(2)]
  have o: "pc_OverrideIP a_cert_config = ''''" "DiscoverIPs (pv_interfaces a_cert_env) = Some []"
    by (simp_all add: a_cert_config_def a_cert_env_def DiscoverIPs_def)
  have "hex_digits 2 (unat (171 :: byte)) = ''ab''" by code_simp
  then have fp: "Fingerprint (pv_crypto a_cert_env) der = ''ab''" for der
    by (simp add: Fingerprint_def a_cert_env_def)
  have local: "IP_String localhost = ''127.0.0.1''" by code_simp
  from code show ?thesis
  proof (elim exE conjE, goal_cases)
    case (1 c key der ips i)
    then have "IP_String ` set (ct_IPAddresses c) = {IP_String localhost}" using o(2) by simp
    with 1(9) o(1) have "entry_of ''h'' (pr_Payload r) = Some (JStr (IP_String localhost))" by (metis image_eqI singletonD)
    with 1(2) p(1) local show ?case by (auto simp: fp)
  qed
qed

end
