(* ===== verification/Relay.thy ===== *)
theory Relay
  imports McpStores Controller
begin

text \<open>
  The stdio relay: the daemon's side (cli/internal/mcpserver: stdio_relay.go, nats_transport.go) as a
  step relation between the handlers of the open and close subjects, the goroutines that wait for
  a session to end, the deliveries of NATS and the stop of the server; and the command
  (cli/internal/command/mcp.go) that forwards its standard input. The MCP library is an argument:
  whether it accepts a connection and when a session ends.
\<close>

section \<open>nats_transport.go\<close>

text \<open>A connection: its session, the subject it receives on and the one it sends on, what has arrived.\<close>

record natsConn =
  cn_sessionID :: string
  cn_c2sSubj :: string
  cn_s2cSubj :: string
  cn_incoming :: "string list"
  cn_closed :: bool
  cn_subscribed :: bool

definition newNATSConn :: "string \<Rightarrow> string \<Rightarrow> string \<Rightarrow> natsConn" where
  "newNATSConn sessionID c2s s2c =
     \<lparr> cn_sessionID = sessionID, cn_c2sSubj = c2s, cn_s2cSubj = s2c, cn_incoming = [], cn_closed = False,
       cn_subscribed = True \<rparr>"

definition conn_deliver :: "string \<Rightarrow> natsConn \<Rightarrow> natsConn" where
  "conn_deliver data c = c\<lparr> cn_incoming := cn_incoming c @ [data] \<rparr>"

datatype read_outcome = Cancelled | Eof | Message string | Blocked

text \<open>
  \<^verbatim>\<open>Read\<close> when the context is not cancelled: the select may take either of a closed connection and
  a message that has arrived; the second argument is its choice. A message NATS delivers is not nil.
\<close>

definition conn_Read :: "bool \<Rightarrow> bool \<Rightarrow> natsConn \<Rightarrow> read_outcome \<times> natsConn" where
  "conn_Read cancelled prefer_closed c =
     (if cancelled then (Cancelled, c)
      else if cn_closed c \<and> (prefer_closed \<or> cn_incoming c = []) then (Eof, c)
      else case cn_incoming c of
        [] \<Rightarrow> (Blocked, c)
      | data # rest \<Rightarrow> (Message data, c\<lparr> cn_incoming := rest \<rparr>))"

text \<open>\<^verbatim>\<open>Write\<close>: what is published, when encoding works.\<close>

definition conn_Write :: "bool \<Rightarrow> string option \<Rightarrow> natsConn \<Rightarrow> (string \<times> string) option" where
  "conn_Write cancelled encoded c =
     (if cancelled then None else map_option (\<lambda>data. (cn_s2cSubj c, data)) encoded)"

definition conn_Close :: "natsConn \<Rightarrow> natsConn" where
  "conn_Close c = (if cn_closed c then c else c\<lparr> cn_closed := True, cn_subscribed := False \<rparr>)"

section \<open>stdio_relay.go\<close>

text \<open>
  Connections are addresses into \<open>rl_conns\<close>; a stopped relay has no map of sessions (nil). The
  handler of open messages gives up the lock between its check and its insert: \<open>rl_opening\<close> is the
  session it is working on. \<open>rl_waiters\<close> are the goroutines that wait for a session to end.
\<close>

record relay =
  rl_username :: string
  rl_sessions :: "(string, nat) gomap option"
  rl_conns :: "natsConn list"
  rl_opening :: "(string \<times> nat) option"
  rl_waiters :: "(string \<times> nat) list"
  rl_openSub :: bool
  rl_closeSub :: bool

definition idle_relay :: "string \<Rightarrow> relay" where
  "idle_relay username = \<lparr> rl_username = username, rl_sessions = None, rl_conns = [], rl_opening = None,
     rl_waiters = [], rl_openSub = False, rl_closeSub = False \<rparr>"

text \<open>Reading a nil map finds nothing.\<close>

definition sessions_of :: "relay \<Rightarrow> (string, nat) gomap" where
  "sessions_of r = (case rl_sessions r of None \<Rightarrow> [] | Some m \<Rightarrow> m)"

text \<open>The two subscriptions succeed or not; true is success.\<close>

definition startStdioRelay :: "bool \<Rightarrow> bool \<Rightarrow> relay \<Rightarrow> bool \<times> relay" where
  "startStdioRelay open_ok close_ok r =
     (let r1 = r\<lparr> rl_sessions := Some [] \<rparr> in
      if \<not> open_ok then (False, r1)
      else if \<not> close_ok then (False, r1)
      else (True, r1\<lparr> rl_openSub := True, rl_closeSub := True \<rparr>))"

definition dec_session_id :: "wire \<Rightarrow> string option" where
  "dec_session_id w = unmarshal (dec_struct [(''session_id'', d_str (\<lambda>f s. f s))] '''') w"

definition close_conn :: "nat \<Rightarrow> relay \<Rightarrow> relay" where
  "close_conn c r = r\<lparr> rl_conns := (rl_conns r)[c := conn_Close (rl_conns r ! c)] \<rparr>"

text \<open>What the handler does before its second lock; \<open>sub_ok\<close> and \<open>accept_ok\<close> are the answers of the
  subscription and of \<^verbatim>\<open>Connect\<close>.\<close>

definition open_begin :: "bool \<Rightarrow> bool \<Rightarrow> wire \<Rightarrow> relay \<Rightarrow> relay" where
  "open_begin sub_ok accept_ok data r =
     (case dec_session_id data of
        None \<Rightarrow> r
      | Some sid \<Rightarrow>
          if sid = '''' then r
          else if gm_get (sessions_of r) sid \<noteq> None then r
          else if \<not> sub_ok then r
          else
            let c = length (rl_conns r);
                r1 = r\<lparr> rl_conns := rl_conns r @ [newNATSConn sid
                       (MCPClientToServerSubject (rl_username r) sid) (MCPServerToClientSubject (rl_username r) sid)] \<rparr>
            in if \<not> accept_ok then close_conn c r1 else r1\<lparr> rl_opening := Some (sid, c) \<rparr>)"

text \<open>Assigning to a nil map panics.\<close>

definition open_end :: "string \<Rightarrow> nat \<Rightarrow> relay \<Rightarrow> relay outcome" where
  "open_end sid c r =
     (case rl_sessions r of
        None \<Rightarrow> Panic
      | Some m \<Rightarrow> Ret (r\<lparr> rl_sessions := Some (gm_set sid c m), rl_opening := None,
                        rl_waiters := rl_waiters r @ [(sid, c)] \<rparr>))"

definition handleStdioOpen :: "bool \<Rightarrow> bool \<Rightarrow> wire \<Rightarrow> relay \<Rightarrow> relay outcome" where
  "handleStdioOpen sub_ok accept_ok data r =
     (let r1 = open_begin sub_ok accept_ok data r in
      case rl_opening r1 of None \<Rightarrow> Ret r1 | Some (sid, c) \<Rightarrow> open_end sid c r1)"

definition removeStdioSession :: "string \<Rightarrow> relay \<Rightarrow> relay" where
  "removeStdioSession sid r =
     (case rl_sessions r of
        None \<Rightarrow> r
      | Some m \<Rightarrow>
          (case gm_get m sid of
             None \<Rightarrow> r
           | Some c \<Rightarrow> close_conn c (r\<lparr> rl_sessions := Some (gm_del sid m) \<rparr>)))"

definition handleStdioClose :: "wire \<Rightarrow> relay \<Rightarrow> relay" where
  "handleStdioClose data r = (case dec_session_id data of None \<Rightarrow> r | Some sid \<Rightarrow> removeStdioSession sid r)"

text \<open>The goroutine that waits for a session removes whatever session has the id by then.\<close>

definition session_ended :: "string \<Rightarrow> nat \<Rightarrow> relay \<Rightarrow> relay" where
  "session_ended sid c r = removeStdioSession sid (r\<lparr> rl_waiters := remove1 (sid, c) (rl_waiters r) \<rparr>)"

definition stopStdioRelay :: "relay \<Rightarrow> relay" where
  "stopStdioRelay r =
     fold (\<lambda>(sid, c). close_conn c) (sessions_of r)
       (r\<lparr> rl_openSub := False, rl_closeSub := False, rl_sessions := None \<rparr>)"

text \<open>
  The steps. NATS calls the handler of one subscription for one message at a time; the close
  handler, the waiting goroutines, the deliveries and the stop may come between the two halves of
  an open. A stop does not wait for a handler that is running. A delivery waits while the channel
  holds 64 messages.
\<close>

inductive relay_step :: "relay \<Rightarrow> relay outcome \<Rightarrow> bool" where
  open_message: "rl_openSub r \<Longrightarrow> rl_opening r = None \<Longrightarrow> relay_step r (Ret (open_begin sub_ok accept_ok data r))"
| open_insert: "rl_opening r = Some (sid, c) \<Longrightarrow> relay_step r (open_end sid c r)"
| close_message: "rl_closeSub r \<Longrightarrow> relay_step r (Ret (handleStdioClose data r))"
| ended: "(sid, c) \<in> set (rl_waiters r) \<Longrightarrow> relay_step r (Ret (session_ended sid c r))"
| deliver: "c < length (rl_conns r) \<Longrightarrow> cn_subscribed (rl_conns r ! c) \<Longrightarrow>
     length (cn_incoming (rl_conns r ! c)) < 64 \<Longrightarrow>
     relay_step r (Ret (r\<lparr> rl_conns := (rl_conns r)[c := conn_deliver data (rl_conns r ! c)] \<rparr>))"
| take_message: "c < length (rl_conns r) \<Longrightarrow>
     relay_step r (Ret (r\<lparr> rl_conns := (rl_conns r)[c := snd (conn_Read cancelled choice (rl_conns r ! c))] \<rparr>))"
| stop: "relay_step r (Ret (stopStdioRelay r))"

inductive relay_run :: "relay \<Rightarrow> relay \<Rightarrow> bool" where
  started: "startStdioRelay True True (idle_relay username) = (True, r) \<Longrightarrow> relay_run (idle_relay username) r"
| more: "relay_run r0 r \<Longrightarrow> relay_step r (Ret r') \<Longrightarrow> relay_run r0 r'"

inductive_cases relay_stepE: "relay_step r o'"
inductive_cases relay_panicE: "relay_step r Panic"

section \<open>Sessions and connections\<close>

lemmas relay_defs = sessions_of_def close_conn_def conn_Close_def newNATSConn_def

lemma sessions_of_updates [simp]:
  "sessions_of (r\<lparr> rl_conns := cs \<rparr>) = sessions_of r" "sessions_of (r\<lparr> rl_opening := op \<rparr>) = sessions_of r"
  "sessions_of (r\<lparr> rl_waiters := ws \<rparr>) = sessions_of r" "sessions_of (r\<lparr> rl_sessions := Some m \<rparr>) = m"
  by (simp_all add: sessions_of_def)

text \<open>The connections the relay answers for: those of its sessions and the one being opened.\<close>

definition live :: "relay \<Rightarrow> string \<Rightarrow> nat \<Rightarrow> bool" where
  "live r sid c \<longleftrightarrow> gm_get (sessions_of r) sid = Some c \<or> rl_opening r = Some (sid, c)"

definition conn_ok :: "relay \<Rightarrow> nat \<Rightarrow> bool" where
  "conn_ok r c \<longleftrightarrow> (let cn = rl_conns r ! c in
     (\<not> cn_closed cn \<longleftrightarrow> live r (cn_sessionID cn) c) \<and> cn_subscribed cn = (\<not> cn_closed cn)
     \<and> cn_c2sSubj cn = MCPClientToServerSubject (rl_username r) (cn_sessionID cn))"

definition relay_ok :: "relay \<Rightarrow> bool" where
  "relay_ok r \<longleftrightarrow> gm_ok (sessions_of r)
     \<and> (\<forall>sid c. live r sid c \<longrightarrow> c < length (rl_conns r) \<and> cn_sessionID (rl_conns r ! c) = sid)
     \<and> (\<forall>c < length (rl_conns r). conn_ok r c)
     \<and> (\<forall>sid c. rl_opening r = Some (sid, c) \<longrightarrow> gm_get (sessions_of r) sid = None)
     \<and> (rl_sessions r = None \<longrightarrow> \<not> rl_openSub r \<and> \<not> rl_closeSub r)"

lemma relay_okI:
  assumes "gm_ok (sessions_of r)" and "\<And>sid c. live r sid c \<Longrightarrow> c < length (rl_conns r)"
    and "\<And>sid c. live r sid c \<Longrightarrow> cn_sessionID (rl_conns r ! c) = sid"
    and "\<And>c. c < length (rl_conns r) \<Longrightarrow> conn_ok r c"
    and "\<And>sid c. rl_opening r = Some (sid, c) \<Longrightarrow> gm_get (sessions_of r) sid = None"
    and "rl_sessions r = None \<Longrightarrow> \<not> rl_openSub r \<and> \<not> rl_closeSub r"
  shows "relay_ok r"
  using assms unfolding relay_ok_def by blast

lemma relay_okD:
  assumes "relay_ok r"
  shows "gm_ok (sessions_of r)" and "live r sid c \<Longrightarrow> c < length (rl_conns r)"
    and "live r sid c \<Longrightarrow> cn_sessionID (rl_conns r ! c) = sid"
    and "c < length (rl_conns r) \<Longrightarrow> conn_ok r c"
    and "rl_opening r = Some (sid, c) \<Longrightarrow> gm_get (sessions_of r) sid = None"
    and "rl_sessions r = None \<Longrightarrow> \<not> rl_openSub r \<and> \<not> rl_closeSub r"
  using assms unfolding relay_ok_def by blast+

text \<open>A step that changes only what has arrived on one connection.\<close>

lemma relay_ok_incoming:
  assumes "relay_ok r" and "cn_closed cn = cn_closed (rl_conns r ! c)" "cn_sessionID cn = cn_sessionID (rl_conns r ! c)"
    and "cn_subscribed cn = cn_subscribed (rl_conns r ! c)" "cn_c2sSubj cn = cn_c2sSubj (rl_conns r ! c)"
  shows "relay_ok (r\<lparr> rl_conns := (rl_conns r)[c := cn] \<rparr>)"
proof -
  let ?r = "r\<lparr> rl_conns := (rl_conns r)[c := cn] \<rparr>"
  have l: "live ?r sid k = live r sid k" "sessions_of ?r = sessions_of r" for sid k
    by (simp_all add: live_def sessions_of_def)
  have n: "cn_closed (rl_conns ?r ! k) = cn_closed (rl_conns r ! k)"
    "cn_sessionID (rl_conns ?r ! k) = cn_sessionID (rl_conns r ! k)"
    "cn_subscribed (rl_conns ?r ! k) = cn_subscribed (rl_conns r ! k)"
    "cn_c2sSubj (rl_conns ?r ! k) = cn_c2sSubj (rl_conns r ! k)" if "k < length (rl_conns r)" for k
    using assms(2-5) that by (cases "k = c"; simp)+
  show ?thesis
    by (rule relay_okI) (use relay_okD [OF assms(1)] n in \<open>auto simp: l conn_ok_def Let_def\<close>)
qed

lemma relay_ok_waiters: "relay_ok r \<Longrightarrow> relay_ok (r\<lparr> rl_waiters := ws \<rparr>)"
  by (simp add: relay_ok_def conn_ok_def live_def sessions_of_def Let_def)

lemma open_begin_cases:
  obtains (same) "open_begin sub_ok accept_ok data r = r"
  | (refused) sid cn where "cn_closed cn" "\<not> cn_subscribed cn" "cn_sessionID cn = sid"
      "cn_c2sSubj cn = MCPClientToServerSubject (rl_username r) sid" "gm_get (sessions_of r) sid = None"
      "open_begin sub_ok accept_ok data r = r\<lparr> rl_conns := rl_conns r @ [cn] \<rparr>"
  | (opened) sid cn where "\<not> cn_closed cn" "cn_subscribed cn" "cn_sessionID cn = sid"
      "cn_c2sSubj cn = MCPClientToServerSubject (rl_username r) sid" "gm_get (sessions_of r) sid = None"
      "open_begin sub_ok accept_ok data r
        = r\<lparr> rl_conns := rl_conns r @ [cn], rl_opening := Some (sid, length (rl_conns r)) \<rparr>"
proof (cases "open_begin sub_ok accept_ok data r = r")
  case False
  then obtain sid where sid: "dec_session_id data = Some sid" "sid \<noteq> ''''" "gm_get (sessions_of r) sid = None" sub_ok
    by (auto simp: open_begin_def split: option.splits if_splits)
  let ?cn = "newNATSConn sid (MCPClientToServerSubject (rl_username r) sid) (MCPServerToClientSubject (rl_username r) sid)"
  show ?thesis
  proof (cases accept_ok)
    case True
    with sid show ?thesis by (intro opened [of ?cn sid]) (simp_all add: open_begin_def newNATSConn_def)
  next
    case False
    with sid show ?thesis
      by (intro refused [of "conn_Close ?cn" sid]) (simp_all add: open_begin_def newNATSConn_def close_conn_def conn_Close_def)
  qed
qed (rule same)

lemma conn_ok_same:
  "rl_conns r' ! c = rl_conns r ! c \<Longrightarrow> rl_username r' = rl_username r \<Longrightarrow>
     live r' (cn_sessionID (rl_conns r ! c)) c = live r (cn_sessionID (rl_conns r ! c)) c \<Longrightarrow> conn_ok r' c = conn_ok r c"
  by (simp add: conn_ok_def Let_def)

lemma relay_ok_begin:
  assumes "relay_ok r" and "rl_opening r = None"
  shows "relay_ok (open_begin sub_ok accept_ok data r)"
proof (cases rule: open_begin_cases [of sub_ok accept_ok data r])
  case same
  with assms show ?thesis by simp
next
  case (refused sid cn)
  let ?r = "r\<lparr> rl_conns := rl_conns r @ [cn] \<rparr>" and ?n = "length (rl_conns r)"
  have l: "live ?r s c = live r s c" "sessions_of ?r = sessions_of r" for s c by (simp_all add: live_def sessions_of_def)
  have old: "conn_ok ?r c = conn_ok r c" if "c < ?n" for c
    by (rule conn_ok_same) (simp_all add: l that nth_append)
  have "\<not> live r sid ?n" using relay_okD(2) [OF assms(1), of sid ?n] by blast
  with refused have new: "conn_ok ?r ?n" by (simp add: conn_ok_def Let_def l)
  have "relay_ok ?r"
    using relay_okD [OF assms(1)] old new by (intro relay_okI) (auto simp: l nth_append less_Suc_eq)
  with refused show ?thesis by simp
next
  case (opened sid cn)
  let ?n = "length (rl_conns r)"
  let ?r = "r\<lparr> rl_conns := rl_conns r @ [cn], rl_opening := Some (sid, ?n) \<rparr>"
  have l: "live ?r s c \<longleftrightarrow> live r s c \<or> (s = sid \<and> c = ?n)" "sessions_of ?r = sessions_of r" for s c
    using assms(2) by (auto simp: live_def sessions_of_def)
  have old: "conn_ok ?r c = conn_ok r c" if "c < ?n" for c
    by (rule conn_ok_same) (use that in \<open>auto simp: l nth_append\<close>)
  have new: "conn_ok ?r ?n" using opened by (simp add: conn_ok_def Let_def l)
  have "relay_ok ?r"
    using relay_okD [OF assms(1)] old new opened(3,5)
    by (intro relay_okI) (auto simp: l nth_append less_Suc_eq dest: relay_okD(2) [OF assms(1)])
  with opened show ?thesis by simp
qed

lemma relay_ok_end:
  assumes "relay_ok r" and "rl_opening r = Some (sid, c)" and "open_end sid c r = Ret r'"
  shows "relay_ok r'"
proof -
  from assms(3) obtain m where m: "rl_sessions r = Some m"
    and r': "r' = r\<lparr> rl_sessions := Some (gm_set sid c m), rl_opening := None, rl_waiters := rl_waiters r @ [(sid, c)] \<rparr>"
    by (auto simp: open_end_def split: option.splits)
  have s: "sessions_of r = m" "sessions_of r' = gm_set sid c m" using m r' by (simp_all add: sessions_of_def)
  have none: "gm_get m sid = None" using relay_okD(5) [OF assms(1,2)] s by simp
  have l: "live r' k d = live r k d" for k d
    unfolding live_def s using none assms(2) r' by auto
  have "conn_ok r' d = conn_ok r d" for d by (rule conn_ok_same) (simp_all add: l, simp_all add: r')
  then show ?thesis using relay_okD [OF assms(1)] m
    by (intro relay_okI) (auto simp: l s, auto simp: r')
qed

lemma relay_ok_remove:
  assumes "relay_ok r"
  shows "relay_ok (removeStdioSession sid r)"
proof (cases "gm_get (sessions_of r) sid")
  case None
  then have "removeStdioSession sid r = r" by (auto simp: removeStdioSession_def sessions_of_def split: option.splits)
  with assms show ?thesis by simp
next
  case (Some c)
  then obtain m where m: "rl_sessions r = Some m" "sessions_of r = m" by (auto simp: sessions_of_def split: option.splits)
  define r' where "r' = removeStdioSession sid r"
  have r': "r' = close_conn c (r\<lparr> rl_sessions := Some (gm_del sid m) \<rparr>)"
    using Some m by (simp add: r'_def removeStdioSession_def)
  have s: "sessions_of r' = gm_del sid m" by (simp add: r' close_conn_def sessions_of_def)
  have lc: "live r sid c" using Some by (simp add: live_def)
  note c = relay_okD(2,3) [OF assms lc]
  have op: "rl_opening r \<noteq> Some (sid, d)" for d using relay_okD(5) [OF assms, of sid d] Some by auto
  have l: "live r' k d \<longleftrightarrow> live r k d \<and> k \<noteq> sid" for k d
    using op unfolding live_def s by (auto simp: r' close_conn_def m(2))
  have len: "length (rl_conns r') = length (rl_conns r)" by (simp add: r' close_conn_def)
  have cn: "rl_conns r' ! d = (if d = c then conn_Close (rl_conns r ! c) else rl_conns r ! d)" if "d < length (rl_conns r)" for d
    using that by (simp add: r' close_conn_def)
  have sid: "cn_sessionID (conn_Close x) = cn_sessionID x" "cn_closed (conn_Close x)"
    "cn_c2sSubj (conn_Close x) = cn_c2sSubj x" for x by (simp_all add: conn_Close_def)
  have user: "rl_username r' = rl_username r" by (simp add: r' close_conn_def)
  have "conn_ok r' d" if d: "d < length (rl_conns r)" for d
  proof (cases "d = c")
    case True
    with relay_okD(4) [OF assms c(1)] c show ?thesis
      by (simp add: conn_ok_def Let_def cn l user sid) (auto simp: conn_Close_def)
  next
    case False
    have "cn_sessionID (rl_conns r ! d) \<noteq> sid \<or> \<not> live r sid d" using False Some op by (auto simp: live_def)
    with relay_okD(4) [OF assms d] False d show ?thesis
      by (auto simp: conn_ok_def Let_def cn l user)
  qed
  then have ok: "conn_ok r' d" if "d < length (rl_conns r')" for d using that len by simp
  have "relay_ok r'"
  proof (rule relay_okI)
    show "gm_ok (sessions_of r')" using relay_okD(1) [OF assms] gm_ok_del [of m sid] m(2) by (simp add: s)
    show "d < length (rl_conns r')" if "live r' k d" for k d
      using that relay_okD(2) [OF assms, of k d] by (simp add: l len)
    show "cn_sessionID (rl_conns r' ! d) = k" if "live r' k d" for k d
      using that relay_okD(2,3) [OF assms, of k d] by (auto simp: l cn sid)
    show "gm_get (sessions_of r') k = None" if "rl_opening r' = Some (k, d)" for k d
      using that relay_okD(5) [OF assms, of k d] op m(2) by (simp add: s r' close_conn_def)
    show "rl_sessions r' = None \<Longrightarrow> \<not> rl_openSub r' \<and> \<not> rl_closeSub r'" by (simp add: r' close_conn_def)
  qed (rule ok)
  then show ?thesis by (simp add: r'_def)
qed

lemma fold_close_conns:
  "\<exists>cs. fold (\<lambda>(sid, c). close_conn c) m r = r\<lparr> rl_conns := cs \<rparr> \<and> length cs = length (rl_conns r)
     \<and> (\<forall>d < length cs. cs ! d = (if d \<in> snd ` set m then conn_Close (rl_conns r ! d) else rl_conns r ! d))"
proof (induction m arbitrary: r)
  case Nil
  show ?case by (intro exI [of _ "rl_conns r"]) simp
next
  case (Cons x m)
  obtain sid c where x: "x = (sid, c)" by force
  from Cons.IH [of "close_conn c r"] obtain cs where cs:
    "fold (\<lambda>(sid, c). close_conn c) m (close_conn c r) = (close_conn c r)\<lparr> rl_conns := cs \<rparr>"
    "length cs = length (rl_conns (close_conn c r))"
    "\<forall>d < length cs. cs ! d = (if d \<in> snd ` set m then conn_Close (rl_conns (close_conn c r) ! d)
       else rl_conns (close_conn c r) ! d)" by blast
  have eq: "(close_conn c r)\<lparr> rl_conns := cs \<rparr> = r\<lparr> rl_conns := cs \<rparr>" "length cs = length (rl_conns r)"
    using cs(2) by (simp_all add: close_conn_def)
  have twice: "conn_Close (conn_Close y) = conn_Close y" for y by (simp add: conn_Close_def)
  have "cs ! d = (if d \<in> snd ` set (x # m) then conn_Close (rl_conns r ! d) else rl_conns r ! d)" if "d < length cs" for d
    using cs(3) that eq(2) by (cases "d = c") (auto simp: x close_conn_def twice)
  with cs(1) eq show ?case by (intro exI [of _ cs]) (simp add: x)
qed

lemma relay_ok_stop:
  assumes "relay_ok r"
  shows "relay_ok (stopStdioRelay r)"
proof -
  define r' where "r' = stopStdioRelay r"
  obtain cs where cs: "r' = (r\<lparr> rl_openSub := False, rl_closeSub := False, rl_sessions := None \<rparr>)\<lparr> rl_conns := cs \<rparr>"
    "length cs = length (rl_conns r)"
    "\<forall>d < length cs. cs ! d = (if d \<in> snd ` set (sessions_of r) then conn_Close (rl_conns r ! d) else rl_conns r ! d)"
    using fold_close_conns [of "sessions_of r" "r\<lparr> rl_openSub := False, rl_closeSub := False, rl_sessions := None \<rparr>"]
    unfolding r'_def stopStdioRelay_def by auto
  have s: "sessions_of r' = []" by (simp add: cs(1) sessions_of_def)
  have l: "live r' k d \<longleftrightarrow> rl_opening r = Some (k, d)" for k d by (simp add: live_def s) (simp add: cs(1))
  have in_m: "d \<in> snd ` set (sessions_of r) \<longleftrightarrow> gm_get (sessions_of r) (cn_sessionID (rl_conns r ! d)) = Some d" for d
  proof
    assume "d \<in> snd ` set (sessions_of r)"
    then obtain k where "(k, d) \<in> set (sessions_of r)" by auto
    then have "gm_get (sessions_of r) k = Some d" using relay_okD(1) [OF assms] by (simp add: gm_ok_def)
    moreover from this have "cn_sessionID (rl_conns r ! d) = k" using relay_okD(3) [OF assms] by (simp add: live_def)
    ultimately show "gm_get (sessions_of r) (cn_sessionID (rl_conns r ! d)) = Some d" by simp
  qed (force dest: map_of_SomeD)
  have sid: "cn_sessionID (rl_conns r' ! d) = cn_sessionID (rl_conns r ! d)" if "d < length (rl_conns r)" for d
    using that cs(2,3) by (simp add: cs(1) conn_Close_def)
  have "conn_ok r' d" if d: "d < length (rl_conns r)" for d
  proof (cases "d \<in> snd ` set (sessions_of r)")
    case True
    then have "rl_opening r \<noteq> Some (cn_sessionID (rl_conns r ! d), d)"
      using in_m relay_okD(5) [OF assms, of "cn_sessionID (rl_conns r ! d)" d] by auto
    with True d relay_okD(4) [OF assms d] cs(2,3) show ?thesis
      by (simp add: conn_ok_def Let_def l sid) (auto simp: cs(1) conn_Close_def)
  next
    case False
    with d relay_okD(4) [OF assms d] cs(2,3) in_m [of d] show ?thesis
      by (simp add: conn_ok_def Let_def l) (simp add: cs(1) live_def)
  qed
  then have ok: "conn_ok r' d" if "d < length (rl_conns r')" for d using that cs(2) by (simp add: cs(1))
  have "relay_ok r'"
  proof (rule relay_okI)
    show "d < length (rl_conns r')" if "live r' k d" for k d
      using that relay_okD(2) [OF assms, of k d] cs(2) by (simp add: l) (simp add: cs(1) live_def)
    show "cn_sessionID (rl_conns r' ! d) = k" if "live r' k d" for k d
      using that relay_okD(2,3) [OF assms, of k d] sid [of d] unfolding l by (auto simp: live_def)
    show "rl_sessions r' = None \<Longrightarrow> \<not> rl_openSub r' \<and> \<not> rl_closeSub r'" by (simp add: cs(1))
  qed (simp_all add: s ok gm_ok_def)
  then show ?thesis by (simp add: r'_def)
qed

lemma relay_ok_step:
  assumes "relay_ok r" and "relay_step r (Ret r')"
  shows "relay_ok r'"
  using assms(2)
proof (cases rule: relay_step.cases)
  case (open_message sub_ok accept_ok data)
  with relay_ok_begin [OF assms(1)] show ?thesis by simp
next
  case (open_insert sid c)
  with relay_ok_end [OF assms(1)] show ?thesis by simp
next
  case (close_message data)
  with relay_ok_remove [OF assms(1)] assms(1) show ?thesis by (auto simp: handleStdioClose_def split: option.split)
next
  case (ended sid c)
  with relay_ok_remove [OF relay_ok_waiters [OF assms(1)]] show ?thesis by (simp add: session_ended_def)
next
  case (deliver c data)
  with relay_ok_incoming [OF assms(1)] show ?thesis by (simp add: conn_deliver_def)
next
  case (take_message c cancelled choice)
  with relay_ok_incoming [OF assms(1)] show ?thesis by (simp add: conn_Read_def split: list.split)
next
  case stop
  with relay_ok_stop [OF assms(1)] show ?thesis by simp
qed

lemma relay_ok_run: "relay_run r0 r \<Longrightarrow> relay_ok r"
proof (induction rule: relay_run.induct)
  case (started username r)
  then have "r = (idle_relay username)\<lparr> rl_sessions := Some [], rl_openSub := True, rl_closeSub := True \<rparr>"
    by (simp add: startStdioRelay_def)
  then show ?case by (simp add: relay_ok_def live_def sessions_of_def idle_relay_def gm_ok_def)
qed (rule relay_ok_step)


definition an_open :: wire where
  "an_open = Some (JObj [(''session_id'', JStr ''ms_1'')])"


section \<open>command/mcp.go\<close>

definition generateSessionID :: "byte list \<Rightarrow> string" where
  "generateSessionID uuid = ''ms_'' @ enc_or_empty uuid 128"

text \<open>
  \<^verbatim>\<open>bufio.ScanLines\<close> with a buffer of \<open>lim\<close> bytes: a line that does not fit with its newline ends
  the scan, and what remains is lost.
\<close>

definition drop_cr :: "string \<Rightarrow> string" where
  "drop_cr l = (if l \<noteq> [] \<and> last l = CHR 0x0D then butlast l else l)"

function scan_lines :: "nat \<Rightarrow> string \<Rightarrow> string list" where
  "scan_lines lim s =
     (if s = [] then []
      else case index_byte (CHR 0x0A) s of
        None \<Rightarrow> if lim \<le> length s then [] else [drop_cr s]
      | Some i \<Rightarrow> if lim \<le> i then [] else drop_cr (take i s) # scan_lines lim (drop (Suc i) s))"
  by pat_completeness auto
termination by (relation "measure (\<lambda>(lim, s). length s)") auto

declare scan_lines.simps [simp del]

definition scan_buffer :: nat where "scan_buffer = 1024 * 1024"

text \<open>Publish each line that is not empty; \<open>ok k\<close> is the answer for the \<open>k\<close>-th, a failure ends the relay.\<close>

fun relay_stdin :: "(nat \<Rightarrow> bool) \<Rightarrow> nat \<Rightarrow> string \<Rightarrow> string list \<Rightarrow> (string \<times> string) list" where
  "relay_stdin ok k subj [] = []"
| "relay_stdin ok k subj (l # ls) =
     (if l = [] then relay_stdin ok k subj ls
      else if ok k then (subj, l) # relay_stdin ok (Suc k) subj ls else [])"

text \<open>What ends the command: the end of its input, a signal, or the loss of the connection; in the last
  two cases it has taken \<open>n\<close> lines.\<close>

datatype relay_end = Stdin_closed | Interrupted nat | Disconnected nat

datatype mcp_cmd_error = Mcp_connect conn_error | Mcp_subscribe | Mcp_open | Mcp_lost

record mcp_env =
  mv_net :: net
  mv_io :: io
  mv_xdg :: xdg_env
  mv_uuid :: "byte list"
  mv_subscribe :: bool
  mv_open :: bool
  mv_close :: bool
  mv_publish :: "nat \<Rightarrow> bool"

datatype published = Text_message string | Json_message json

definition session_message :: "string \<Rightarrow> published" where
  "session_message sid = Json_message (JObj [(''session_id'', JStr sid)])"

definition runMCP :: "mcp_env \<Rightarrow> Config \<Rightarrow> fs \<Rightarrow> string \<Rightarrow> relay_end \<Rightarrow> mcp_cmd_error option \<times> (string \<times> published) list" where
  "runMCP e cfg fs stdin ending =
     (case ConnectCLI (mv_net e) (mv_io e) fs (InternalTokenPath (mv_xdg e)) cfg of
        Inl err \<Rightarrow> (Some (Mcp_connect err), [])
      | Inr _ \<Rightarrow>
          let sid = generateSessionID (mv_uuid e); user = cf_Username cfg;
              lines = scan_lines scan_buffer stdin;
              taken = (case ending of Stdin_closed \<Rightarrow> lines | Interrupted n \<Rightarrow> take n lines | Disconnected n \<Rightarrow> take n lines);
              sent = map (\<lambda>(s, l). (s, Text_message l))
                       (relay_stdin (mv_publish e) 0 (MCPClientToServerSubject user sid) taken);
              closing = (if mv_close e then [(MCPSessionCloseSubject user, session_message sid)] else [])
          in if \<not> mv_subscribe e then (Some Mcp_subscribe, [])
             else if \<not> mv_open e then (Some Mcp_open, [])
             else ((case ending of Disconnected _ \<Rightarrow> Some Mcp_lost | _ \<Rightarrow> None),
                   [(MCPSessionOpenSubject user, session_message sid)] @ sent @ closing))"

lemma scan_line:
  assumes "CHR 0x0A \<notin> set l" and "length l < lim"
  shows "scan_lines lim (l @ CHR 0x0A # s) = drop_cr l # scan_lines lim s"
proof -
  have "index_byte (CHR 0x0A) (l @ CHR 0x0A # s) = Some (length l)"
    using assms(1) by (simp add: index_byte_append)
  with assms show ?thesis by (subst scan_lines.simps) simp
qed

text \<open>Messages one per line, none empty and each fitting the buffer, are all relayed, in order.\<close>

lemma relay_all:
  assumes "\<forall>l \<in> set ls. l \<noteq> [] \<and> CHR 0x0A \<notin> set l \<and> last l \<noteq> CHR 0x0D \<and> length l < lim" and "\<And>k. ok k"
  shows "relay_stdin ok k subj (scan_lines lim (concat (map (\<lambda>l. l @ [CHR 0x0A]) ls))) = map (\<lambda>l. (subj, l)) ls"
  using assms(1)
proof (induction ls arbitrary: k)
  case Nil
  show ?case by (subst scan_lines.simps) simp
next
  case (Cons l ls)
  then have "scan_lines lim (concat (map (\<lambda>l. l @ [CHR 0x0A]) (l # ls)))
      = drop_cr l # scan_lines lim (concat (map (\<lambda>l. l @ [CHR 0x0A]) ls))"
    using scan_line [of l lim] by simp
  with Cons assms(2) show ?case by (simp add: drop_cr_def)
qed

text \<open>A line too long for the buffer ends the relay silently, as the end of the input would.\<close>

lemma long_line_drops_rest: "CHR 0x0A \<notin> set l \<Longrightarrow> lim \<le> length l \<Longrightarrow> scan_lines lim (l @ CHR 0x0A # s) = []"
  by (subst scan_lines.simps) (simp add: index_byte_append)

end
