(* ===== verification/Queries.thy ===== *)
theory Queries
  imports Daemon Dispatch
begin

text \<open>
  The commands that show the state of the daemon (cli/internal/command: flows.go, flowdetail.go,
  history.go, devices.go): the query each sends, the reading of the reply, and what is printed.
  What the daemon answers is an argument. Times are instants; the offset a message wrote one
  with is not kept. Reading a duration in hours or minutes goes through a float, which is exact
  enough for durations below 1000 hours.
\<close>

section \<open>Requests\<close>

datatype reply = No_answer | Request_failed | Answer wire

record query_env =
  qe_net :: net
  qe_io :: io
  qe_xdg :: xdg_env
  qe_now :: time
  qe_request :: "nat \<Rightarrow> string \<Rightarrow> wire option \<Rightarrow> reply"

datatype query_error =
    Query_connect conn_error | Invalid_since | Invalid_until | Not_responding
  | Query_failed string | Parse_response string | No_flows string

type_synonym query_result = "query_error go_error option"

text \<open>
  The \<open>k\<close>-th request of a command, with its decoder; \<open>what\<close> is what the error messages call it.
\<close>

definition ask_daemon ::
    "query_env \<Rightarrow> nat \<Rightarrow> string \<Rightarrow> json \<Rightarrow> (json \<Rightarrow> 'a option) \<Rightarrow> string \<Rightarrow> query_error go_error + 'a" where
  "ask_daemon e k subject q dec what =
     (case qe_request e k subject (Some (Some q)) of
        No_answer \<Rightarrow> Inl (CodedError Error Not_responding)
      | Request_failed \<Rightarrow> Inl (CodedError Error (Query_failed what))
      | Answer w \<Rightarrow> (case unmarshal dec w of
          None \<Rightarrow> Inl (CodedError Error (Parse_response what)) | Some a \<Rightarrow> Inr a))"

definition connect_cli :: "query_env \<Rightarrow> Config \<Rightarrow> host \<Rightarrow> conn_error + dial" where
  "connect_cli e cfg h = ConnectCLI (qe_net e) (qe_io e) (ho_fs h) (InternalTokenPath (qe_xdg e)) cfg"

definition emit :: "item list \<Rightarrow> host \<Rightarrow> host" where
  "emit xs h = h\<lparr> ho_stdout := ho_stdout h @ xs \<rparr>"

section \<open>flows.go\<close>

definition whole_minutes :: "duration \<Rightarrow> int" where
  "whole_minutes d = go_div d minute"

definition whole_hours :: "duration \<Rightarrow> int" where
  "whole_hours d = go_div d hour"

definition formatTTL :: "duration \<Rightarrow> string" where
  "formatTTL d =
     (if d \<le> 0 then ''expired''
      else if d \<ge> hour then itoa (whole_hours d) @ ''h'' @ itoa (go_mod (whole_minutes d) 60) @ ''m''
      else if d \<ge> minute then itoa (whole_minutes d) @ ''m'' @ itoa (go_mod (whole_seconds d) 60) @ ''s''
      else itoa (whole_seconds d) @ ''s'')"

definition flow_ttl :: "Config \<Rightarrow> time \<Rightarrow> FlowEntry \<Rightarrow> duration" where
  "flow_ttl cfg now f = time_sub (fe_LastActivity f + rp_GracePeriod (cf_Reaping cfg)) now"

definition or_dash :: "string \<Rightarrow> string" where
  "or_dash s = (if s = '''' then ''-'' else s)"

definition flow_row_text :: "Config \<Rightarrow> time \<Rightarrow> FlowEntry \<Rightarrow> item" where
  "flow_row_text cfg now f =
     Row [fe_FlowID f, if fe_DisplayName f = '''' then fe_WorkspaceID f else fe_DisplayName f,
          or_dash (fe_Label f), rfc3339 (fe_RegisteredAt f), formatTTL (flow_ttl cfg now f)]"

definition flows_cmd :: "query_env \<Rightarrow> Config \<Rightarrow> string \<Rightarrow> string \<Rightarrow> host \<Rightarrow> query_result \<times> host" where
  "flows_cmd e cfg format workspace h =
     (case connect_cli e cfg h of
        Inl er \<Rightarrow> (Some (CodedError Error (Query_connect er)), h)
      | Inr _ \<Rightarrow>
          (case ask_daemon e 0 (ServiceFlowsSubject (cf_Username cfg)) (enc_fq (zero_fq\<lparr> fq_WorkspaceID := workspace \<rparr>))
                  dec_fr ''flows'' of
             Inl er \<Rightarrow> (Some er, h)
           | Inr r \<Rightarrow>
               if format = ''json'' then (None, emit [Json (enc_fr r)] h)
               else if fr_Flows r = [] then (None, emit [Line ''No active flows.''] h)
               else (None, emit (Row [''FLOW ID'', ''WORKSPACE'', ''LABEL'', ''REGISTERED'', ''TTL'']
                      # map (flow_row_text cfg (qe_now e)) (fr_Flows r)) h)))"

section \<open>flowdetail.go\<close>

definition strict_id :: "string \<Rightarrow> bool" where
  "strict_id arg \<longleftrightarrow> prefix ''fl_'' arg \<or> prefix ''ws_'' arg"

definition flow_query_of :: "string \<Rightarrow> FlowsQuery" where
  "flow_query_of i =
     (if prefix ''fl_'' i then zero_fq\<lparr> fq_FlowID := i \<rparr>
      else if prefix ''ws_'' i then zero_fq\<lparr> fq_WorkspaceID := i \<rparr> else zero_fq)"

text \<open>One strict query per identifier, the answers appended; \<open>k\<close> counts the requests.\<close>

fun hydrate :: "query_env \<Rightarrow> string \<Rightarrow> nat \<Rightarrow> string list \<Rightarrow> query_error go_error + FlowEntry list" where
  "hydrate e subj k [] = Inr []"
| "hydrate e subj k (i # is) =
     (case ask_daemon e k subj (enc_fq (flow_query_of i)) dec_fr i of
        Inl er \<Rightarrow> Inl er
      | Inr r \<Rightarrow> (case hydrate e subj (Suc k) is of Inl er \<Rightarrow> Inl er | Inr fs \<Rightarrow> Inr (fr_Flows r @ fs)))"

definition find_flows :: "query_env \<Rightarrow> Config \<Rightarrow> string \<Rightarrow> query_error go_error + FlowEntry list" where
  "find_flows e cfg arg =
     (let none = CodedError NotFound (No_flows arg) in
      case (if strict_id arg then Inr [arg]
            else map_sum id sfr_FlowIDs
              (ask_daemon e 0 (ServiceSearchFlowsSubject (cf_Username cfg)) (enc_sfq \<lparr> sfq_Workspace = arg \<rparr>)
                 dec_sfr ''search'')) of
        Inl er \<Rightarrow> Inl er
      | Inr [] \<Rightarrow> Inl none
      | Inr (i # is) \<Rightarrow>
          (case hydrate e (ServiceFlowsSubject (cf_Username cfg)) (if strict_id arg then 0 else 1) (i # is) of
             Inl er \<Rightarrow> Inl er
           | Inr [] \<Rightarrow> Inl none
           | Inr fs \<Rightarrow> Inr fs))"

definition flow_detail :: "Config \<Rightarrow> time \<Rightarrow> FlowEntry \<Rightarrow> item list" where
  "flow_detail cfg now f =
     [Row [''Flow ID:'', fe_FlowID f], Row [''Daemon ID:'', fe_DaemonID f], Row [''Workspace ID:'', fe_WorkspaceID f],
      Row [''Workspace:'', or_dash (fe_DisplayName f)]]
     @ (if fe_AbsPath f = '''' then [] else [Row [''Path:'', fe_AbsPath f]])
     @ [Row [''Label:'', or_dash (fe_Label f)], Row [''Registered:'', rfc3339 (fe_RegisteredAt f)],
        Row [''Last Activity:'', rfc3339 (fe_LastActivity f)], Row [''TTL:'', formatTTL (flow_ttl cfg now f)]]
     @ (case fe_Metadata f of None \<Rightarrow> [] | Some [] \<Rightarrow> []
        | Some m \<Rightarrow> [Line '''', Line ''Metadata:''] @ map (\<lambda>(k, v). Row [''  '' @ k @ '':'', v]) (sort_key fst m))"

fun with_rules :: "item list list \<Rightarrow> item list" where
  "with_rules [] = []"
| "with_rules [x] = x"
| "with_rules (x # xs) = x @ [Line ''---''] @ with_rules xs"

definition flow_cmd :: "query_env \<Rightarrow> Config \<Rightarrow> string \<Rightarrow> string \<Rightarrow> host \<Rightarrow> query_result \<times> host" where
  "flow_cmd e cfg format arg h =
     (case connect_cli e cfg h of
        Inl er \<Rightarrow> (Some (CodedError Error (Query_connect er)), h)
      | Inr _ \<Rightarrow>
          (case find_flows e cfg arg of
             Inl er \<Rightarrow> (Some er, h)
           | Inr fs \<Rightarrow>
               if format = ''json''
               then (None, emit [Json (case fs of [f] \<Rightarrow> enc_fe f | _ \<Rightarrow> JArr (map enc_fe fs))] h)
               else (None, emit (with_rules (map (flow_detail cfg (qe_now e)) fs)) h)))"

section \<open>history.go\<close>

record historyFlags =
  hf_workspaceID :: string
  hf_flowID :: string
  hf_since :: string
  hf_until :: string
  hf_limit :: int
  hf_offset :: int
  hf_format :: string
  hf_showLifecycle :: bool

definition history_bound :: "string \<Rightarrow> time option option" where
  "history_bound s = (if s = '''' then Some None else map_option Some (parse_rfc3339 s))"

definition history_query :: "historyFlags \<Rightarrow> query_error go_error + HistoryQuery" where
  "history_query fl =
     (case history_bound (hf_since fl) of
        None \<Rightarrow> Inl (CodedError Usage Invalid_since)
      | Some since \<Rightarrow>
          (case history_bound (hf_until fl) of
             None \<Rightarrow> Inl (CodedError Usage Invalid_until)
           | Some until \<Rightarrow> Inr \<lparr> hq_WorkspaceID = hf_workspaceID fl, hq_FlowID = hf_flowID fl, hq_Since = since,
               hq_Until = until, hq_Limit = hf_limit fl, hq_Offset = hf_offset fl \<rparr>))"

text \<open>The layout \<^verbatim>\<open>2006-01-02 15:04:05\<close>.\<close>

definition date_time :: "time \<Rightarrow> string" where
  "date_time t = map (\<lambda>c. if c = CHR ''T'' then CHR '' '' else c) (stamp (t div second))"

definition formatResponse :: "NotificationResponse option \<Rightarrow> string" where
  "formatResponse p =
     (case p of
        None \<Rightarrow> ''-''
      | Some r \<Rightarrow>
          (case resp_Accepted r of
             Some b \<Rightarrow> if b then ''accepted'' else ''denied''
           | None \<Rightarrow>
               if resp_Action r \<noteq> '''' then resp_Action r
               else if resp_Text r \<noteq> '''' then truncate_text (resp_Text r) 30
               else ''-''))"

definition history_row :: "HistoryRecord \<Rightarrow> item list" where
  "history_row rec =
     (if hr_Type rec = ''lifecycle'' then
        (case hr_Lifecycle rec of
           None \<Rightarrow> []
         | Some lc \<Rightarrow> [Row [ev_Status lc, date_time (ev_Timestamp lc), ev_FlowID lc,
             truncate_text (if ev_Label lc = '''' then ev_FlowID lc else ev_Label lc) 40, ''-'']])
      else
        (case hr_Request rec of
           None \<Rightarrow> []
         | Some r \<Rightarrow> [Row [nr_Priority r, date_time (nr_Timestamp r), nr_ID r, truncate_text (nr_Title r) 40,
             formatResponse (hr_Response rec)]]))"

definition formatHistoryText :: "HistoryQueryResult \<Rightarrow> bool \<Rightarrow> item list" where
  "formatHistoryText r showLifecycle =
     (let display = filter (\<lambda>rec. \<not> (hr_Type rec = ''lifecycle'' \<and> \<not> showLifecycle)) (hqr_Records r) in
      if display = [] then [Line ''No history records.'']
      else [Line (''Showing '' @ itoa (int (length display)) @ '' of '' @ itoa (hqr_Total r) @ '' records''
              @ (if showLifecycle then '''' else '' (use --show-lifecycle to include lifecycle events)'')),
            Line '''', Row [''TYPE'', ''TIMESTAMP'', ''ID'', ''TITLE'', ''RESPONSE'']]
           @ concat (map history_row display))"

definition history_cmd :: "query_env \<Rightarrow> Config \<Rightarrow> historyFlags \<Rightarrow> host \<Rightarrow> query_result \<times> host" where
  "history_cmd e cfg fl h =
     (case connect_cli e cfg h of
        Inl er \<Rightarrow> (Some (CodedError Error (Query_connect er)), h)
      | Inr _ \<Rightarrow>
          (case history_query fl of
             Inl er \<Rightarrow> (Some er, h)
           | Inr q \<Rightarrow>
               (case ask_daemon e 0 (ServiceHistorySubject (cf_Username cfg)) (enc_hq q) dec_hqr ''history'' of
                  Inl er \<Rightarrow> (Some er, h)
                | Inr r \<Rightarrow> (None, emit (if hf_format fl = ''json'' then [Json (enc_hqr r)]
                     else formatHistoryText r (hf_showLifecycle fl)) h))))"

section \<open>devices.go\<close>

definition zero_ds :: DeviceStatus where
  "zero_ds = \<lparr> ds_Username = '''', ds_DeviceID = '''', ds_PairedAt = zero_time, ds_Online = False, ds_LastSeen = None \<rparr>"

definition dec_ds :: "json \<Rightarrow> DeviceStatus option" where
  "dec_ds = dec_struct
     [(''username'', d_str ds_Username_update), (''device_id'', d_str ds_DeviceID_update),
      (''paired_at'', d_time ds_PairedAt_update), (''online'', d_bool ds_Online_update),
      (''last_seen'', d_timep ds_LastSeen_update)] zero_ds"

definition dec_dpr :: "json \<Rightarrow> DeviceStatus list option" where
  "dec_dpr = dec_struct [(''devices'', d_list dec_ds (\<lambda>f. f))] []"

definition device_row :: "DeviceStatus \<Rightarrow> item" where
  "device_row d = Row [ds_Username d, ds_DeviceID d, if ds_Online d then ''online'' else ''offline'',
     (case ds_LastSeen d of None \<Rightarrow> ''-'' | Some t \<Rightarrow> rfc3339 t), rfc3339 (ds_PairedAt d)]"

text \<open>The request has no data; a timeout is one error among others here.\<close>

definition runDevices :: "query_env \<Rightarrow> Config \<Rightarrow> string \<Rightarrow> host \<Rightarrow> query_result \<times> host" where
  "runDevices e cfg format h =
     (case connect_cli e cfg h of
        Inl er \<Rightarrow> (Some (CodedError Error (Query_connect er)), h)
      | Inr _ \<Rightarrow>
          (case qe_request e 0 (ServiceDevicePresenceSubject (cf_Username cfg)) None of
             Answer w \<Rightarrow>
               (case unmarshal dec_dpr w of
                  None \<Rightarrow> (Some (CodedError Error (Parse_response ''devices'')), h)
                | Some ds \<Rightarrow>
                    if format = ''json'' then (None, emit [Json (enc_dpr ds)] h)
                    else if ds = [] then (None, host_err ''No paired devices.'' h)
                    else (None, emit (Row [''USERNAME'', ''DEVICE ID'', ''STATUS'', ''LAST SEEN'', ''PAIRED AT'']
                           # map device_row ds) h))
           | _ \<Rightarrow> (Some (CodedError Error (Query_failed ''devices'')), h)))"

end
