(* ===== verification/Endpoints.thy ===== *)
theory Endpoints
  imports Registry
begin

text \<open>
  The request-reply endpoints of the registry (endpoint.go, write_endpoint.go and
  presence_endpoint.go of cli/internal/registry): which handler each subscription of
  \<^verbatim>\<open>Service.Start\<close> installs on which subject, and what a request on a subject does to the service.
\<close>

section \<open>Subscriptions\<close>

text \<open>
  What the handlers meet: the environment of the ledger calls, the three sorts of the history query,
  the texts of decoding errors and the clock of the presence query.
\<close>

record endpoint_env =
  ee_env :: env
  ee_sort_requests :: "(request_row \<times> response_row option) sorter"
  ee_sort_events :: "event_row sorter"
  ee_sort_records :: "HistoryRecord sorter"
  ee_decode_error :: "wire \<Rightarrow> string"
  ee_now :: time

type_synonym handler = "endpoint_env \<Rightarrow> body \<Rightarrow> Service \<Rightarrow> wire \<times> Service"

type_synonym subscription = "string \<times> handler"

definition subscribeFlowsEndpoint :: "string \<Rightarrow> subscription" where
  "subscribeFlowsEndpoint u = (ServiceFlowsSubject u, \<lambda>e data s. (handleFlowsQuery (ee_env e) data s, s))"

definition subscribeSearchFlowsEndpoint :: "string \<Rightarrow> subscription" where
  "subscribeSearchFlowsEndpoint u =
     (ServiceSearchFlowsSubject u, \<lambda>e data s. (handleSearchFlowsQuery (ee_env e) data s, s))"

definition subscribeHistoryEndpoint :: "string \<Rightarrow> subscription" where
  "subscribeHistoryEndpoint u = (ServiceHistorySubject u, \<lambda>e data s.
     (handleHistoryQuery (ee_sort_requests e) (ee_sort_events e) (ee_sort_records e) (ee_env e) data s, s))"

text \<open>The write handlers hand the data to the decoder as they are; no data are not JSON.\<close>

definition bytes_of :: "body \<Rightarrow> wire" where
  "bytes_of data = (case data of None \<Rightarrow> None | Some w \<Rightarrow> w)"

definition subscribeInsertRequestEndpoint :: "string \<Rightarrow> subscription" where
  "subscribeInsertRequestEndpoint u = (ServiceInsertRequestSubject u, \<lambda>e data.
     handleInsertRequest (ee_decode_error e) (ee_env e) (bytes_of data))"

definition subscribeInsertResponseEndpoint :: "string \<Rightarrow> subscription" where
  "subscribeInsertResponseEndpoint u = (ServiceInsertResponseSubject u, \<lambda>e data.
     handleInsertResponse (ee_decode_error e) (ee_env e) (bytes_of data))"

definition subscribeInsertInterjectionEndpoint :: "string \<Rightarrow> subscription" where
  "subscribeInsertInterjectionEndpoint u = (ServiceInsertInterjectionSubject u, \<lambda>e data.
     handleInsertInterjection (ee_decode_error e) (ee_env e) (bytes_of data))"

definition subscribeUpdateActivityEndpoint :: "string \<Rightarrow> subscription" where
  "subscribeUpdateActivityEndpoint u = (ServiceUpdateActivitySubject u, \<lambda>e data.
     handleUpdateActivity (ee_decode_error e) (ee_env e) (bytes_of data))"

definition subscribeDevicePresenceEndpoint :: "string \<Rightarrow> subscription" where
  "subscribeDevicePresenceEndpoint u =
     (ServiceDevicePresenceSubject u, \<lambda>e data s. (handleDevicePresence (ee_now e) s, s))"

definition endpoints :: "string \<Rightarrow> subscription list" where
  "endpoints u =
     [subscribeFlowsEndpoint u, subscribeSearchFlowsEndpoint u, subscribeHistoryEndpoint u,
      subscribeInsertRequestEndpoint u, subscribeInsertResponseEndpoint u,
      subscribeInsertInterjectionEndpoint u, subscribeUpdateActivityEndpoint u,
      subscribeDevicePresenceEndpoint u]"

section \<open>Requests\<close>

text \<open>
  A request on a subject: the handler of the subscription there runs and its reply comes back;
  without a subscription there is none.
\<close>

definition nats_request :: "endpoint_env \<Rightarrow> string \<Rightarrow> body \<Rightarrow> Service \<Rightarrow> wire option \<times> Service" where
  "nats_request e subject data s =
     (if subject \<notin> set (rs_subs s) then (None, s)
      else case map_of (endpoints (rs_username s)) subject of
        None \<Rightarrow> (None, s)
      | Some h \<Rightarrow> (case h e data s of (w, s') \<Rightarrow> (Some w, s')))"

lemmas subscriptions = endpoints_def subscribeFlowsEndpoint_def subscribeSearchFlowsEndpoint_def subscribeHistoryEndpoint_def
  subscribeInsertRequestEndpoint_def subscribeInsertResponseEndpoint_def subscribeInsertInterjectionEndpoint_def
  subscribeUpdateActivityEndpoint_def subscribeDevicePresenceEndpoint_def

lemma endpoints_subjects: "map fst (endpoints u) = endpoint_subjects u"
  by (simp add: subscriptions endpoint_subjects_def)

text \<open>No two endpoints share a subject.\<close>

lemmas service_subjects = ServiceFlowsSubject_def ServiceSearchFlowsSubject_def ServiceHistorySubject_def
  ServiceInsertRequestSubject_def ServiceInsertResponseSubject_def ServiceInsertInterjectionSubject_def
  ServiceUpdateActivitySubject_def ServiceDevicePresenceSubject_def

lemma endpoint_subjects_distinct: "distinct (endpoint_subjects u)"
  by (simp add: endpoint_subjects_def service_subjects)

text \<open>A running registry has all its subscriptions.\<close>

definition serving :: "Service \<Rightarrow> bool" where
  "serving s \<longleftrightarrow> set (endpoint_subjects (rs_username s)) \<subseteq> set (rs_subs s)"

lemma request_handled:
  assumes "serving s" and "sub \<in> set (endpoints (rs_username s))"
  shows "nats_request e (fst sub) data s = map_prod Some id (snd sub e data s)"
proof -
  have "distinct (map fst (endpoints (rs_username s)))"
    unfolding endpoints_subjects by (rule endpoint_subjects_distinct)
  with assms(2) have "map_of (endpoints (rs_username s)) (fst sub) = Some (snd sub)" by simp
  moreover have "fst sub \<in> set (endpoint_subjects (rs_username s))"
    unfolding endpoints_subjects [symmetric] using assms(2) by simp
  ultimately show ?thesis using assms(1) by (auto simp: nats_request_def serving_def map_prod_def split: prod.split)
qed

lemma requests_handled:
  assumes "serving s"
  shows "nats_request e (ServiceFlowsSubject (rs_username s)) data s = (Some (handleFlowsQuery (ee_env e) data s), s)"
    and "nats_request e (ServiceSearchFlowsSubject (rs_username s)) data s = (Some (handleSearchFlowsQuery (ee_env e) data s), s)"
    and "nats_request e (ServiceHistorySubject (rs_username s)) data s
      = (Some (handleHistoryQuery (ee_sort_requests e) (ee_sort_events e) (ee_sort_records e) (ee_env e) data s), s)"
    and "nats_request e (ServiceInsertRequestSubject (rs_username s)) data s
      = map_prod Some id (handleInsertRequest (ee_decode_error e) (ee_env e) (bytes_of data) s)"
    and "nats_request e (ServiceInsertResponseSubject (rs_username s)) data s
      = map_prod Some id (handleInsertResponse (ee_decode_error e) (ee_env e) (bytes_of data) s)"
    and "nats_request e (ServiceInsertInterjectionSubject (rs_username s)) data s
      = map_prod Some id (handleInsertInterjection (ee_decode_error e) (ee_env e) (bytes_of data) s)"
    and "nats_request e (ServiceUpdateActivitySubject (rs_username s)) data s
      = map_prod Some id (handleUpdateActivity (ee_decode_error e) (ee_env e) (bytes_of data) s)"
    and "nats_request e (ServiceDevicePresenceSubject (rs_username s)) data s = (Some (handleDevicePresence (ee_now e) s), s)"
proof -
  have sub: "sub \<in> set (endpoints (rs_username s)) \<Longrightarrow>
      nats_request e (fst sub) data s = map_prod Some id (snd sub e data s)" for sub
    by (rule request_handled [OF assms])
  note all = sub [of "endpoints (rs_username s) ! i" for i]
  show "nats_request e (ServiceFlowsSubject (rs_username s)) data s = (Some (handleFlowsQuery (ee_env e) data s), s)"
    "nats_request e (ServiceSearchFlowsSubject (rs_username s)) data s = (Some (handleSearchFlowsQuery (ee_env e) data s), s)"
    "nats_request e (ServiceHistorySubject (rs_username s)) data s
      = (Some (handleHistoryQuery (ee_sort_requests e) (ee_sort_events e) (ee_sort_records e) (ee_env e) data s), s)"
    using all [of 0] all [of 1] all [of 2] by (simp_all add: subscriptions)
  show "nats_request e (ServiceInsertRequestSubject (rs_username s)) data s
      = map_prod Some id (handleInsertRequest (ee_decode_error e) (ee_env e) (bytes_of data) s)"
    "nats_request e (ServiceInsertResponseSubject (rs_username s)) data s
      = map_prod Some id (handleInsertResponse (ee_decode_error e) (ee_env e) (bytes_of data) s)"
    "nats_request e (ServiceInsertInterjectionSubject (rs_username s)) data s
      = map_prod Some id (handleInsertInterjection (ee_decode_error e) (ee_env e) (bytes_of data) s)"
    "nats_request e (ServiceUpdateActivitySubject (rs_username s)) data s
      = map_prod Some id (handleUpdateActivity (ee_decode_error e) (ee_env e) (bytes_of data) s)"
    "nats_request e (ServiceDevicePresenceSubject (rs_username s)) data s = (Some (handleDevicePresence (ee_now e) s), s)"
    using all [of 3] all [of 4] all [of 5] all [of 6] all [of 7] by (simp_all add: subscriptions)
qed

text \<open>The registry serves once it has started.\<close>

lemma subscribe_all_subs:
  "subscribe_all ok subjs s = (True, s') \<Longrightarrow> rs_subs s' = rs_subs s @ subjs \<and> rs_username s' = rs_username s"
  by (induction subjs arbitrary: s) (auto split: if_splits)

lemma kept_by_reaping [simp]:
  "rs_subs (rebuildWorkspaceSnapshot en n s) = rs_subs s" "rs_username (rebuildWorkspaceSnapshot en n s) = rs_username s"
  "rs_subs (reap_flows en n fs s) = rs_subs s" "rs_username (reap_flows en n fs s) = rs_username s"
  "rs_subs (reapOnce en s) = rs_subs s" "rs_username (reapOnce en s) = rs_username s"
proof -
  show r: "rs_subs (rebuildWorkspaceSnapshot en n s) = rs_subs s" "rs_username (rebuildWorkspaceSnapshot en n s) = rs_username s"
    for en n s
    by (simp_all add: rebuildWorkspaceSnapshot_def split: sum.split)
  show f: "rs_subs (reap_flows en n fs s) = rs_subs s" "rs_username (reap_flows en n fs s) = rs_username s" for n fs s
    by (induction fs arbitrary: n s)
      (simp_all add: reap_flow_def publishFailedLifecycle_def Let_def split: prod.split option.split)
  show "rs_subs (reapOnce en s) = rs_subs s" "rs_username (reapOnce en s) = rs_username s"
    by (simp_all add: reapOnce_def Let_def r f split: sum.split)
qed

lemma started_serving: "registry_Start c ok en en' s = (True, s') \<Longrightarrow> serving s'"
  by (auto simp: registry_Start_def serving_def dest!: subscribe_all_subs split: if_splits prod.splits bool.splits)

end
