(* ===== verification/QueryLaws.thy ===== *)
theory QueryLaws
  imports Queries RegistryLaws Endpoints
begin

text \<open>
  What the query commands show, with the endpoints of the registry as the daemon that answers:
  which flows a lookup finds, which rows the history shows, and when a flow that is shown with
  time left can be reaped.
\<close>

section \<open>Endpoints\<close>

text \<open>
  The contract between a command and an endpoint: in a state where the endpoint is fit to answer a
  query, the client's decoder reads its reply as the answer. The command relies on nothing else.
\<close>

locale endpoint =
  fixes fit :: "'s \<Rightarrow> 'q \<Rightarrow> bool" and handle :: "'s \<Rightarrow> wire option \<Rightarrow> wire"
    and enc :: "'q \<Rightarrow> json" and dec :: "json \<Rightarrow> 'a option" and answer :: "'s \<Rightarrow> 'q \<Rightarrow> 'a"
  assumes reply: "fit s q \<Longrightarrow> unmarshal dec (handle s (Some (Some (enc q)))) = Some (answer s q)"
begin

lemma asked:
  "fit s q \<Longrightarrow> qe_request e k subject (Some (Some (enc q))) = Answer (handle s (Some (Some (enc q))))
     \<Longrightarrow> ask_daemon e k subject (enc q) dec what = Inr (answer s q)"
  by (simp add: ask_daemon_def reply)

end

definition flows_fit :: "env \<Rightarrow> Service \<Rightarrow> bool" where
  "flows_fit en s \<longleftrightarrow> sort_slice (en_sort_flows en) \<and> \<not> en_faults en 0 0 \<and> rows_ok (rs_db s)"

interpretation flows: endpoint "\<lambda>(en, s) q. flows_fit en s" "\<lambda>(en, s) d. handleFlowsQuery en d s" enc_fq dec_fr
  "\<lambda>(en, s) q. \<lparr> fr_Flows = map client_entry (en_sort_flows en newest_first
     (filter (flow_matches (flow_filter q)) (active_flows (rs_db s)))) \<rparr>"
  by unfold_locales (auto simp: flows_fit_def flows_reply_decoded)

lemma dec_enc_sfr: "dec_sfr (enc_sfr r) = Some r"
  by (cases r) (simp add: dec_sfr_def enc_sfr_def e_strs_def dec_struct_def dec_single field_at_def d_strs_def dec_fields_Nil
      del: dec_fields.simps(2) fold_key.simps map_map)

lemma search_reply_decoded:
  assumes "\<not> en_faults en 0 0"
  shows "unmarshal dec_sfr (handleSearchFlowsQuery en (Some (Some (enc_sfq q))) s)
     = Some \<lparr> sfr_FlowIDs = map a_flow_id (en_sort_flows en newest_first
                (filter (search_matches (sfq_Workspace q)) (active_flows (rs_db s)))) \<rparr>"
proof -
  have "map af_FlowID (map scan_flow rows) = map a_flow_id rows" for rows by (simp add: scan_flow_def)
  then show ?thesis using assms
    by (simp add: handleSearchFlowsQuery_def query_body_def unmarshal_def dec_enc_sfq SearchActiveFlows_def Let_def
        dec_enc_sfr del: map_map)
qed

interpretation search: endpoint "\<lambda>(en, s) q. \<not> en_faults en 0 0" "\<lambda>(en, s) d. handleSearchFlowsQuery en d s" enc_sfq dec_sfr
  "\<lambda>(en, s) q. \<lparr> sfr_FlowIDs = map a_flow_id (en_sort_flows en newest_first
     (filter (search_matches (sfq_Workspace q)) (active_flows (rs_db s)))) \<rparr>"
  by unfold_locales (auto simp: search_reply_decoded)

section \<open>History records on the wire\<close>

definition norm_hr :: "HistoryRecord \<Rightarrow> HistoryRecord" where
  "norm_hr r = r\<lparr> hr_Lifecycle := map_option (\<lambda>e. e\<lparr> ev_Metadata := norm_meta (ev_Metadata e) \<rparr>) (hr_Lifecycle r) \<rparr>"

definition record_sendable :: "HistoryRecord \<Rightarrow> bool" where
  "record_sendable r \<longleftrightarrow> record_times_ok r
     \<and> (case hr_Request r of None \<Rightarrow> True | Some q \<Rightarrow> int64 (nr_TimeoutSec q))
     \<and> (case hr_Lifecycle r of None \<Rightarrow> True | Some e \<Rightarrow> meta_ok (ev_Metadata e))"

lemma dec_e_ptr: "dec_fields fs (e_ptr_opt k e p) r = omit (p = None) (field_at fs k) (e (the p)) r"
  by (simp add: e_ptr_opt_def omit_def field_at_def dec_fields_Nil split: option.split)

lemma omit_ptr:
  assumes "u (\<lambda>_. None) r = r" and "get r = None" and "\<And>a. e a \<noteq> JNull"
    and "\<And>a. p = Some a \<Longrightarrow> d zero (e a) = Some (g a)"
  shows "omit (p = None) (d_ptr d zero get u) (e (the p)) r = Some (u (\<lambda>_. map_option g p) r)"
  using assms by (cases p) (simp_all add: omit_def d_ptr_def split: json.split)

lemma encoded_object: "enc_nr q \<noteq> JNull" "enc_resp p \<noteq> JNull" "enc_ev e \<noteq> JNull"
  by (simp_all add: enc_nr_def enc_resp_def enc_ev_def)

lemma dec_enc_hr:
  assumes "record_sendable r"
  shows "dec_struct hr_fields zero_hr (enc_hr r) = Some (norm_hr r)"
proof -
  note parts = assms [unfolded record_sendable_def record_times_ok_def]
  have req: "omit (hr_Request r = None) (d_ptr (dec_struct nr_fields) zero_nr hr_Request hr_Request_update) (enc_nr (the (hr_Request r))) x
      = Some (x\<lparr> hr_Request := map_option (\<lambda>q. q) (hr_Request r) \<rparr>)" if "hr_Request x = None" for x :: HistoryRecord
    using parts that by (intro omit_ptr) (auto simp: encoded_object intro: dec_enc_nr [unfolded dec_nr_def])
  have resp: "omit (hr_Response r = None) (d_ptr (dec_struct resp_fields) zero_resp hr_Response hr_Response_update) (enc_resp (the (hr_Response r))) x
      = Some (x\<lparr> hr_Response := map_option (\<lambda>q. q) (hr_Response r) \<rparr>)" if "hr_Response x = None" for x :: HistoryRecord
    using parts that by (intro omit_ptr) (auto simp: encoded_object intro: dec_enc_resp [unfolded dec_resp_def])
  have ev: "omit (hr_Lifecycle r = None) (d_ptr (dec_struct ev_fields) zero_ev hr_Lifecycle hr_Lifecycle_update) (enc_ev (the (hr_Lifecycle r))) x
      = Some (x\<lparr> hr_Lifecycle := map_option (\<lambda>e. e\<lparr> ev_Metadata := norm_meta (ev_Metadata e) \<rparr>) (hr_Lifecycle r) \<rparr>)"
    if "hr_Lifecycle x = None" for x :: HistoryRecord
    using parts that by (intro omit_ptr) (auto simp: encoded_object intro: dec_enc_ev [unfolded dec_ev_def])
  show ?thesis unfolding dec_struct_def [of hr_fields]
    by (simp add: enc_hr_def dec_fields_append dec_e dec_e_ptr d_values omit_values(1) field_at_def hr_fields_def zero_hr_def
        req resp ev del: dec_fields.simps fold_key.simps)
      (cases r, simp add: norm_hr_def option.map_ident)
qed

definition history_query_ok :: "HistoryQuery \<Rightarrow> bool" where
  "history_query_ok q \<longleftrightarrow> (\<forall>t. hq_Since q = Some t \<longrightarrow> four_digit_year t) \<and> (\<forall>t. hq_Until q = Some t \<longrightarrow> four_digit_year t)
     \<and> int64 (hq_Limit q) \<and> int64 (hq_Offset q)"

lemma dec_enc_hqr:
  assumes "list_all record_sendable (hqr_Records r)" and "int64 (hqr_Total r)"
  shows "dec_hqr (enc_hqr r) = Some (r\<lparr> hqr_Records := map norm_hr (hqr_Records r) \<rparr>)"
proof -
  have "map_opt (\<lambda>x. dec_struct hr_fields zero_hr (enc_hr x)) (hqr_Records r) = Some (map norm_hr (hqr_Records r))"
    using assms(1) by (intro map_opt_Some dec_enc_hr) (auto simp: list_all_iff)
  moreover have "map_opt d (map f xs) = map_opt (\<lambda>x. d (f x)) xs" for d :: "json \<Rightarrow> HistoryRecord option" and f :: "HistoryRecord \<Rightarrow> json" and xs
    by (induction xs) simp_all
  ultimately show ?thesis using assms(2)
    by (cases r) (simp add: dec_hqr_def enc_hqr_def dec_struct_def dec_single field_at_def d_list_def d_int_def dec_fields_Nil
      del: dec_fields.simps(2) fold_key.simps)
qed

lemma history_reply_decoded:
  assumes "history_query_ok q" and "QueryHistory srt_n srt_e srt_a (en_faults en 0) q (rs_db s) = Inr (rs, n)"
    and "list_all record_sendable rs" and "int64 (int n)"
  shows "unmarshal dec_hqr (handleHistoryQuery srt_n srt_e srt_a en (Some (Some (enc_hq q))) s)
     = Some \<lparr> hqr_Records = map norm_hr rs, hqr_Total = int n \<rparr>"
proof -
  have "dec_hq (enc_hq q) = Some q" using assms(1) by (intro dec_enc_hq) (auto simp: history_query_ok_def)
  moreover have "list_all record_times_ok rs" using assms(3) by (auto simp: list_all_iff record_sendable_def)
  ultimately have "handleHistoryQuery srt_n srt_e srt_a en (Some (Some (enc_hq q))) s
      = Some (enc_hqr \<lparr> hqr_Records = rs, hqr_Total = int n \<rparr>)"
    using assms(2) by (simp add: handleHistoryQuery_def query_body_def unmarshal_def marshal_def or_else_def)
  then show ?thesis using dec_enc_hqr [of "\<lparr> hqr_Records = rs, hqr_Total = int n \<rparr>"] assms(3,4) by (simp add: unmarshal_def)
qed

text \<open>The page a query selects, and whether it can be sent.\<close>

definition history_page ::
    "(request_row \<times> response_row option) sorter \<times> event_row sorter \<times> HistoryRecord sorter \<times> env \<times> Service \<Rightarrow>
     HistoryQuery \<Rightarrow> HistoryQueryResult" where
  "history_page st q =
     (case st of (srt_n, srt_e, srt_a, en, s) \<Rightarrow>
        case QueryHistory srt_n srt_e srt_a (en_faults en 0) q (rs_db s) of
          Inl _ \<Rightarrow> \<lparr> hqr_Records = [], hqr_Total = 0 \<rparr>
        | Inr (rs, n) \<Rightarrow> \<lparr> hqr_Records = rs, hqr_Total = int n \<rparr>)"

definition history_fit ::
    "(request_row \<times> response_row option) sorter \<times> event_row sorter \<times> HistoryRecord sorter \<times> env \<times> Service \<Rightarrow>
     HistoryQuery \<Rightarrow> bool" where
  "history_fit st q \<longleftrightarrow> history_query_ok q \<and> list_all record_sendable (hqr_Records (history_page st q))
     \<and> int64 (hqr_Total (history_page st q))
     \<and> (case st of (srt_n, srt_e, srt_a, en, s) \<Rightarrow>
          \<exists>page. QueryHistory srt_n srt_e srt_a (en_faults en 0) q (rs_db s) = Inr page)"

interpretation history: endpoint history_fit "\<lambda>(srt_n, srt_e, srt_a, en, s) d. handleHistoryQuery srt_n srt_e srt_a en d s"
  enc_hq dec_hqr "\<lambda>st q. (history_page st q)\<lparr> hqr_Records := map norm_hr (hqr_Records (history_page st q)) \<rparr>"
proof
  fix st q
  assume fit: "history_fit st q"
  obtain srt_n srt_e srt_a en s where st: "st = (srt_n, srt_e, srt_a, en, s)" by (cases st) auto
  from fit obtain rs n where "QueryHistory srt_n srt_e srt_a (en_faults en 0) q (rs_db s) = Inr (rs, n)"
    by (auto simp: history_fit_def st)
  with fit history_reply_decoded [of q srt_n srt_e srt_a en s rs n]
  show "unmarshal dec_hqr ((case st of (srt_n, srt_e, srt_a, en, s) \<Rightarrow> \<lambda>d. handleHistoryQuery srt_n srt_e srt_a en d s)
          (Some (Some (enc_hq q))))
      = Some ((history_page st q)\<lparr> hqr_Records := map norm_hr (hqr_Records (history_page st q)) \<rparr>)"
    by (simp add: history_fit_def history_page_def st)
qed

section \<open>The daemon that answers\<close>

text \<open>The registry service as the other end of a request.\<close>

definition endpoint_reply :: "endpoint_env \<Rightarrow> Service \<Rightarrow> string \<Rightarrow> wire option \<Rightarrow> reply" where
  "endpoint_reply ee s subject data =
     (case fst (nats_request ee subject data s) of None \<Rightarrow> No_answer | Some w \<Rightarrow> Answer w)"

section \<open>Looking a flow up\<close>

text \<open>What a lookup is meant to find.\<close>

definition found_rows :: "env \<Rightarrow> ledger \<Rightarrow> string \<Rightarrow> flow_row list" where
  "found_rows en l arg =
     (if prefix ''fl_'' arg then filter (\<lambda>r. a_flow_id r = arg) (active_flows l)
      else en_sort_flows en newest_first
        (filter (\<lambda>r. if prefix ''ws_'' arg then a_workspace_id r = arg else search_matches arg r) (active_flows l)))"

lemma sorted_unique:
  assumes "sort_slice srt" and "length rows \<le> 1"
  shows "srt newest_first rows = rows"
proof (cases rows)
  case Nil
  with sorted_rows(2) [OF assms(1), of "[]"] show ?thesis by simp
next
  case (Cons r rs)
  with assms(2) have "mset (srt newest_first rows) = {#r#}" by (simp add: sorted_rows(1) [OF assms(1)])
  then have "srt newest_first rows = [r]" by (metis mset_single_iff)
  with Cons assms(2) show ?thesis by simp
qed

lemma unique_id:
  assumes "ledger_ok l"
  shows "length (filter (\<lambda>r. a_flow_id r = i) (active_flows l)) \<le> 1"
    and "r \<in> set (active_flows l) \<Longrightarrow> filter (\<lambda>s. a_flow_id s = a_flow_id r) (active_flows l) = [r]"
proof -
  have d: "distinct (map a_flow_id (active_flows l))" using assms by (simp add: ledger_ok_def)
  then have "length (filter (\<lambda>r. a_flow_id r = i) rs) \<le> 1
      \<and> (r \<in> set rs \<longrightarrow> filter (\<lambda>s. a_flow_id s = a_flow_id r) rs = [r])"
    if "distinct (map a_flow_id rs)" for rs i r
    using that by (induction rs) (auto simp: filter_empty_conv image_iff)
  with d show "length (filter (\<lambda>r. a_flow_id r = i) (active_flows l)) \<le> 1"
    and "r \<in> set (active_flows l) \<Longrightarrow> filter (\<lambda>s. a_flow_id s = a_flow_id r) (active_flows l) = [r]" by blast+
qed

lemma matches_query_of:
  "filter (flow_matches (flow_filter (flow_query_of i))) rows
     = filter (\<lambda>r. if prefix ''fl_'' i then a_flow_id r = i else prefix ''ws_'' i \<longrightarrow> a_workspace_id r = i) rows"
  by (rule filter_cong [OF refl]) (auto simp: flow_matches_def flow_filter_def flow_query_of_def zero_fq_def)

text \<open>What the two endpoints answer to a command.\<close>

lemma flows_asked:
  assumes "flows_fit (ee_env ee) s" and "serving s" and "\<And>k. qe_request e k = endpoint_reply ee s"
  shows "ask_daemon e k (ServiceFlowsSubject (rs_username s)) (enc_fq q) dec_fr what
     = Inr \<lparr> fr_Flows = map client_entry (en_sort_flows (ee_env ee) newest_first
         (filter (flow_matches (flow_filter q)) (active_flows (rs_db s)))) \<rparr>"
  using flows.asked [of "(ee_env ee, s)" q e k] assms by (simp add: endpoint_reply_def requests_handled)

lemma search_asked:
  assumes "\<not> en_faults (ee_env ee) 0 0" and "serving s" and "\<And>k. qe_request e k = endpoint_reply ee s"
  shows "ask_daemon e k (ServiceSearchFlowsSubject (rs_username s)) (enc_sfq q) dec_sfr what
     = Inr \<lparr> sfr_FlowIDs = map a_flow_id (en_sort_flows (ee_env ee) newest_first
         (filter (search_matches (sfq_Workspace q)) (active_flows (rs_db s)))) \<rparr>"
  using search.asked [of "(ee_env ee, s)" q e k] assms by (simp add: endpoint_reply_def requests_handled)

text \<open>The answers to a list of strict queries.\<close>

lemma hydrate_found:
  assumes "sort_slice (en_sort_flows (ee_env ee))" and "\<not> en_faults (ee_env ee) 0 0" and "rows_ok (rs_db s)" and "ledger_ok (rs_db s)"
    and "serving s \<and> (\<forall>k. qe_request e k = endpoint_reply ee s)" and "set rows \<subseteq> set (active_flows (rs_db s))"
    and "\<And>r. r \<in> set rows \<Longrightarrow> prefix ''fl_'' (a_flow_id r)"
  shows "hydrate e (ServiceFlowsSubject (rs_username s)) k (map a_flow_id rows) = Inr (map client_entry rows)"
  using assms(6,7)
proof (induction rows arbitrary: k)
  case Nil
  show ?case by simp
next
  case (Cons r rows)
  then have r: "r \<in> set (active_flows (rs_db s))" "prefix ''fl_'' (a_flow_id r)" by simp_all
  have fit: "flows_fit (ee_env ee) s" using assms(1-3) by (simp add: flows_fit_def)
  have "filter (flow_matches (flow_filter (flow_query_of (a_flow_id r)))) (active_flows (rs_db s)) = [r]"
    using unique_id(2) [OF assms(4) r(1)] r(2) by (simp add: matches_query_of)
  moreover have "en_sort_flows (ee_env ee) newest_first [r] = [r]" by (rule sorted_unique [OF assms(1)]) simp
  ultimately have "ask_daemon e k (ServiceFlowsSubject (rs_username s)) (enc_fq (flow_query_of (a_flow_id r))) dec_fr (a_flow_id r)
      = Inr \<lparr> fr_Flows = [client_entry r] \<rparr>"
    by (simp add: flows_asked [OF fit] assms(5))
  with Cons show ?case by simp
qed

lemma find_flows_found:
  assumes "sort_slice (en_sort_flows (ee_env ee))" and "\<not> en_faults (ee_env ee) 0 0" and "rows_ok (rs_db s)" and "ledger_ok (rs_db s)"
    and "serving s \<and> (\<forall>k. qe_request e k = endpoint_reply ee s)" and "cf_Username cfg = rs_username s"
    and "\<And>r. r \<in> set (active_flows (rs_db s)) \<Longrightarrow> prefix ''fl_'' (a_flow_id r)"
  shows "find_flows e cfg arg = (case map client_entry (found_rows (ee_env ee) (rs_db s) arg) of
     [] \<Rightarrow> Inl (CodedError NotFound (No_flows arg)) | fs \<Rightarrow> Inr fs)"
proof (cases "strict_id arg")
  case True
  let ?rows = "en_sort_flows (ee_env ee) newest_first (filter (flow_matches (flow_filter (flow_query_of arg))) (active_flows (rs_db s)))"
  have "ask_daemon e k (ServiceFlowsSubject (rs_username s)) (enc_fq (flow_query_of arg)) dec_fr arg
      = Inr \<lparr> fr_Flows = map client_entry ?rows \<rparr>" for k
    using assms(1-3,5) by (simp add: flows_asked flows_fit_def)
  moreover have "?rows = found_rows (ee_env ee) (rs_db s) arg"
    using True sorted_unique [OF assms(1) unique_id(1) [OF assms(4), of arg]]
    by (auto simp: matches_query_of found_rows_def strict_id_def)
  ultimately show ?thesis using True by (simp add: find_flows_def assms(6) split: list.split)
next
  case False
  let ?rows = "en_sort_flows (ee_env ee) newest_first (filter (search_matches arg) (active_flows (rs_db s)))"
  have rows: "?rows = found_rows (ee_env ee) (rs_db s) arg" using False by (simp add: found_rows_def strict_id_def)
  have "ask_daemon e 0 (ServiceSearchFlowsSubject (rs_username s)) (enc_sfq \<lparr> sfq_Workspace = arg \<rparr>) dec_sfr ''search''
      = Inr \<lparr> sfr_FlowIDs = map a_flow_id ?rows \<rparr>"
    using assms(2,5) by (simp add: search_asked)
  moreover have sub: "set ?rows \<subseteq> set (active_flows (rs_db s))" by (auto simp: sorted_rows(2) [OF assms(1)])
  then have "hydrate e (ServiceFlowsSubject (rs_username s)) k (map a_flow_id ?rows) = Inr (map client_entry ?rows)" for k
    using assms(7) by (intro hydrate_found [OF assms(1-5)]) auto
  ultimately show ?thesis using False
    by (cases "found_rows (ee_env ee) (rs_db s) arg") (simp_all add: find_flows_def assms(6) rows del: hydrate.simps(2))
qed

text \<open>
  C29 (functional): \<^verbatim>\<open>renotify flow\<close> finds the right flows. With a running registry answering from
  a ledger that keeps its constraints and whose flow ids have the daemon's form: the argument shows
  the flow with that id, the flows of that workspace, or the flows whose name or path match it, each
  once, newest first and in full; when there are none the command prints nothing and ends with the
  exit code for "not found".
\<close>

theorem flow_lookup:
  assumes "sort_slice (en_sort_flows (ee_env ee))" and "\<not> en_faults (ee_env ee) 0 0" and "rows_ok (rs_db s)" and "ledger_ok (rs_db s)"
    and "serving s \<and> (\<forall>k. qe_request e k = endpoint_reply ee s)" and "cf_Username cfg = rs_username s"
    and "\<And>r. r \<in> set (active_flows (rs_db s)) \<Longrightarrow> prefix ''fl_'' (a_flow_id r)"
    and "connect_cli e cfg h = Inr d"
  shows "(found_rows (ee_env ee) (rs_db s) arg = [] \<longrightarrow>
        ExitCode (fst (flow_cmd e cfg format arg h)) = NotFound \<and> snd (flow_cmd e cfg format arg h) = h)
    \<and> (found_rows (ee_env ee) (rs_db s) arg \<noteq> [] \<longrightarrow> flow_cmd e cfg ''text'' arg h
        = (None, emit (with_rules (map (\<lambda>r. flow_detail cfg (qe_now e) (client_entry r)) (found_rows (ee_env ee) (rs_db s) arg))) h))
    \<and> distinct (map a_flow_id (found_rows (ee_env ee) (rs_db s) arg))"
proof -
  note found = find_flows_found [OF assms(1-7)]
  have d: "distinct (map a_flow_id (filter P (active_flows (rs_db s))))" for P
    using assms(4) by (simp add: ledger_ok_def distinct_map inj_on_def)
  have "distinct (map a_flow_id (en_sort_flows (ee_env ee) newest_first (filter P (active_flows (rs_db s)))))" for P
  proof -
    have "mset (map a_flow_id (en_sort_flows (ee_env ee) newest_first (filter P (active_flows (rs_db s)))))
        = mset (map a_flow_id (filter P (active_flows (rs_db s))))"
      by (simp only: mset_map sorted_rows(1) [OF assms(1)])
    then show ?thesis using d [of P] mset_eq_imp_distinct_iff by blast
  qed
  with d have "distinct (map a_flow_id (found_rows (ee_env ee) (rs_db s) arg))" by (auto simp: found_rows_def)
  with found assms(8) show ?thesis
    by (cases "found_rows (ee_env ee) (rs_db s) arg") (simp_all add: flow_cmd_def comp_def exit_defs)
qed

section \<open>What the history shows\<close>

definition record_id :: "HistoryRecord \<Rightarrow> string" where
  "record_id r = (if hr_Type r = ''lifecycle'' then (case hr_Lifecycle r of None \<Rightarrow> '''' | Some e \<Rightarrow> ev_FlowID e)
     else (case hr_Request r of None \<Rightarrow> '''' | Some q \<Rightarrow> nr_ID q))"

fun row_id :: "item \<Rightarrow> string" where
  "row_id (Row [type, time, id', title, response]) = id'"
| "row_id _ = ''''"

definition well_formed :: "HistoryRecord \<Rightarrow> bool" where
  "well_formed r \<longleftrightarrow> (if hr_Type r = ''lifecycle'' then hr_Lifecycle r \<noteq> None else hr_Request r \<noteq> None)"

lemma page_well_formed:
  assumes "sort_slice srt_a" and "QueryHistory srt_n srt_e srt_a ft q l = Inr (rs, n)"
  shows "list_all well_formed rs"
proof -
  have w: "weak_order later" unfolding later_def by (rule weak_order_key)
  have page: "set (paginate i k xs) \<subseteq> set xs" for i k and xs :: "HistoryRecord list"
    by (auto simp: paginate_def Let_def dest: in_set_takeD in_set_dropD)
  from assms(2) obtain i k A B where "rs = paginate i k (srt_a later (map scanHistoryRow A @ map scanLifecycleRow B))"
    by (auto simp: QueryHistory_def Let_def split: if_splits)
  then have "set rs \<subseteq> set (map scanHistoryRow A @ map scanLifecycleRow B)"
    using page sort_sliceD(3) [OF assms(1) w] by metis
  then have "set rs \<subseteq> range scanHistoryRow \<union> range scanLifecycleRow" by auto
  then show ?thesis
    by (auto simp: list_all_iff well_formed_def scanHistoryRow_def scanLifecycleRow_def HistoryTypeLifecycle_def
        HistoryTypeNotification_def split: prod.splits)
qed

lemma norm_hr_fields [simp]:
  "hr_Type (norm_hr r) = hr_Type r" "record_id (norm_hr r) = record_id r" "well_formed (norm_hr r) = well_formed r"
  by (auto simp: norm_hr_def record_id_def well_formed_def split: option.split)

lemma history_row_id: "well_formed r \<Longrightarrow> \<exists>i. history_row r = [i] \<and> row_id i = record_id r"
  by (auto simp: history_row_def record_id_def well_formed_def)

lemma history_rows_ids: "list_all well_formed rs \<Longrightarrow> map row_id (concat (map history_row rs)) = map record_id rs"
proof (induction rs)
  case (Cons r rs)
  then obtain i where "history_row r = [i]" "row_id i = record_id r" using history_row_id by auto
  with Cons show ?case by simp
qed simp

text \<open>
  C30 (functional): \<^verbatim>\<open>renotify history\<close> shows the page. With a running registry answering from its
  ledger, the text output has one row for each record of the page the query selects, in its order,
  without the lifecycle records unless they are asked for, and a row carries the id of its record;
  the heading counts the rows and the records of all pages.
\<close>

theorem history_shown:
  assumes "serving s" and "cf_Username cfg = rs_username s" and "qe_request e 0 = endpoint_reply ee s"
    and "history_query fl = Inr q" and "hf_format fl \<noteq> ''json''" and "connect_cli e cfg h = Inr d"
    and "history_fit (ee_sort_requests ee, ee_sort_events ee, ee_sort_records ee, ee_env ee, s) q"
    and "sort_slice (ee_sort_records ee)"
  shows "let page = history_page (ee_sort_requests ee, ee_sort_events ee, ee_sort_records ee, ee_env ee, s) q;
      shown = filter (\<lambda>r. hf_showLifecycle fl \<or> hr_Type r \<noteq> ''lifecycle'') (hqr_Records page)
    in \<exists>heading rows. history_cmd e cfg fl h = (None, emit (heading @ rows) h) \<and> map row_id rows = map record_id shown
      \<and> (if shown = [] then heading = [Line ''No history records.'']
         else \<exists>hint. hd heading = Line (''Showing '' @ itoa (int (length rows)) @ '' of '' @ itoa (hqr_Total page) @ '' records'' @ hint))"
proof -
  let ?st = "(ee_sort_requests ee, ee_sort_events ee, ee_sort_records ee, ee_env ee, s)"
  let ?page = "history_page ?st q"
  let ?sel = "filter (\<lambda>r. \<not> (hr_Type r = ''lifecycle'' \<and> \<not> hf_showLifecycle fl))"
  have "ask_daemon e 0 (ServiceHistorySubject (cf_Username cfg)) (enc_hq q) dec_hqr ''history''
      = Inr (?page\<lparr> hqr_Records := map norm_hr (hqr_Records ?page) \<rparr>)"
    by (rule history.asked [OF assms(7)]) (simp add: assms(1-3) endpoint_reply_def requests_handled)
  then have cmd: "history_cmd e cfg fl h
      = (None, emit (formatHistoryText (?page\<lparr> hqr_Records := map norm_hr (hqr_Records ?page) \<rparr>) (hf_showLifecycle fl)) h)"
    using assms(4-6) by (simp add: history_cmd_def)
  let ?display = "?sel (map norm_hr (hqr_Records ?page))"
  have wf: "list_all well_formed (hqr_Records ?page)"
  proof -
    from assms(7) obtain rs n where "QueryHistory (ee_sort_requests ee) (ee_sort_events ee) (ee_sort_records ee)
        (en_faults (ee_env ee) 0) q (rs_db s) = Inr (rs, n)"
      by (auto simp: history_fit_def)
    with page_well_formed [OF assms(8) this] show ?thesis by (simp add: history_page_def)
  qed
  then have rows: "map row_id (concat (map history_row ?display)) = map record_id ?display"
    by (intro history_rows_ids) (auto simp: list_all_iff)
  have len: "length (concat (map history_row ?display)) = length ?display"
    using arg_cong [OF rows, of length] by simp
  have sel: "map record_id ?display = map record_id (filter (\<lambda>r. hf_showLifecycle fl \<or> hr_Type r \<noteq> ''lifecycle'') (hqr_Records ?page))"
    "(?display = []) = (filter (\<lambda>r. hf_showLifecycle fl \<or> hr_Type r \<noteq> ''lifecycle'') (hqr_Records ?page) = [])"
    by (simp_all add: filter_map o_def imp_conv_disj disj_commute)
  show ?thesis
  proof (cases "?display = []")
    case True
    then have "history_cmd e cfg fl h = (None, emit ([Line ''No history records.''] @ []) h)"
      unfolding cmd formatHistoryText_def Let_def by simp
    with True sel show ?thesis unfolding Let_def
      by (intro exI [of _ "[Line ''No history records.'']"] exI [of _ "[]"]) simp
  next
    case False
    let ?rows = "concat (map history_row ?display)"
    let ?hint = "if hf_showLifecycle fl then '''' else '' (use --show-lifecycle to include lifecycle events)''"
    let ?heading = "[Line (''Showing '' @ itoa (int (length ?display)) @ '' of '' @ itoa (hqr_Total ?page) @ '' records'' @ ?hint),
        Line '''', Row [''TYPE'', ''TIMESTAMP'', ''ID'', ''TITLE'', ''RESPONSE'']]"
    have "history_cmd e cfg fl h = (None, emit (?heading @ ?rows) h)"
      unfolding cmd formatHistoryText_def Let_def using False by simp
    with False rows sel len show ?thesis unfolding Let_def
      by (intro exI [of _ ?heading] exI [of _ ?rows]) auto
  qed
qed

section \<open>The time left\<close>

lemma itoa_not_expired: "itoa n @ s \<noteq> ''expired''"
proof -
  have "0 < ndigits (nat \<bar>n\<bar>)" by (subst ndigits.simps) simp
  then obtain w where w: "ndigits (nat \<bar>n\<bar>) = Suc w" using gr0_implies_Suc by blast
  have "is_digit (digit (nat \<bar>n\<bar> div 10 ^ w))" using digits_are_digits [of "Suc w" "nat \<bar>n\<bar>"] by simp
  moreover have "\<not> is_digit (CHR ''e'')" by (simp add: is_digit_def)
  ultimately have "digit (nat \<bar>n\<bar> div 10 ^ w) \<noteq> CHR ''e''" by metis
  then show ?thesis using w by (cases "n < 0") (simp_all add: itoa_def)
qed

lemma formatTTL_expired: "formatTTL d = ''expired'' \<longleftrightarrow> d \<le> 0"
  using itoa_not_expired by (auto simp: formatTTL_def)

text \<open>
  C31 (bounds): the time left and the reaper agree. For a flow of the ledger and a command that knows
  the daemon's grace period: while the command shows time left the reaper does not take the flow,
  and once it has been expired for a second the next pass does.
\<close>

theorem time_left:
  assumes "r \<in> set (active_flows l)" and "ledger_ok l" and "a_last_activity r = rfc3339 t"
    and "four_digit_year t" and "four_digit_year (now - rp_GracePeriod (cf_Reaping cfg))"
  shows "\<exists>stale. ReapStaleFlows no_faults now (rp_GracePeriod (cf_Reaping cfg)) l = Inr stale
    \<and> (formatTTL (flow_ttl cfg now (client_entry r)) \<noteq> ''expired'' \<longrightarrow> a_flow_id r \<notin> af_FlowID ` set stale)
    \<and> (flow_ttl cfg now (client_entry r) \<le> - second \<longrightarrow> scan_flow r \<in> set stale)"
proof -
  define u where "u = t div second * second"
  let ?grace = "rp_GracePeriod (cf_Reaping cfg)"
  have u: "parse_rfc3339 (a_last_activity r) = Some u" using parse_rfc3339_rfc3339 [OF assms(4)] assms(3) by (simp add: u_def)
  have "u div second = t div second" by (simp add: u_def)
  then have "rfc3339 u = rfc3339 t" by (simp add: rfc3339_def)
  moreover have "four_digit_year u"
  proof -
    have "- 62167219200 \<le> t div second" using assms(4) by (simp add: four_digit_year_def zdiv_mono1 [of "- 62167219200 * second" t second, simplified])
    moreover have "u \<le> t" by (simp add: u_def)
    ultimately show ?thesis using assms(4) by (simp add: four_digit_year_def u_def)
  qed
  ultimately have "\<exists>stale. ReapStaleFlows no_faults now ?grace l = Inr stale
    \<and> (now - u \<le> ?grace \<longrightarrow> a_flow_id r \<notin> af_FlowID ` set stale)
    \<and> (?grace + second \<le> now - u \<longrightarrow> scan_flow r \<in> set stale)"
    using reap_stale_bounds [OF assms(1,2) _ _ assms(5), of u] assms(3) by simp
  moreover have "flow_ttl cfg now (client_entry r) = time_sub (u + ?grace) now"
    using u by (simp add: flow_ttl_def client_entry_def flow_entry_def scan_flow_def parse_or_zero_def)
  ultimately show ?thesis by (auto simp: formatTTL_expired time_sub_def)
qed

lemma idle_ledger: "ledger_ok (rs_db idle_service)"
  unfolding idle_service_def by (simp add: a_service_def) (rule RegisterFlow_keeps, simp add: ledger_ok_def empty_ledger_def)

lemma idle_rows: "rows_ok (rs_db idle_service)"
proof -
  obtain r' where r': "active_flows (rs_db idle_service) = [r']" "a_registered_at r' = rfc3339 (978307200 * second)"
    "a_last_activity r' = rfc3339 (978307200 * second)" "a_metadata r' = None"
    by (simp add: idle_service_def RegisterFlow_def no_faults_def insert_flow_row_def empty_ledger_def a_flow_def
        Let_def marshalMetadata_def)
  have y: "four_digit_year (978307200 * second)" by (simp add: four_digit_year_def)
  have "parse_or_zero (rfc3339 (978307200 * second)) = 978307200 * second"
    using parse_rfc3339_rfc3339 [OF y] by (simp add: parse_or_zero_def)
  with y show ?thesis by (simp only: rows_ok_def r'(1)) (simp add: r'(2-4) unmarshalMetadata_def meta_ok_def)
qed

definition a_grace_config :: Config where
  "a_grace_config = Default an_xdg (Some ''alice'')"

theorem time_left_witness:
  "\<exists>r stale. active_flows (rs_db idle_service) = [r]
     \<and> ReapStaleFlows no_faults (978308400 * second) (15 * minute) (rs_db idle_service) = Inr stale \<and> scan_flow r \<in> set stale"
proof (rule idle_flow)
  fix r assume r: "active_flows (rs_db idle_service) = [r]" "a_flow_id r = ''fl_1''"
    "a_last_activity r = rfc3339 (978307200 * second)"
  have g: "rp_GracePeriod (cf_Reaping a_grace_config) = 15 * minute" by (simp add: a_grace_config_def Default_def)
  have y: "four_digit_year (978307200 * second)" "four_digit_year (978308400 * second - 15 * minute)"
    by (simp_all add: four_digit_year_def)
  have "parse_or_zero (rfc3339 (978307200 * second)) = 978307200 * second"
    using parse_rfc3339_rfc3339 [OF y(1)] by (simp add: parse_or_zero_def)
  then have "flow_ttl a_grace_config (978308400 * second) (client_entry r) \<le> - second"
    by (simp add: flow_ttl_def client_entry_def flow_entry_def scan_flow_def r(3) g time_sub_def)
  moreover obtain stale where "ReapStaleFlows no_faults (978308400 * second) (15 * minute) (rs_db idle_service) = Inr stale"
    "flow_ttl a_grace_config (978308400 * second) (client_entry r) \<le> - second \<longrightarrow> scan_flow r \<in> set stale"
    using time_left [of r "rs_db idle_service" "978307200 * second" "978308400 * second" a_grace_config] r idle_ledger y g by auto
  ultimately show ?thesis using r(1) by blast
qed

definition an_endpoint_env :: endpoint_env where
  "an_endpoint_env = \<lparr> ee_env = calm, ee_sort_requests = insertion_sort, ee_sort_events = insertion_sort,
     ee_sort_records = insertion_sort, ee_decode_error = (\<lambda>_. ''invalid''), ee_now = 978307200 * second \<rparr>"

definition a_registry :: Service where
  "a_registry = idle_service\<lparr> rs_subs := endpoint_subjects (rs_username idle_service) \<rparr>"

lemma an_endpoint_env [simp]:
  "ee_env an_endpoint_env = calm" "ee_sort_requests an_endpoint_env = insertion_sort"
  "ee_sort_events an_endpoint_env = insertion_sort" "ee_sort_records an_endpoint_env = insertion_sort"
  by (simp_all add: an_endpoint_env_def)

lemma a_grace_config_user [simp]: "cf_Username a_grace_config = rs_username idle_service"
  by (simp add: a_grace_config_def Default_def defaultUsername_def idle_service_def a_service_def)

lemma a_registry [simp]:
  "rs_db a_registry = rs_db idle_service" "rs_username a_registry = rs_username idle_service" "serving a_registry"
  by (simp_all add: a_registry_def serving_def)

definition a_query_env :: "Service \<Rightarrow> query_env" where
  "a_query_env s = \<lparr> qe_net = \<lparr> nt_key_pair = (\<lambda>_ _. True), nt_connect = (\<lambda>_. True) \<rparr>, qe_io = io_ok, qe_xdg = an_xdg,
     qe_now = 978307200 * second, qe_request = (\<lambda>_. endpoint_reply an_endpoint_env s) \<rparr>"

definition a_shell :: host where
  "a_shell = \<lparr> ho_fs = [InternalTokenPath an_xdg \<mapsto> \<lparr> f_content = Text ''secret'', f_mode = perm600 \<rparr>], ho_signals = [],
     ho_stdout = [], ho_stderr = [] \<rparr>"

theorem flow_lookup_witness:
  "\<exists>r. active_flows (rs_db idle_service) = [r]
     \<and> flow_cmd (a_query_env a_registry) a_grace_config ''text'' ''fl_1'' a_shell
       = (None, emit (flow_detail a_grace_config (978307200 * second) (client_entry r)) a_shell)"
proof (rule idle_flow)
  fix r assume r: "active_flows (rs_db idle_service) = [r]" "a_flow_id r = ''fl_1''"
    "a_last_activity r = rfc3339 (978307200 * second)"
  let ?e = "a_query_env a_registry"
  have "connect_cli ?e a_grace_config a_shell \<in> range Inr"
    by (simp add: connect_cli_def ConnectCLI_def a_grace_config_def Default_def connectCLIEmbedded_def a_query_env_def
        a_shell_def os_ReadFile_def io_ok_def)
  then obtain d where d: "connect_cli ?e a_grace_config a_shell = Inr d" by blast
  have found: "found_rows calm (rs_db idle_service) ''fl_1'' = [r]" by (simp add: found_rows_def r)
  have "flow_cmd ?e a_grace_config ''text'' ''fl_1'' a_shell
      = (None, emit (with_rules (map (\<lambda>r. flow_detail a_grace_config (qe_now ?e) (client_entry r))
           (found_rows (ee_env an_endpoint_env) (rs_db a_registry) ''fl_1''))) a_shell)"
  proof -
    note lookup = flow_lookup [where ee = an_endpoint_env and s = a_registry and e = ?e and cfg = a_grace_config and h = a_shell
        and d = d and arg = "''fl_1''"]
    have facts: "sort_slice (en_sort_flows calm)" "\<not> en_faults calm 0 0" "\<And>k. qe_request ?e k = endpoint_reply an_endpoint_env a_registry"
      by (simp_all add: calm_def sort_slice_insertion_sort no_faults_def a_query_env_def)
    show ?thesis
      by (rule lookup [THEN conjunct2, THEN conjunct1, THEN mp]) (simp_all add: facts idle_ledger idle_rows d found r)
  qed
  then show ?thesis using r(1) by (auto simp: found a_query_env_def)
qed

lemma idle_event:
  obtains ev where "flow_lifecycle_events (rs_db idle_service) = [ev]" "notification_requests (rs_db idle_service) = []"
    "e_flow_id ev = ''fl_1''" "e_timestamp ev = rfc3339 (978307200 * second)" "e_metadata ev = None"
  by (simp add: idle_service_def RegisterFlow_def no_faults_def insert_flow_row_def empty_ledger_def a_flow_def Let_def
      insert_event_row_def event_ok_def a_service_def marshalMetadata_def)

definition all_history :: historyFlags where
  "all_history = \<lparr> hf_workspaceID = '''', hf_flowID = '''', hf_since = '''', hf_until = '''', hf_limit = 0, hf_offset = 0,
     hf_format = ''text'', hf_showLifecycle = True \<rparr>"

theorem history_shown_witness:
  "\<exists>heading rows. history_cmd (a_query_env a_registry) a_grace_config all_history a_shell = (None, emit (heading @ rows) a_shell)
     \<and> map row_id rows = [''fl_1'']"
proof (rule idle_event)
  fix ev assume ev: "flow_lifecycle_events (rs_db idle_service) = [ev]" "notification_requests (rs_db idle_service) = []"
    "e_flow_id ev = ''fl_1''" "e_timestamp ev = rfc3339 (978307200 * second)" "e_metadata ev = None"
  let ?q = "\<lparr> hq_WorkspaceID = '''', hq_FlowID = '''', hq_Since = None, hq_Until = None, hq_Limit = 0, hq_Offset = 0 \<rparr>"
  let ?st = "(insertion_sort, insertion_sort, insertion_sort, calm, a_registry)"
  have y: "four_digit_year (978307200 * second)" by (simp add: four_digit_year_def)
  have time: "parse_or_zero (e_timestamp ev) = 978307200 * second"
    using parse_rfc3339_rfc3339 [OF y] by (simp add: parse_or_zero_def ev(4))
  have page: "QueryHistory insertion_sort insertion_sort insertion_sort (en_faults calm 0) ?q (rs_db idle_service)
      = Inr ([scanLifecycleRow ev], 1)"
    by (simp add: QueryHistory_def ev(1,2) calm_def no_faults_def left_join_def count_history_def event_in_def in_window_def
        paginate_def defaultHistoryLimit_def)
  then have records: "hqr_Records (history_page ?st ?q) = [scanLifecycleRow ev]" "hqr_Total (history_page ?st ?q) = 1"
    by (simp_all add: history_page_def)
  have fit: "history_fit ?st ?q" unfolding history_fit_def records
    using page y by (simp add: history_query_ok_def record_sendable_def record_times_ok_def scanLifecycleRow_def ev(3,5) time
        unmarshalMetadata_def meta_ok_def int64_def)
  obtain d where d: "connect_cli (a_query_env a_registry) a_grace_config a_shell = Inr d"
    by (simp add: connect_cli_def ConnectCLI_def a_grace_config_def Default_def connectCLIEmbedded_def a_query_env_def a_shell_def os_ReadFile_def io_ok_def)
  have "history_query all_history = Inr ?q" by (simp add: history_query_def history_bound_def all_history_def)
  moreover have "sort_slice (insertion_sort :: HistoryRecord sorter)" by (rule sort_slice_insertion_sort)
  moreover have "qe_request (a_query_env a_registry) 0 = endpoint_reply an_endpoint_env a_registry" by (simp add: a_query_env_def)
  moreover note history_shown [where s = a_registry and cfg = a_grace_config and e = "a_query_env a_registry"
      and ee = an_endpoint_env and h = a_shell and d = d and q = ?q and fl = all_history]
  ultimately show ?thesis using d fit
    by (simp add: Let_def records all_history_def record_id_def scanLifecycleRow_def ev HistoryTypeLifecycle_def)
      (elim exE conjE, (rule exI)+, rule conjI, assumption+)
qed

end
