(* ===== verification/StateBus.thy ===== *)
theory StateBus
  imports QueryLaws McpLaws
begin

text \<open>
  The MCP server and the registry together: the requests that \<^verbatim>\<open>StateClient\<close> sends to the service
  subjects and the messages that the lifecycle consumer takes from the stream reach one ledger, in
  any interleaving and with messages delivered again.
\<close>

section \<open>Events at the registry\<close>

datatype bus_event = Call string json | Delivery env string wire

primrec bus_step :: "endpoint_env \<Rightarrow> bus_event \<Rightarrow> Service \<Rightarrow> Service" where
  "bus_step ee (Call subject j) s = snd (nats_request ee subject (Some (Some j)) s)"
| "bus_step ee (Delivery en subject data) s = processMessage en subject data s"

text \<open>What \<^verbatim>\<open>StateClient\<close> gets back for a request.\<close>

definition state_reply :: "endpoint_env \<Rightarrow> Service \<Rightarrow> string \<Rightarrow> json \<Rightarrow> wire option" where
  "state_reply ee s subject j = fst (nats_request ee subject (Some (Some j)) s)"

text \<open>A delivery that meets no faults.\<close>

definition faultless :: "env \<Rightarrow> bool" where
  "faultless en \<longleftrightarrow> en_faults en = (\<lambda>_. no_faults) \<and> sort_slice (en_sort_flows en)"

section \<open>One request and its response\<close>

definition response_row_of :: "NotificationResponse \<Rightarrow> response_row" where
  "response_row_of r = \<lparr> p_request_id = resp_RequestID r, p_accepted = resp_Accepted r,
     p_action = nullString (resp_Action r), p_text = nullString (resp_Text r),
     p_timestamp = rfc3339 (resp_Timestamp r) \<rparr>"

text \<open>The flow a request belongs to, as the ledger has it: nothing here but its activity changes.\<close>

definition flow_known :: "FlowEntry \<Rightarrow> ledger \<Rightarrow> bool" where
  "flow_known f l \<longleftrightarrow> distinct (map a_flow_id (active_flows l))
     \<and> (\<exists>r \<in> set (active_flows l). a_flow_id r = fe_FlowID f \<and> null_str (a_label r) = fe_Label f
          \<and> null_str (a_display_name r) = fe_DisplayName f \<and> null_str (a_abs_path r) = fe_AbsPath f)"

definition request_context :: "string \<Rightarrow> FlowEntry \<Rightarrow> WriteContext" where
  "request_context u f = \<lparr> wc_Username = u, wc_FlowLabel = fe_Label f, wc_WorkspaceName = fe_DisplayName f,
     wc_WorkspacePath = fe_AbsPath f \<rparr>"

text \<open>
  The registry while a request of a flow and its response come in: a pair of flags says which of the
  two rows the tables have beyond those of \<open>l\<close>.
\<close>

definition recording ::
    "string \<Rightarrow> FlowEntry \<Rightarrow> NotificationRequest \<Rightarrow> NotificationResponse \<Rightarrow> ledger \<Rightarrow> bool \<times> bool \<Rightarrow> Service \<Rightarrow> bool" where
  "recording u f q p l b s \<longleftrightarrow> serving s \<and> rs_username s = u \<and> flow_known f (rs_db s)
     \<and> notification_requests (rs_db s) = notification_requests l @ (if fst b then [request_row_of (request_context u f, q)] else [])
     \<and> notification_responses (rs_db s) = notification_responses l @ (if snd b then [response_row_of p] else [])"

text \<open>A request that is new to the ledger, and can be sent; a response to it.\<close>

definition recordable :: "FlowEntry \<Rightarrow> NotificationRequest \<Rightarrow> NotificationResponse \<Rightarrow> ledger \<Rightarrow> bool" where
  "recordable f q p l \<longleftrightarrow> nr_FlowID q = fe_FlowID f \<and> nr_FlowID q \<noteq> ''''
     \<and> nr_Priority q \<in> {PriorityLow, PriorityNormal, PriorityHigh}
     \<and> four_digit_year (nr_Timestamp q) \<and> int64 (nr_TimeoutSec q)
     \<and> resp_RequestID p = nr_ID q \<and> four_digit_year (resp_Timestamp p)
     \<and> nr_ID q \<notin> q_id ` set (notification_requests l) \<and> nr_ID q \<notin> p_request_id ` set (notification_responses l)"

lemma InsertRequest_row: "\<not> ft 0 \<Longrightarrow> snd (InsertRequest ft wc q l)
    = l\<lparr> notification_requests := insert_request_row (request_row_of (wc, q)) (notification_requests l) \<rparr>"
  by (simp add: InsertRequest_def request_row_of_def)

lemma InsertResponse_row:
  assumes "\<not> ft 0" and "resp_RequestID p \<in> q_id ` set (notification_requests l)"
  shows "snd (InsertResponse fk ft p l)
    = l\<lparr> notification_responses := insert_response_row (response_row_of p) (notification_responses l) \<rparr>"
  using assms by (auto simp: InsertResponse_def response_row_of_def Let_def list_ex_iff)

lemma recorded_request:
  assumes "recordable f q p l" and "recording u f q p l b s" and "serving s'" and "rs_username s' = u"
    and "rs_db s' = (rs_db s)\<lparr> notification_requests := insert_request_row (request_row_of (request_context u f, q))
           (notification_requests (rs_db s)) \<rparr>"
  shows "recording u f q p l (True, snd b) s'"
proof -
  let ?R = "request_row_of (request_context u f, q)"
  have "request_ok ?R" "q_id ?R \<notin> q_id ` set (notification_requests l)"
    using assms(1) by (auto simp: recordable_def request_ok_def request_row_of_def enum_defs)
  then have "insert_request_row ?R (notification_requests l @ (if fst b then [?R] else [])) = notification_requests l @ [?R]"
    by (cases "fst b") (simp_all add: requests.ins_new requests.ins_old)
  with assms(2-5) show ?thesis by (simp add: recording_def flow_known_def)
qed

lemma recorded_response:
  assumes "recordable f q p l" and "recording u f q p l (True, b) s" and "serving s'" and "rs_username s' = u"
    and "rs_db s' = (rs_db s)\<lparr> notification_responses := insert_response_row (response_row_of p)
           (notification_responses (rs_db s)) \<rparr>"
  shows "recording u f q p l (True, True) s'"
proof -
  let ?R = "response_row_of p"
  have "p_request_id ?R \<notin> p_request_id ` set (notification_responses l)"
    using assms(1) by (simp add: recordable_def response_row_of_def)
  then have "insert_response_row ?R (notification_responses l @ (if b then [?R] else [])) = notification_responses l @ [?R]"
    by (cases b) (simp_all add: responses.ins_new responses.ins_old)
  with assms(2-5) show ?thesis by (simp add: recording_def flow_known_def)
qed

lemma request_known:
  "recording u f q p l (True, b) s \<Longrightarrow> nr_ID q \<in> q_id ` set (notification_requests (rs_db s))"
  by (simp add: recording_def request_row_of_def)

lemma write_endpoint_keeps: "serving (snd (write_endpoint txt dec op data s)) = serving s"
  "rs_username (snd (write_endpoint txt dec op data s)) = rs_username s"
  by (simp_all add: write_endpoint_def serving_def split: option.split)

text \<open>The calls of \<^verbatim>\<open>StateClient\<close>.\<close>

lemma recording_serving: "recording u f q p l b s \<Longrightarrow> serving s" "recording u f q p l b s \<Longrightarrow> rs_username s = u"
  by (simp_all add: recording_def)

lemma call_insert_request:
  assumes "recordable f q p l" and "recording u f q p l b s" and "faultless (ee_env ee)"
    and "cmd = \<lparr> irc_Username = u, irc_FlowLabel = fe_Label f, irc_WorkspaceName = fe_DisplayName f,
           irc_WorkspacePath = fe_AbsPath f, irc_Request = q \<rparr>"
  shows "recording u f q p l (True, snd b) (bus_step ee (Call (ServiceInsertRequestSubject u) (enc_irc cmd)) s)"
proof -
  note s = recording_serving [OF assms(2)]
  have "unmarshal dec_irc (Some (enc_irc cmd)) = Some cmd"
    using assms(1) dec_enc_irc [of cmd] by (simp add: unmarshal_def recordable_def assms(4))
  then have "snd (handleInsertRequest (ee_decode_error ee) (ee_env ee) (Some (enc_irc cmd)) s)
      = s\<lparr> rs_db := (rs_db s)\<lparr> notification_requests := insert_request_row (request_row_of (request_context u f, q))
           (notification_requests (rs_db s)) \<rparr> \<rparr>"
    using assms(3) by (simp add: handleInsertRequest_def write_endpoint_def InsertRequest_row faultless_def no_faults_def
        request_context_def assms(4))
  then have "bus_step ee (Call (ServiceInsertRequestSubject u) (enc_irc cmd)) s
      = s\<lparr> rs_db := (rs_db s)\<lparr> notification_requests := insert_request_row (request_row_of (request_context u f, q))
           (notification_requests (rs_db s)) \<rparr> \<rparr>"
    using requests_handled(4) [OF s(1), of ee] by (simp add: s(2) bytes_of_def)
  with s show ?thesis by (intro recorded_request [OF assms(1,2)]) (simp_all add: serving_def)
qed

lemma call_insert_response:
  assumes "recordable f q p l" and "recording u f q p l (True, b) s" and "faultless (ee_env ee)"
  shows "recording u f q p l (True, True)
    (bus_step ee (Call (ServiceInsertResponseSubject u) (enc_isc \<lparr> isc_Response = p \<rparr>)) s)"
proof -
  note s = recording_serving [OF assms(2)]
  have "unmarshal dec_isc (Some (enc_isc \<lparr> isc_Response = p \<rparr>)) = Some \<lparr> isc_Response = p \<rparr>"
    using assms(1) dec_enc_isc [of "\<lparr> isc_Response = p \<rparr>"] by (simp add: unmarshal_def recordable_def)
  moreover have "resp_RequestID p \<in> q_id ` set (notification_requests (rs_db s))"
    using request_known [OF assms(2)] assms(1) by (simp add: recordable_def)
  ultimately have "bus_step ee (Call (ServiceInsertResponseSubject u) (enc_isc \<lparr> isc_Response = p \<rparr>)) s
      = s\<lparr> rs_db := (rs_db s)\<lparr> notification_responses := insert_response_row (response_row_of p)
           (notification_responses (rs_db s)) \<rparr> \<rparr>"
    using requests_handled(5) [OF s(1), of ee] assms(3)
    by (simp add: s(2) bytes_of_def handleInsertResponse_def write_endpoint_def InsertResponse_row faultless_def no_faults_def)
  with s show ?thesis by (intro recorded_response [OF assms(1,2)]) (simp_all add: serving_def)
qed

lemma flow_known_touched:
  assumes "flow_known f l"
  shows "flow_known f (snd (UpdateFlowActivity ft i t l))"
proof -
  let ?g = "\<lambda>r. if a_flow_id r = i then r\<lparr> a_last_activity := rfc3339 t \<rparr> else r"
  from assms obtain r where r: "r \<in> set (active_flows l)" "a_flow_id r = fe_FlowID f" "null_str (a_label r) = fe_Label f"
    "null_str (a_display_name r) = fe_DisplayName f" "null_str (a_abs_path r) = fe_AbsPath f"
    and d: "distinct (map a_flow_id (active_flows l))" by (auto simp: flow_known_def)
  define rows where "rows = map ?g (active_flows l)"
  have ids: "map a_flow_id rows = map a_flow_id (active_flows l)" by (simp add: rows_def)
  have "?g r \<in> set rows" using r(1) by (simp add: rows_def)
  then have "\<exists>r \<in> set rows. a_flow_id r = fe_FlowID f \<and> null_str (a_label r) = fe_Label f
      \<and> null_str (a_display_name r) = fe_DisplayName f \<and> null_str (a_abs_path r) = fe_AbsPath f"
    by (rule bexI [rotated]) (simp add: r)
  with d have "flow_known f (l\<lparr> active_flows := rows \<rparr>)" by (simp add: flow_known_def ids)
  with assms show ?thesis by (simp add: UpdateFlowActivity_def rows_def)
qed

lemma call_update_activity:
  assumes "recording u f q p l b s"
  shows "recording u f q p l b (bus_step ee (Call (ServiceUpdateActivitySubject u) j) s)"
proof -
  note s = recording_serving [OF assms]
  let ?s = "snd (handleUpdateActivity (ee_decode_error ee) (ee_env ee) (Some j) s)"
  have "bus_step ee (Call (ServiceUpdateActivitySubject u) j) s = ?s"
    using requests_handled(7) [OF s(1), of ee] by (simp add: s(2) bytes_of_def)
  moreover have "serving ?s" "rs_username ?s = u" using s by (simp_all add: handleUpdateActivity_def write_endpoint_keeps)
  moreover have "flow_known f (rs_db ?s) \<and> notification_requests (rs_db ?s) = notification_requests (rs_db s)
      \<and> notification_responses (rs_db ?s) = notification_responses (rs_db s)"
    using assms flow_known_touched
    by (auto simp: handleUpdateActivity_def write_endpoint_def recording_def UpdateFlowActivity_def split: option.split)
  ultimately show ?thesis using assms by (simp add: recording_def)
qed

text \<open>The messages of the stream.\<close>

lemma request_suffix: "subjectSuffix (FlowRequestSubject u x) = ''request''"
  using suffix_append [of "''request''" "''resystems.renotify.'' @ u @ ''.flow.'' @ x"]
  by (simp add: FlowRequestSubject_def)

lemma response_suffix: "subjectSuffix (FlowResponseSubject u x) = ''response''"
  using suffix_append [of "''response''" "''resystems.renotify.'' @ u @ ''.flow.'' @ x"]
  by (simp add: FlowResponseSubject_def)

lemma lookup_known:
  assumes "flow_known f l" and "sort_slice srt" and "\<not> ft 0" and "fe_FlowID f \<noteq> ''''"
  obtains g where "LookupActiveFlow srt ft (fe_FlowID f) l = Inr (Some g)" "af_Label g = fe_Label f"
    "af_DisplayName g = fe_DisplayName f" "af_AbsPath g = fe_AbsPath f"
proof -
  from assms(1) obtain r where r: "r \<in> set (active_flows l)" "a_flow_id r = fe_FlowID f" "null_str (a_label r) = fe_Label f"
    "null_str (a_display_name r) = fe_DisplayName f" "null_str (a_abs_path r) = fe_AbsPath f"
    and d: "distinct (map a_flow_id (active_flows l))" by (auto simp: flow_known_def)
  let ?q = "\<lparr> afq_FlowID = fe_FlowID f, afq_DaemonID = '''', afq_WorkspaceID = '''' \<rparr>"
  let ?rows = "filter (flow_matches ?q) (active_flows l)"
  have "set ?rows = {r}"
    using r d assms(4) by (auto simp: flow_matches_def dest: map_of_is_SomeI intro: inj_onD [of a_flow_id] simp: distinct_map)
  then have "set (srt newest_first ?rows) = {r}" using sorted_rows(2) [OF assms(2)] by simp
  then obtain rs where "srt newest_first ?rows = r # rs" by (cases "srt newest_first ?rows") auto
  then have "LookupActiveFlow srt ft (fe_FlowID f) l = Inr (Some (scan_flow r))"
    using assms(3) by (simp add: LookupActiveFlow_def ListActiveFlows_def)
  then show ?thesis by (rule that) (simp_all add: scan_flow_def r)
qed

lemma deliver_request:
  assumes "recordable f q p l" and "recording u f q p l b s" and "faultless en"
  shows "recording u f q p l (True, snd b) (bus_step ee (Delivery en (FlowRequestSubject u x) (Some (enc_nr q))) s)"
proof -
  note s = recording_serving [OF assms(2)]
  have "unmarshal dec_nr (Some (enc_nr q)) = Some q"
    using assms(1) dec_enc_nr [of q] by (simp add: unmarshal_def recordable_def)
  moreover obtain g where g: "LookupActiveFlow (en_sort_flows en) (en_faults en 0) (fe_FlowID f) (rs_db s) = Inr (Some g)"
    "af_Label g = fe_Label f" "af_DisplayName g = fe_DisplayName f" "af_AbsPath g = fe_AbsPath f"
    by (rule lookup_known [of f "rs_db s" "en_sort_flows en" "en_faults en 0"])
      (use assms in \<open>auto simp: recording_def recordable_def faultless_def no_faults_def\<close>)
  moreover have "nr_FlowID q = fe_FlowID f" using assms(1) by (simp add: recordable_def)
  ultimately have "bus_step ee (Delivery en (FlowRequestSubject u x) (Some (enc_nr q))) s
      = ack (FlowRequestSubject u x) (s\<lparr> rs_db := (rs_db s)\<lparr> notification_requests :=
          insert_request_row (request_row_of (request_context u f, q)) (notification_requests (rs_db s)) \<rparr> \<rparr>)"
    using assms(3) s by (simp add: processMessage_def processRequest_def request_suffix Let_def InsertRequest_row faultless_def
        no_faults_def request_context_def)
  with s show ?thesis by (intro recorded_request [OF assms(1,2)]) (simp_all add: serving_def ack_def)
qed

lemma deliver_response_message:
  assumes "recordable f q p l" and "recording u f q p l (True, b) s" and "faultless en"
  shows "recording u f q p l (True, True) (bus_step ee (Delivery en (FlowResponseSubject u x) (Some (enc_resp p))) s)"
proof -
  note s = recording_serving [OF assms(2)]
  have "unmarshal dec_resp (Some (enc_resp p)) = Some p"
    using assms(1) dec_enc_resp [of p] by (simp add: unmarshal_def recordable_def)
  moreover have "\<not> isErrorResponse (Some (enc_resp p))"
    by (simp add: isErrorResponse_def unmarshal_def enc_resp_def dec_encoded omit_def lower_def)
  moreover have "resp_RequestID p \<in> q_id ` set (notification_requests (rs_db s))"
    using request_known [OF assms(2)] assms(1) by (simp add: recordable_def)
  ultimately have "bus_step ee (Delivery en (FlowResponseSubject u x) (Some (enc_resp p))) s
      = ack (FlowResponseSubject u x) (s\<lparr> rs_db := (rs_db s)\<lparr> notification_responses :=
          insert_response_row (response_row_of p) (notification_responses (rs_db s)) \<rparr> \<rparr>)"
    using assms(3) by (simp add: processMessage_def processResponse_def response_suffix Let_def InsertResponse_row faultless_def
        no_faults_def)
  with s show ?thesis by (intro recorded_response [OF assms(1,2)]) (simp_all add: serving_def ack_def)
qed

section \<open>Interleavings\<close>

text \<open>In a sequence of events no response comes before the first request.\<close>

fun answers_follow :: "'e set \<Rightarrow> 'e set \<Rightarrow> bool \<Rightarrow> 'e list \<Rightarrow> bool" where
  "answers_follow RQ RS seen [] = True"
| "answers_follow RQ RS seen (x # xs) =
     ((x \<in> RS \<longrightarrow> seen) \<and> answers_follow RQ RS (seen \<or> x \<in> RQ) xs)"

lemma answers_follow_seen: "answers_follow RQ RS seen xs \<Longrightarrow> answers_follow RQ RS True xs"
  by (induction xs arbitrary: seen) auto

lemma answers_follow_shuffle:
  "zs \<in> shuffles xs ys \<Longrightarrow> answers_follow RQ RS seen xs \<Longrightarrow> answers_follow RQ RS seen ys \<Longrightarrow> answers_follow RQ RS seen zs"
proof (induction xs ys arbitrary: zs seen rule: shuffles.induct)
  case (3 x xs y ys)
  have seen: "answers_follow RQ RS seen zs \<Longrightarrow> answers_follow RQ RS (seen \<or> b) zs" for seen b zs
    by (cases b) (auto intro: answers_follow_seen)
  from "3.prems"(1) consider zs' where "zs = x # zs'" "zs' \<in> shuffles xs (y # ys)"
    | zs' where "zs = y # zs'" "zs' \<in> shuffles (x # xs) ys" by auto
  then show ?case
  proof cases
    case 1
    with "3.prems" show ?thesis using "3.IH"(1) [OF 1(2), of "seen \<or> x \<in> RQ"] seen [of seen "y # ys" "x \<in> RQ"] by auto
  next
    case 2
    with "3.prems" show ?thesis using "3.IH"(2) [OF 2(2), of "seen \<or> y \<in> RQ"] seen [of seen "x # xs" "y \<in> RQ"] by auto
  qed
qed auto

lemma answers_follow_none: "set xs \<inter> RS = {} \<Longrightarrow> answers_follow RQ RS seen xs"
  by (induction xs arbitrary: seen) auto

lemma answers_follow_first:
  "(xs \<noteq> [] \<longrightarrow> hd xs \<in> RQ) \<Longrightarrow> RQ \<inter> RS = {} \<Longrightarrow> answers_follow RQ RS False xs"
proof (cases xs)
  case (Cons x xs')
  have "answers_follow RQ RS True ys" for ys by (induction ys) auto
  then show "(xs \<noteq> [] \<longrightarrow> hd xs \<in> RQ) \<Longrightarrow> RQ \<inter> RS = {} \<Longrightarrow> answers_follow RQ RS False xs" using Cons by auto
qed simp

text \<open>
  Two flags follow a run: the first is set by an event of \<open>RQ\<close>, the second by one of \<open>RS\<close>, which
  needs the first.
\<close>

lemma flags_follow:
  assumes "\<And>e b s. e \<in> RQ \<Longrightarrow> I b s \<Longrightarrow> I (True, snd b) (step e s)"
    and "\<And>e b s. e \<in> RS \<Longrightarrow> I (True, b) s \<Longrightarrow> I (True, True) (step e s)"
    and "\<And>e b s. e \<in> UP \<Longrightarrow> I b s \<Longrightarrow> I b (step e s)"
    and "set run \<subseteq> RQ \<union> RS \<union> UP" and "answers_follow RQ RS q run" and "I (q, p) s" and "RQ \<inter> RS = {}" "UP \<inter> (RQ \<union> RS) = {}"
  shows "I (q \<or> set run \<inter> RQ \<noteq> {}, p \<or> set run \<inter> RS \<noteq> {}) (fold step run s)"
  using assms(4-6)
proof (induction run arbitrary: q p s)
  case (Cons e run)
  then consider "e \<in> RQ" | "e \<in> RS" | "e \<in> UP" by auto
  then show ?case
  proof cases
    case 1
    with assms(7) have "e \<notin> RS" by blast
    with 1 Cons.prems Cons.IH [of True p "step e s"] assms(1) [OF 1 Cons.prems(3)] show ?thesis by auto
  next
    case 2
    with assms(7) have e: "e \<notin> RQ" by blast
    have q: "q" using 2 Cons.prems(2) by auto
    with Cons.prems(3) have "I (True, True) (step e s)" using assms(2) [OF 2] by simp
    with 2 e q Cons.prems Cons.IH [of True True "step e s"] show ?thesis by auto
  next
    case 3
    with assms(8) have "e \<notin> RQ" "e \<notin> RS" by auto
    with 3 Cons.prems Cons.IH [of q p "step e s"] assms(3) [OF 3 Cons.prems(3)] show ?thesis by auto
  qed
qed simp

text \<open>
  Whatever the interleaving of the three calls with deliveries of the two messages: both rows are
  there once.
\<close>

lemma recorded_once:
  assumes ok: "recordable f q p l" and s: "recording u f q p l (False, False) s"
    and env: "faultless (ee_env ee)" "faultless en"
    and cmd: "cmd = \<lparr> irc_Username = u, irc_FlowLabel = fe_Label f, irc_WorkspaceName = fe_DisplayName f,
           irc_WorkspacePath = fe_AbsPath f, irc_Request = q \<rparr>"
    and calls: "calls = [Call (ServiceInsertRequestSubject u) (enc_irc cmd), Call (ServiceUpdateActivitySubject u) j,
           Call (ServiceInsertResponseSubject u) (enc_isc \<lparr> isc_Response = p \<rparr>)]"
    and msgs: "set msgs \<subseteq> {Delivery en (FlowRequestSubject u x) (Some (enc_nr q)), Delivery en (FlowResponseSubject u x) (Some (enc_resp p))}"
      "msgs \<noteq> [] \<longrightarrow> hd msgs = Delivery en (FlowRequestSubject u x) (Some (enc_nr q))"
    and run: "run \<in> shuffles calls msgs"
  shows "recording u f q p l (True, True) (fold (bus_step ee) run s)"
proof -
  let ?RQ = "{Call (ServiceInsertRequestSubject u) (enc_irc cmd), Delivery en (FlowRequestSubject u x) (Some (enc_nr q))}"
  let ?RS = "{Call (ServiceInsertResponseSubject u) (enc_isc \<lparr> isc_Response = p \<rparr>), Delivery en (FlowResponseSubject u x) (Some (enc_resp p))}"
  let ?UP = "{Call (ServiceUpdateActivitySubject u) j}"
  have neq: "ServiceInsertRequestSubject u \<noteq> ServiceInsertResponseSubject u"
    "ServiceUpdateActivitySubject u \<notin> {ServiceInsertRequestSubject u, ServiceInsertResponseSubject u}"
    "FlowRequestSubject u x \<noteq> FlowResponseSubject u x"
    by (simp_all add: service_subjects FlowRequestSubject_def FlowResponseSubject_def)
  have disj: "?RQ \<inter> ?RS = {}" "?UP \<inter> (?RQ \<union> ?RS) = {}" using neq by auto
  have set: "set run = set calls \<union> set msgs" by (rule set_shuffles [OF run])
  have "answers_follow ?RQ ?RS False calls" "answers_follow ?RQ ?RS False msgs"
    using calls msgs(2) disj by (auto intro!: answers_follow_first)
  then have follow: "answers_follow ?RQ ?RS False run" by (rule answers_follow_shuffle [OF run])
  have sub: "set run \<subseteq> ?RQ \<union> ?RS \<union> ?UP" using set calls msgs(1) by auto
  have "recording u f q p l (False \<or> set run \<inter> ?RQ \<noteq> {}, False \<or> set run \<inter> ?RS \<noteq> {}) (fold (bus_step ee) run s)"
  proof (rule flags_follow [where I = "recording u f q p l" and step = "bus_step ee" and UP = "?UP"])
    show "recording u f q p l (True, snd b) (bus_step ee e s)" if "e \<in> ?RQ" "recording u f q p l b s" for e b s
      using that call_insert_request [OF ok that(2) env(1) cmd] deliver_request [OF ok that(2) env(2), of ee x] by auto
    show "recording u f q p l (True, True) (bus_step ee e s)" if "e \<in> ?RS" "recording u f q p l (True, b) s" for e b s
      using that call_insert_response [OF ok that(2) env(1)] deliver_response_message [OF ok that(2) env(2), of ee x] by auto
    show "recording u f q p l b (bus_step ee e s)" if "e \<in> ?UP" "recording u f q p l b s" for e b s
      using that call_update_activity [OF that(2), of ee j] by auto
  qed (fact sub follow s disj)+
  moreover have "set run \<inter> ?RQ \<noteq> {}" "set run \<inter> ?RS \<noteq> {}" using set calls by auto
  ultimately show ?thesis by simp
qed

section \<open>The MCP server's side\<close>

text \<open>A request to the state service is recorded, whatever comes back.\<close>

lemma writeRequest_sent: "snd (writeRequest en subject (Some j) s) = s\<lparr> sv_calls := sv_calls s @ [(subject, j)] \<rparr>"
  by (simp add: writeRequest_def Let_def split: option.split)

lemma lookupFlow_registry:
  assumes "faultless (ee_env ee)" and "serving s" and "rows_ok (rs_db s)" and "ledger_ok (rs_db s)"
    and "r \<in> set (active_flows (rs_db s))" and "a_flow_id r = fid" and "fid \<noteq> ''''"
    and "sv_has_state m" and "sv_username m = rs_username s" and "me_reply en = state_reply ee s"
  shows "lookupFlow en fid m = Inr (client_entry r)"
proof -
  let ?q = "\<lparr> fq_FlowID = fid, fq_DaemonID = '''', fq_WorkspaceID = '''' \<rparr>"
  have reply: "me_reply en (ServiceFlowsSubject (rs_username s)) (enc_fq ?q)
      = Some (handleFlowsQuery (ee_env ee) (Some (Some (enc_fq ?q))) s)"
    by (simp add: assms(10) state_reply_def requests_handled(1) [OF assms(2)])
  have d: "distinct (map a_flow_id (active_flows (rs_db s)))" using assms(4) by (simp add: ledger_ok_def)
  let ?rows = "filter (flow_matches (flow_filter ?q)) (active_flows (rs_db s))"
  have "set ?rows = {r}"
    using assms(5-7) d by (auto simp: flow_matches_def flow_filter_def distinct_map intro: inj_onD [of a_flow_id])
  then have "set (en_sort_flows (ee_env ee) newest_first ?rows) = {r}"
    using assms(1) sorted_rows(2) by (simp add: faultless_def)
  then obtain rs where rows: "en_sort_flows (ee_env ee) newest_first ?rows = r # rs"
    by (cases "en_sort_flows (ee_env ee) newest_first ?rows") auto
  have "unmarshal dec_fr (handleFlowsQuery (ee_env ee) (Some (Some (enc_fq ?q))) s) = Some \<lparr> fr_Flows = map client_entry (r # rs) \<rparr>"
    unfolding rows [symmetric] by (rule flows_reply_decoded) (use assms(1,3) in \<open>simp_all add: faultless_def no_faults_def\<close>)
  then show ?thesis
    using assms(6,8,9) by (simp add: lookupFlow_def LookupFlow_def Let_def reply client_entry_def flow_entry_def scan_flow_def)
qed

text \<open>What a successful ask leaves behind.\<close>

definition ask_calls :: "menv \<Rightarrow> askArgs \<Rightarrow> FlowEntry \<Rightarrow> Server \<Rightarrow> (string \<times> json) list" where
  "ask_calls en args flow m =
     [(ServiceInsertRequestSubject (sv_username m), enc_irc (insert_cmd m flow (ask_request en args flow m))),
      (ServiceUpdateActivitySubject (sv_username m), enc_uac \<lparr> uac_FlowID = ask_FlowID args, uac_Timestamp = me_now en \<rparr>)]"

lemma startTimeoutTimer_keeps:
  "sv_calls (startTimeoutTimer fid nid k s) = sv_calls s" "sv_published (startTimeoutTimer fid nid k s) = sv_published s"
  "sv_goroutines (startTimeoutTimer fid nid k s) = sv_goroutines s" "sv_has_state (startTimeoutTimer fid nid k s) = sv_has_state s"
  "sv_username (startTimeoutTimer fid nid k s) = sv_username s" "sv_decisions (startTimeoutTimer fid nid k s) = sv_decisions s"
  by (simp_all add: startTimeoutTimer_def split: option.split)

lemma ask_succeeds:
  assumes "lookupFlow en (ask_FlowID args) m = Inr flow" and "sv_has_state m" and "four_digit_year (me_now en)"
    and "me_js_ok en (FlowRequestSubject (sv_username m) (ask_FlowID args))"
  obtains m1 where "handleAsk en args m = (Inr \<lparr> askr_NotificationID = me_id en,
       askr_ResourceURI = DecisionResourceURI (me_id en), askr_Timestamp = rfc3339 (me_now en) \<rparr>, m1)"
    "sv_published m1 = sv_published m @
       [(FlowRequestSubject (sv_username m) (ask_FlowID args), me_id en, MRequest (ask_request en args flow m))]"
    "sv_calls m1 = sv_calls m @ ask_calls en args flow m"
    "sv_has_state m1" "sv_username m1 = sv_username m"
    "gm_get (sv_goroutines m1) (sv_next m) = Some \<lparr> sg_notification = me_id en, sg_flow = ask_FlowID args,
       sg_listening = False, sg_inbox = [], sg_cancelled = False \<rparr>"
proof -
  let ?q = "ask_request en args flow m"
  have t: "message_time (MRequest ?q) = me_now en" "nr_Timestamp ?q = me_now en"
    by (simp_all add: message_time_def ask_request_def)
  show ?thesis
    by (rule that [of "snd (handleAsk en args m)"])
      (use assms in \<open>simp_all add: handleAsk_def Let_def PublishJSON_def t client_InsertRequest_def
        client_UpdateActivity_def marshal_def writeRequest_sent startTimeoutTimer_keeps startResponseSubscriber_def ask_calls_def
        insert_cmd_def\<close>)
qed

lemma probe_of_response: "probe_code (Some (enc_resp p)) = ''''"
  by (simp add: probe_code_def enc_resp_def e_str_def e_boolp_opt_def e_str_opt_def e_time_def lower_def split: option.split)

lemma answer_calls:
  assumes "handle_next en n s = Ret s'" and "gm_get (sv_goroutines s) n = Some g" and "sg_inbox g = [Some (enc_resp p)]"
    and "four_digit_year (resp_Timestamp p)" and "sv_has_state s"
  shows "sv_calls s' = sv_calls s @ [(ServiceInsertResponseSubject (sv_username s), enc_isc \<lparr> isc_Response = p \<rparr>)]"
    and "sv_published s' = sv_published s"
proof -
  have dec: "unmarshal dec_resp (Some (enc_resp p)) = Some p" using dec_enc_resp [OF assms(4)] by (simp add: unmarshal_def)
  have ends: "sv_calls (end_subscriber n x) = sv_calls x" "sv_published (end_subscriber n x) = sv_published x" for x
    by (simp_all add: end_subscriber_def cancel_goroutines_def Let_def split: option.split prod.split)
  from assms show "sv_calls s' = sv_calls s @ [(ServiceInsertResponseSubject (sv_username s), enc_isc \<lparr> isc_Response = p \<rparr>)]"
    "sv_published s' = sv_published s"
    by (auto simp: handle_next_def handleResponse_def probe_of_response dec with_decisions_def Let_def ends ResourceUpdated_def
        client_InsertResponse_def marshal_def writeRequest_sent)
qed

section \<open>A question from end to end\<close>

text \<open>The deliveries of a question's two messages: any number of times, the request first.\<close>

definition deliveries_of :: "env \<Rightarrow> string \<Rightarrow> string \<Rightarrow> NotificationRequest \<Rightarrow> NotificationResponse \<Rightarrow> bus_event list \<Rightarrow> bool" where
  "deliveries_of en u fid q p msgs \<longleftrightarrow>
     set msgs \<subseteq> {Delivery en (FlowRequestSubject u fid) (Some (enc_nr q)), Delivery en (FlowResponseSubject u fid) (Some (enc_resp p))}
     \<and> (msgs \<noteq> [] \<longrightarrow> hd msgs = Delivery en (FlowRequestSubject u fid) (Some (enc_nr q)))"

text \<open>
  C3 (equivalence): a question and its answer are recorded once, whichever way they reach the ledger. For
  an ask about an active flow, with the MCP server's state client connected to the running registry:
  the ask succeeds and publishes one request with the new id; when the response comes to the goroutine's
  inbox it resolves the decision to that answer; and after the three calls of the state client,
  interleaved in any way with deliveries of the two messages to the lifecycle consumer (none, one or
  many of each, as long as the request comes first), the ledger has exactly one more request, as
  it was published, with the flow's label, name and path, and one more response.
\<close>

theorem question_recorded_once:
  assumes registry: "serving s" "rows_ok (rs_db s)" "ledger_ok (rs_db s)" "faultless (ee_env ee)" "faultless en_c"
    and server: "mcp_ok m" "sv_has_state m" "sv_username m = rs_username s" "unused (me_id en) m"
    and connected: "me_reply en = state_reply ee s" "me_js_ok en (FlowRequestSubject (rs_username s) (ask_FlowID args))"
    and flow: "r \<in> set (active_flows (rs_db s))" "a_flow_id r = ask_FlowID args" "ask_FlowID args \<noteq> ''''"
    and question: "four_digit_year (me_now en)" "or_default (ask_Priority args) PriorityNormal \<in> {PriorityLow, PriorityNormal, PriorityHigh}"
      "int64 (ask_TimeoutSec args)" "int64 (whole_seconds (sv_default_timeout m))"
    and new: "me_id en \<notin> q_id ` set (notification_requests (rs_db s))" "me_id en \<notin> p_request_id ` set (notification_responses (rs_db s))"
    and answer: "resp_RequestID p = me_id en" "four_digit_year (resp_Timestamp p)"
  shows "\<exists>a m1 m2 d calls. handleAsk en args m = (Inr a, m1)
    \<and> handle_next en' (sv_next m)
        (deliver_response (ask_FlowID args) (Some (enc_resp p)) (subscribe_response True (sv_next m) m1)) = Ret m2
    \<and> await_decision (me_id en) k m2 = Await_done (answered p d)
    \<and> sv_published m2 = sv_published m @ [(FlowRequestSubject (rs_username s) (ask_FlowID args), me_id en,
         MRequest (ask_request en args (client_entry r) m))]
    \<and> sv_calls m2 = sv_calls m @ calls
    \<and> (\<forall>msgs run. deliveries_of en_c (rs_username s) (ask_FlowID args) (ask_request en args (client_entry r) m) p msgs
         \<and> run \<in> shuffles (map (\<lambda>(subject, j). Call subject j) calls) msgs \<longrightarrow>
         notification_requests (rs_db (fold (bus_step ee) run s)) = notification_requests (rs_db s)
           @ [request_row_of (request_context (rs_username s) (client_entry r), ask_request en args (client_entry r) m)]
         \<and> notification_responses (rs_db (fold (bus_step ee) run s)) = notification_responses (rs_db s) @ [response_row_of p])"
proof -
  let ?u = "rs_username s" and ?fid = "ask_FlowID args" and ?f = "client_entry r" and ?n = "sv_next m"
  let ?q = "ask_request en args ?f m"
  have look: "lookupFlow en ?fid m = Inr ?f"
    by (rule lookupFlow_registry [OF registry(4,1,2,3) flow server(2,3) connected(1)])
  obtain a m1 where m1: "handleAsk en args m = (Inr a, m1)"
    "sv_published m1 = sv_published m @ [(FlowRequestSubject ?u ?fid, me_id en, MRequest ?q)]"
    "sv_calls m1 = sv_calls m @ ask_calls en args ?f m" "sv_has_state m1" "sv_username m1 = sv_username m"
    and g: "gm_get (sv_goroutines m1) ?n = Some \<lparr> sg_notification = me_id en, sg_flow = ?fid, sg_listening = False,
      sg_inbox = [], sg_cancelled = False \<rparr>"
    by (rule ask_succeeds [OF look server(2) question(1)]) (use connected(2) server(3) in simp_all)
  have ok1: "mcp_ok m1" using mcp_ok_ask [OF server(1,4), of args] m1(1) by simp
  let ?sub = "subscribe_response True ?n m1"
  let ?del = "deliver_response ?fid (Some (enc_resp p)) ?sub"
  let ?g = "\<lparr> sg_notification = me_id en, sg_flow = ?fid, sg_listening = True, sg_inbox = [Some (enc_resp p)], sg_cancelled = False \<rparr>"
  have ok2: "mcp_ok ?del"
    using mcp_ok_core [OF mcp_ok_subscribe [OF ok1] deliver_core] mcp_ok_subscribe [OF ok1, of True ?n]
    by (simp add: mcp_ok_def deliver_response_def)
  have g2: "gm_get (sv_goroutines ?del) ?n = Some ?g"
    by (simp add: deliver_response_def subscribe_response_def g get_mapped [where c = "\<lambda>n h. sg_listening h \<and> sg_flow h = ?fid"])
  have del: "sv_published ?del = sv_published m1" "sv_calls ?del = sv_calls m1" "sv_has_state ?del" "sv_username ?del = ?u"
    using m1(4,5) server(3) by (simp_all add: deliver_response_def subscribe_response_def g)
  obtain d m2 where d: "\<not> dr_Decided d" and m2: "handle_next en' ?n ?del = Ret m2"
    and out: "\<And>r'. outcome_of en' (Some (enc_resp p)) d = Some r' \<Longrightarrow>
        resource_of (sv_decisions m2) = (resource_of (sv_decisions ?del))(me_id en \<mapsto> r')"
    by (rule handle_next_result [OF ok2 g2, of "Some (enc_resp p)" "[]" en']) auto
  have "unmarshal dec_resp (Some (enc_resp p)) = Some p" using dec_enc_resp [OF answer(2)] by (simp add: unmarshal_def)
  then have "resource_of (sv_decisions m2) (me_id en) = Some (answered p d)"
    using out by (simp add: outcome_of_def probe_of_response)
  then have await: "await_decision (me_id en) k m2 = Await_done (answered p d)"
    by (simp add: await_decision_def Get_decision_def resource_of_def answered_def)
  note sent = answer_calls [OF m2 g2 _ answer(2) del(3)]
  let ?calls = "ask_calls en args ?f m @ [(ServiceInsertResponseSubject ?u, enc_isc \<lparr> isc_Response = p \<rparr>)]"
  have calls: "sv_calls m2 = sv_calls m @ ?calls" using sent(1) by (simp add: del m1(3))
  have pub: "sv_published m2 = sv_published m @ [(FlowRequestSubject ?u ?fid, me_id en, MRequest ?q)]"
    using sent(2) by (simp add: del m1(2))
  have ok: "recordable ?f ?q p (rs_db s)"
    using flow question new answer
    by (auto simp: recordable_def ask_request_def client_entry_def flow_entry_def scan_flow_def)
  have start: "recording ?u ?f ?q p (rs_db s) (False, False) s"
    using registry(1,3) flow(1) by (auto simp: recording_def flow_known_def ledger_ok_def client_entry_def flow_entry_def scan_flow_def)
  have "recording ?u ?f ?q p (rs_db s) (True, True) (fold (bus_step ee) run s)"
    if "deliveries_of en_c ?u ?fid ?q p msgs" "run \<in> shuffles (map (\<lambda>(subject, j). Call subject j) ?calls) msgs" for msgs run
    by (rule recorded_once [where x = ?fid, OF ok start registry(4,5) _ _ _ _ that(2)])
      (use that(1) in \<open>simp_all add: deliveries_of_def ask_calls_def server(3) insert_cmd_def\<close>)
  then show ?thesis using m1(1) m2 await pub calls by (auto simp: recording_def)
qed

text \<open>An ask about the only flow of a registry, and the user's yes.\<close>

definition an_ask :: askArgs where
  "an_ask = \<lparr> ask_FlowID = ''fl_1'', ask_Title = ''Deploy?'', ask_Body = '''', ask_ResponseTypes = [''confirm''],
     ask_Priority = '''', ask_Source = '''', ask_Actions = [], ask_TimeoutSec = 60 \<rparr>"

definition a_connected_menv :: menv where
  "a_connected_menv = a_menv\<lparr> me_reply := state_reply an_endpoint_env a_registry \<rparr>"

theorem question_recorded_once_witness:
  "\<exists>a m1 m2 d. handleAsk a_connected_menv an_ask a_mcp = (Inr a, m1)
    \<and> handle_next a_menv 0 (deliver_response ''fl_1'' (Some (enc_resp an_answer)) (subscribe_response True 0 m1)) = Ret m2
    \<and> await_decision ''ntf_1'' 0 m2 = Await_done (answered an_answer d)
    \<and> length (sv_published m2) = 1"
proof (rule idle_flow)
  fix r assume r: "active_flows (rs_db idle_service) = [r]" "a_flow_id r = ''fl_1''"
  have f: "faultless calm" by (simp add: faultless_def calm_def sort_slice_insertion_sort)
  have m: "mcp_ok a_mcp" "sv_has_state a_mcp" "sv_username a_mcp = rs_username idle_service" "unused ''ntf_1'' a_mcp"
    "sv_next a_mcp = 0" "sv_published a_mcp = []" "sv_default_timeout a_mcp = 300 * second"
    unfolding a_mcp_def by (rule mcp_ok_new)
      (simp_all add: new_Server_def idle_service_def a_service_def unused_def resource_of_def NewDecisionStore_def)
  have e: "notification_requests (rs_db idle_service) = []" "notification_responses (rs_db idle_service) = []"
    by (simp_all add: idle_service_def RegisterFlow_def no_faults_def empty_ledger_def a_flow_def Let_def a_service_def
        insert_flow_row_def)
  have w: "whole_seconds 300000000000 = 300" by code_simp
  have "\<exists>a m1 m2 d calls. handleAsk a_connected_menv an_ask a_mcp = (Inr a, m1)
    \<and> handle_next a_menv (sv_next a_mcp)
        (deliver_response (ask_FlowID an_ask) (Some (enc_resp an_answer)) (subscribe_response True (sv_next a_mcp) m1)) = Ret m2
    \<and> await_decision (me_id a_connected_menv) 0 m2 = Await_done (answered an_answer d)
    \<and> sv_published m2 = sv_published a_mcp @ [(FlowRequestSubject (rs_username a_registry) (ask_FlowID an_ask), me_id a_connected_menv,
         MRequest (ask_request a_connected_menv an_ask (client_entry r) a_mcp))]
    \<and> sv_calls m2 = sv_calls a_mcp @ calls
    \<and> (\<forall>msgs run. deliveries_of calm (rs_username a_registry) (ask_FlowID an_ask)
           (ask_request a_connected_menv an_ask (client_entry r) a_mcp) an_answer msgs
         \<and> run \<in> shuffles (map (\<lambda>(subject, j). Call subject j) calls) msgs \<longrightarrow>
         notification_requests (rs_db (fold (bus_step an_endpoint_env) run a_registry)) = notification_requests (rs_db a_registry)
           @ [request_row_of (request_context (rs_username a_registry) (client_entry r),
                ask_request a_connected_menv an_ask (client_entry r) a_mcp)]
         \<and> notification_responses (rs_db (fold (bus_step an_endpoint_env) run a_registry))
           = notification_responses (rs_db a_registry) @ [response_row_of an_answer])"
    by (rule question_recorded_once)
      (simp_all add: m f r e w idle_ledger idle_rows a_connected_menv_def a_menv_def an_ask_def an_answer_def zero_resp_def
        four_digit_year_def or_default_def int64_def)
  then show ?thesis by (auto simp: m an_ask_def a_connected_menv_def a_menv_def)
qed

section \<open>Two ways to lose\<close>

text \<open>
  The request is published before the goroutine of the ask subscribes, and its subscription has no
  memory: an answer that arrives in between is not in its inbox afterwards.
\<close>

lemma early_answer_lost:
  assumes "gm_get (sv_goroutines m) n = Some g" and "\<not> sg_listening g"
  shows "gm_get (sv_goroutines (subscribe_response True n (deliver_response fid data m))) n = Some (g\<lparr> sg_listening := True \<rparr>)"
  using assms by (simp add: subscribe_response_def deliver_response_def
      get_mapped [where c = "\<lambda>n h. sg_listening h \<and> sg_flow h = fid"])

text \<open>A stop publishes the failed event also when the flow is unknown, say because it has ended.\<close>

lemma resolve_all_published: "resolve_all ts nids s = Ret s' \<Longrightarrow> sv_published s' = sv_published s"
proof (induction nids arbitrary: s)
  case (Cons nid nids)
  from Cons.prems obtain s1 where s1: "with_decisions s (ResolveTimeout nid ts (sv_decisions s)) = Ret s1"
    "resolve_all ts nids (ResourceUpdated (DecisionResourceURI nid) s1) = Ret s'" by auto
  from s1(1) have "sv_published s1 = sv_published s" by (auto simp: with_decisions_def)
  with Cons.IH [OF s1(2)] show ?case by (simp add: ResourceUpdated_def)
qed simp

lemma stop_published:
  assumes "handleStop en cmd s = Ret s'" and "lookupFlow en (ij_FlowID cmd) s = Inl err"
    and "me_js_ok en (FlowLifecycleSubject (sv_username s) (ij_FlowID cmd))" and "four_digit_year (ij_Timestamp cmd)"
  shows "sv_published s' = sv_published s @ [(FlowLifecycleSubject (sv_username s) (ij_FlowID cmd), ij_FlowID cmd @ ''-stopped'',
    MEvent (flow_event (ij_FlowID cmd) (sv_daemonID s) '''' FlowFailed (ij_Timestamp cmd)))]"
  using assms by (auto simp: handleStop_def with_interjections_def Let_def resolveDecisionsForFlow_def known_workspace_def
      lookupFlow_def PublishJSON_def message_time_def flow_event_def ResourceUpdated_def dest!: resolve_all_published)

end
