(* ===== verification/Telemetry.thy ===== *)
theory Telemetry
  imports Queries
begin

text \<open>
  The telemetry command (cli/internal/command/telemetry.go): listing the incident reports in the
  telemetry stream and writing them to a directory. The stream, the consumer and the pull requests
  are NATS: the messages are a sequence, and how many of them each request delivers is an argument.
  A message that arrives after the stream was counted is one more element of the sequence.
\<close>

section \<open>Reports\<close>

record telemetryDetails =
  td_ExceptionType :: string
  td_Message :: string
  td_StackTrace :: string

record telemetryReport =
  tr_ReportID :: string
  tr_DeviceID :: string
  tr_Timestamp :: string
  tr_IncidentType :: string
  tr_IncidentDetails :: telemetryDetails

definition zero_tr :: telemetryReport where
  "zero_tr = \<lparr> tr_ReportID = '''', tr_DeviceID = '''', tr_Timestamp = '''', tr_IncidentType = '''',
     tr_IncidentDetails = \<lparr> td_ExceptionType = '''', td_Message = '''', td_StackTrace = '''' \<rparr> \<rparr>"

definition dec_tr :: "json \<Rightarrow> telemetryReport option" where
  "dec_tr = dec_struct
     [(''report_id'', d_str tr_ReportID_update), (''device_id'', d_str tr_DeviceID_update),
      (''timestamp'', d_str tr_Timestamp_update), (''incident_type'', d_str tr_IncidentType_update),
      (''incident_details'', d_sub (dec_struct [(''exception_type'', d_str td_ExceptionType_update),
          (''message'', d_str td_Message_update), (''stack_trace'', d_str td_StackTrace_update)])
        tr_IncidentDetails tr_IncidentDetails_update)] zero_tr"

definition enc_tr :: "telemetryReport \<Rightarrow> json" where
  "enc_tr r = JObj (e_str ''report_id'' (tr_ReportID r) @ e_str ''device_id'' (tr_DeviceID r)
     @ e_str ''timestamp'' (tr_Timestamp r) @ e_str ''incident_type'' (tr_IncidentType r)
     @ [(''incident_details'', JObj (e_str ''exception_type'' (td_ExceptionType (tr_IncidentDetails r))
          @ e_str ''message'' (td_Message (tr_IncidentDetails r))
          @ e_str ''stack_trace'' (td_StackTrace (tr_IncidentDetails r))))])"

section \<open>The stream\<close>

text \<open>A message: its bytes, the JSON value they are, its sequence number when it has its metadata.\<close>

record tmsg =
  tm_data :: string
  tm_json :: wire
  tm_seq :: "nat option"

text \<open>
  What NATS answers: the client, the stream, its count of messages and last sequence number, the
  consumer; the \<open>k\<close>-th pull request fails or delivers the next messages, at most as many as it
  asked for.
\<close>

record telemetry_env =
  te_query :: query_env
  te_jetstream :: bool
  te_stream :: bool
  te_info :: "(nat \<times> nat) option"
  te_consumer :: bool
  te_messages :: "nat \<Rightarrow> tmsg"
  te_serve :: "nat \<Rightarrow> nat option"

datatype telemetry_error =
    Tel_connect conn_error | Create_output string | New_client | Get_stream | Stream_info | Create_consumer
  | Write_report string

definition batch_at :: "telemetry_env \<Rightarrow> nat \<Rightarrow> nat \<Rightarrow> nat \<Rightarrow> tmsg list" where
  "batch_at e limit pos n = map (te_messages e) [pos..<pos + min n limit]"

definition reached_end :: "nat \<Rightarrow> tmsg list \<Rightarrow> bool" where
  "reached_end lastSeq batch = list_ex (\<lambda>m. case tm_seq m of None \<Rightarrow> False | Some s \<Rightarrow> lastSeq \<le> s) batch"

text \<open>
  The loop of both commands: pull a batch, handle its messages (which may end the command), stop at
  an empty batch, at the end of the stream, or with enough reports. It may run for ever when the
  stream never ends, so it is a partial function.
\<close>

partial_function (option) pull ::
    "telemetry_env \<Rightarrow> nat \<Rightarrow> nat \<Rightarrow> (tmsg list \<Rightarrow> 's \<Rightarrow> 'r + 's) \<Rightarrow> ('s \<Rightarrow> bool) \<Rightarrow> nat \<Rightarrow> nat \<Rightarrow> 's \<Rightarrow> ('r + 's) option" where
  "pull e limit lastSeq handle full k pos s =
     (case te_serve e k of
        None \<Rightarrow> Some (Inr s)
      | Some n \<Rightarrow>
          (let batch = batch_at e limit pos n in
           case handle batch s of
             Inl r \<Rightarrow> Some (Inl r)
           | Inr s' \<Rightarrow>
               if batch = [] \<or> reached_end lastSeq batch \<or> full s' then Some (Inr s')
               else pull e limit lastSeq handle full (Suc k) (pos + length batch) s'))"

definition fetch_limit :: "nat \<Rightarrow> nat" where
  "fetch_limit msgs = min msgs 100"

section \<open>telemetry list\<close>

definition decoded :: "tmsg list \<Rightarrow> telemetryReport list" where
  "decoded ms = concat (map (\<lambda>m. case unmarshal dec_tr (tm_json m) of None \<Rightarrow> [] | Some r \<Rightarrow> [r]) ms)"

definition list_reports :: "telemetry_env \<Rightarrow> nat \<Rightarrow> nat \<Rightarrow> telemetryReport list option" where
  "list_reports e limit lastSeq =
     map_option (case_sum (\<lambda>r. r) (\<lambda>s. s))
       (pull e limit lastSeq (\<lambda>batch reports. Inr (reports @ decoded batch)) (\<lambda>reports. limit \<le> length reports) 0 0 [])"

definition report_row :: "telemetryReport \<Rightarrow> item" where
  "report_row r = Row [tr_ReportID r, tr_Timestamp r, tr_DeviceID r, tr_IncidentType r,
     td_ExceptionType (tr_IncidentDetails r)]"

text \<open>Up to the consumer both commands go the same way; an empty stream ends them early.\<close>

definition open_stream :: "telemetry_env \<Rightarrow> telemetry_error go_error + (nat \<times> nat) option" where
  "open_stream e =
     (if \<not> te_jetstream e then Inl (CodedError Error New_client)
      else if \<not> te_stream e then Inl (CodedError Error Get_stream)
      else case te_info e of
        None \<Rightarrow> Inl (CodedError Error Stream_info)
      | Some (msgs, lastSeq) \<Rightarrow>
          if msgs = 0 then Inr None
          else if \<not> te_consumer e then Inl (CodedError Error Create_consumer)
          else Inr (Some (fetch_limit msgs, lastSeq)))"

definition print_reports :: "string \<Rightarrow> telemetryReport list \<Rightarrow> host \<Rightarrow> host" where
  "print_reports format reports h =
     (if format = ''json'' then emit [Json (if reports = [] then JNull else JArr (map enc_tr reports))] h
      else if reports = [] then host_err ''No incident reports found.'' h
      else emit (Row [''REPORT ID'', ''TIMESTAMP'', ''DEVICE ID'', ''TYPE'', ''EXCEPTION''] # map report_row reports) h)"

definition runTelemetryList ::
    "telemetry_env \<Rightarrow> Config \<Rightarrow> string \<Rightarrow> host \<Rightarrow> (telemetry_error go_error option \<times> host) option" where
  "runTelemetryList e cfg format h =
     (case connect_cli (te_query e) cfg h of
        Inl er \<Rightarrow> Some (Some (CodedError Error (Tel_connect er)), h)
      | Inr _ \<Rightarrow>
          (case open_stream e of
             Inl er \<Rightarrow> Some (Some er, h)
           | Inr None \<Rightarrow>
               Some (None, if format = ''json'' then emit [Line ''[]''] h else host_err ''No incident reports found.'' h)
           | Inr (Some (limit, lastSeq)) \<Rightarrow>
               map_option (\<lambda>reports. (None, print_reports format reports h)) (list_reports e limit lastSeq)))"

section \<open>telemetry fetch\<close>

definition report_path :: "string \<Rightarrow> nat \<Rightarrow> telemetryReport \<Rightarrow> string" where
  "report_path dir num r =
     filepath_Join [dir, (if tr_ReportID r = '''' then ''report-'' @ itoa (int num) else tr_ReportID r) @ ''.json'']"

text \<open>Write the reports of a batch; a failure names the file and ends the command.\<close>

fun write_batch :: "io \<Rightarrow> string \<Rightarrow> tmsg list \<Rightarrow> nat \<times> fs \<Rightarrow> (string \<times> fs) + (nat \<times> fs)" where
  "write_batch io' dir [] s = Inr s"
| "write_batch io' dir (m # ms) (num, fs) =
     (case unmarshal dec_tr (tm_json m) of
        None \<Rightarrow> write_batch io' dir ms (num, fs)
      | Some r \<Rightarrow>
          let p = report_path dir num r in
          case write_err io' p of
            Some junk \<Rightarrow> Inl (p, put_file fs p junk perm644)
          | None \<Rightarrow> write_batch io' dir ms (Suc num, put_file fs p (Text (tm_data m)) perm644))"

definition fetch_reports :: "telemetry_env \<Rightarrow> string \<Rightarrow> nat \<Rightarrow> nat \<Rightarrow> fs \<Rightarrow> ((string \<times> fs) + (nat \<times> fs)) option" where
  "fetch_reports e dir limit lastSeq fs =
     pull e limit lastSeq (write_batch (qe_io (te_query e)) dir) (\<lambda>(num, _). limit \<le> num) 0 0 (0, fs)"

definition fetched_line :: "nat \<Rightarrow> string \<Rightarrow> item" where
  "fetched_line n dir = Line (''Successfully fetched '' @ itoa (int n) @ '' incident report(s) into '' @ dir)"

definition runTelemetryFetch ::
    "telemetry_env \<Rightarrow> Config \<Rightarrow> string \<Rightarrow> host \<Rightarrow> (telemetry_error go_error option \<times> host) option" where
  "runTelemetryFetch e cfg dir h =
     (case connect_cli (te_query e) cfg h of
        Inl er \<Rightarrow> Some (Some (CodedError Error (Tel_connect er)), h)
      | Inr _ \<Rightarrow>
          if mkdir_err (qe_io (te_query e)) dir then Some (Some (CodedError Error (Create_output dir)), h)
          else (case open_stream e of
             Inl er \<Rightarrow> Some (Some er, h)
           | Inr None \<Rightarrow> Some (None, emit [fetched_line 0 dir] h)
           | Inr (Some (limit, lastSeq)) \<Rightarrow>
               map_option (\<lambda>res. case res of
                   Inl (p, fs) \<Rightarrow> (Some (CodedError Error (Write_report p)), h\<lparr> ho_fs := fs \<rparr>)
                 | Inr (num, fs) \<Rightarrow> (None, emit [fetched_line num dir] (h\<lparr> ho_fs := fs \<rparr>)))
                 (fetch_reports e dir limit lastSeq (ho_fs h))))"


section \<open>The pull loop returns\<close>

text \<open>
  What JetStream promises of a stream: every message carries its metadata, and sequence numbers start
  at one and increase.
\<close>

definition ordered_stream :: "telemetry_env \<Rightarrow> bool" where
  "ordered_stream e \<longleftrightarrow> (\<forall>i. \<exists>s. tm_seq (te_messages e i) = Some s \<and> i < s
     \<and> (\<forall>j s'. i < j \<and> tm_seq (te_messages e j) = Some s' \<longrightarrow> s < s'))"

lemma reached_end_batch:
  assumes "ordered_stream e" and "batch_at e limit pos n \<noteq> []" and "lastSeq \<le> pos + length (batch_at e limit pos n)"
  shows "reached_end lastSeq (batch_at e limit pos n)"
proof -
  let ?l = "min n limit"
  from assms(2) have l: "0 < ?l" by (auto simp: batch_at_def)
  obtain s where "tm_seq (te_messages e (pos + ?l - 1)) = Some s" "pos + ?l - 1 < s"
    using assms(1) unfolding ordered_stream_def by blast
  moreover have "te_messages e (pos + ?l - 1) \<in> set (batch_at e limit pos n)" using l by (auto simp: batch_at_def)
  moreover have "lastSeq \<le> pos + ?l" using assms(3) by (simp add: batch_at_def)
  ultimately show ?thesis unfolding reached_end_def list_ex_iff by (intro bexI) auto
qed

text \<open>It returns, and keeps what every batch keeps.\<close>

lemma pull_returns:
  assumes "ordered_stream e" and "I pos s" and "\<not> full s"
    and step: "\<And>pos n s. I pos s \<Longrightarrow> \<not> full s \<Longrightarrow> (case handle (batch_at e limit pos n) s of
        Inl r \<Rightarrow> R r | Inr s' \<Rightarrow> I (pos + length (batch_at e limit pos n)) s')"
  shows "\<exists>y. pull e limit lastSeq handle full k pos s = Some y \<and> (case y of Inl r \<Rightarrow> R r | Inr s' \<Rightarrow> \<exists>pos. I pos s')"
  using assms(2,3)
proof (induction "lastSeq - pos" arbitrary: k pos s rule: less_induct)
  case less
  show ?case
  proof (cases "te_serve e k")
    case None
    then show ?thesis using less.prems by (subst pull.simps) auto
  next
    case (Some n)
    let ?b = "batch_at e limit pos n"
    note st = step [OF less.prems, of n]
    show ?thesis
    proof (cases "handle ?b s")
      case (Inl r)
      then show ?thesis using Some st by (subst pull.simps) simp
    next
      case (Inr s')
      with st have I: "I (pos + length ?b) s'" by simp
      show ?thesis
      proof (cases "?b = [] \<or> reached_end lastSeq ?b \<or> full s'")
        case True
        then show ?thesis using Some Inr I by (subst pull.simps) (auto simp: Let_def)
      next
        case False
        then have "pos + length ?b < lastSeq" using reached_end_batch [OF assms(1), of limit pos n lastSeq] by fastforce
        with False have "lastSeq - (pos + length ?b) < lastSeq - pos" by (cases ?b) auto
        from less.hyps [OF this I] False Some Inr show ?thesis by (subst pull.simps) (simp add: Let_def)
      qed
    qed
  qed
qed

corollary pull_ends:
  assumes "ordered_stream e" and "I pos s" and "\<not> full s"
    and "\<And>pos n s. I pos s \<Longrightarrow> \<not> full s \<Longrightarrow> (case handle (batch_at e limit pos n) s of
        Inl r \<Rightarrow> R r | Inr s' \<Rightarrow> I (pos + length (batch_at e limit pos n)) s')"
  obtains r where "pull e limit lastSeq handle full k pos s = Some (Inl r)" and "R r"
  | s' pos' where "pull e limit lastSeq handle full k pos s = Some (Inr s')" and "I pos' s'"
proof -
  have "\<exists>y. pull e limit lastSeq handle full k pos s = Some y \<and> (case y of Inl r \<Rightarrow> R r | Inr s' \<Rightarrow> \<exists>pos. I pos s')"
    by (rule pull_returns [where I = I and R = R]) (fact assms)+
  then obtain y where
    y: "pull e limit lastSeq handle full k pos s = Some y" "case y of Inl r \<Rightarrow> R r | Inr s' \<Rightarrow> \<exists>pos. I pos s'" by blast
  then show thesis using that by (cases y) auto
qed

lemma decoded_append [simp]: "decoded (xs @ ys) = decoded xs @ decoded ys"
  by (simp add: decoded_def)

lemma decoded_length: "length (decoded ms) \<le> length ms"
  by (induction ms) (auto simp: decoded_def split: option.split)

lemma batch_length: "length (batch_at e limit pos n) \<le> limit"
  by (simp add: batch_at_def)

lemma upt_batch: "map (te_messages e) [0..<pos] @ batch_at e limit pos n = map (te_messages e) [0..<pos + length (batch_at e limit pos n)]"
  by (simp add: batch_at_def flip: map_append) (metis le_add1 upt_add_eq_append zero_le)



section \<open>The files fetch writes\<close>

text \<open>What has changed since \<open>fs0\<close>: files in \<open>P\<close> with the bytes of a message.\<close>

definition reports_in :: "telemetry_env \<Rightarrow> (string \<Rightarrow> bool) \<Rightarrow> fs \<Rightarrow> fs \<Rightarrow> bool" where
  "reports_in e P fs0 fs \<longleftrightarrow> (\<forall>p. fs p \<noteq> fs0 p \<longrightarrow> P p
     \<and> (\<exists>f i. fs p = Some f \<and> f_content f = Text (tm_data (te_messages e i))))"

lemma write_batch_files:
  assumes "\<And>i r n. unmarshal dec_tr (tm_json (te_messages e i)) = Some r \<Longrightarrow> P (report_path dir n r)"
    and "set ms \<subseteq> range (te_messages e)" and "reports_in e P fs0 fs"
  shows "case write_batch io' dir ms (num, fs) of
      Inl (p, fs') \<Rightarrow> \<forall>q. fs' q \<noteq> fs0 q \<longrightarrow> P q | Inr (num', fs') \<Rightarrow> reports_in e P fs0 fs'"
  using assms(2,3)
proof (induction ms arbitrary: num fs)
  case Nil
  then show ?case by simp
next
  case (Cons m ms)
  then obtain i where i: "m = te_messages e i" by auto
  show ?case
  proof (cases "unmarshal dec_tr (tm_json m)")
    case None
    with Cons show ?thesis by simp
  next
    case (Some r)
    let ?p = "report_path dir num r"
    have P: "P ?p" using assms(1) Some i by blast
    show ?thesis
    proof (cases "write_err io' ?p")
      case None
      have "reports_in e P fs0 (put_file fs ?p (Text (tm_data m)) perm644)"
        using Cons.prems(2) P i by (auto simp: reports_in_def put_file_def split: option.split)
      with Cons None Some show ?thesis by simp
    next
      case (Some junk)
      with Cons.prems(2) P \<open>unmarshal dec_tr (tm_json m) = Some r\<close> show ?thesis
        by (auto simp: reports_in_def put_file_def Let_def)
    qed
  qed
qed

lemma report_file:
  assumes "ws \<noteq> []" and "\<forall>w \<in> set ws. plain w" and "CHR ''/'' \<notin> set (tr_ReportID r)"
  obtains w where "plain w" and "report_path (abs_dir ws) n r = abs_dir (ws @ [w])"
proof -
  let ?w = "(if tr_ReportID r = '''' then ''report-'' @ itoa (int n) else tr_ReportID r) @ ''.json''"
  have "CHR ''/'' \<notin> set (itoa (int n))"
    using digits_are_digits [of "ndigits n" n] by (auto simp: itoa_def is_digit_def list_all_iff)
  then have "plain ?w" using assms(3) by (auto simp: plain_def append_eq_Cons_conv)
  with Join_plain [OF assms(1,2)] that show thesis by (simp add: report_path_def)
qed

text \<open>
  C36 (safety): fetching the reports ends, and leaves everything else on the disk alone. For a clean
  output directory and report ids without a slash: every file that changed lies directly in that
  directory and, when no write failed, holds the bytes of a message of the stream.
\<close>

theorem telemetry_fetch_confined:
  assumes "ordered_stream e" and "0 < msgs" and "ws \<noteq> []" and "\<forall>w \<in> set ws. plain w"
    and "\<And>i r. unmarshal dec_tr (tm_json (te_messages e i)) = Some r \<Longrightarrow> CHR ''/'' \<notin> set (tr_ReportID r)"
  shows "\<exists>res. fetch_reports e (abs_dir ws) (fetch_limit msgs) lastSeq fs = Some res
    \<and> (let fs' = (case res of Inl (p, fs') \<Rightarrow> fs' | Inr (num, fs') \<Rightarrow> fs') in
       \<forall>p. fs' p \<noteq> fs p \<longrightarrow> (\<exists>w. plain w \<and> p = abs_dir (ws @ [w]))
         \<and> (\<forall>num fs''. res = Inr (num, fs'') \<longrightarrow> (\<exists>f i. fs' p = Some f \<and> f_content f = Text (tm_data (te_messages e i)))))"
proof -
  let ?P = "\<lambda>p. \<exists>w. plain w \<and> p = abs_dir (ws @ [w])"
  let ?l = "fetch_limit msgs"
  let ?handle = "write_batch (qe_io (te_query e)) (abs_dir ws)"
  let ?full = "\<lambda>(num, _ :: fs). ?l \<le> num"
  let ?I = "\<lambda>(_ :: nat) (num :: nat, fs'). reports_in e ?P fs fs'"
  let ?R = "\<lambda>(p :: string, fs'). \<forall>q. fs' q \<noteq> fs q \<longrightarrow> ?P q"
  have l: "0 < ?l" using assms(2) by (simp add: fetch_limit_def)
  have P: "?P (report_path (abs_dir ws) n r)" if "unmarshal dec_tr (tm_json (te_messages e i)) = Some r" for i r n
    using report_file [OF assms(3,4) assms(5) [OF that]] by metis
  show ?thesis
  proof (rule pull_ends [where I = ?I and R = ?R and e = e and limit = ?l and lastSeq = lastSeq
      and handle = ?handle and full = ?full and k = 0 and pos = 0 and s = "(0, fs)"])
    show "ordered_stream e" by (rule assms(1))
    show "?I 0 (0, fs)" "\<not> ?full (0, fs)" using l by (simp_all add: reports_in_def)
    fix pos n and s :: "nat \<times> fs"
    obtain num fs1 where s: "s = (num, fs1)" by (cases s)
    assume "?I pos s"
    then have "reports_in e ?P fs fs1" by (simp add: s)
    moreover have "set (batch_at e ?l pos n) \<subseteq> range (te_messages e)" by (auto simp: batch_at_def)
    ultimately show "case ?handle (batch_at e ?l pos n) s of Inl r \<Rightarrow> ?R r | Inr s' \<Rightarrow> ?I (pos + length (batch_at e ?l pos n)) s'"
      using write_batch_files [where P = ?P and e = e and ms = "batch_at e ?l pos n" and fs = fs1 and num = num, OF P]
      by (simp add: s split: sum.splits)
  qed (auto simp: fetch_reports_def reports_in_def Let_def)
qed

text \<open>An id with a slash escapes the directory: the name of the file comes from the device.\<close>

lemma report_path_escapes:
  "report_path ''/tmp/out'' n (zero_tr\<lparr> tr_ReportID := ''../../etc/cron'' \<rparr>) = ''/etc/cron.json''"
  by (simp add: report_path_def filepath_Join_def filepath_Clean_def Let_def)


section \<open>A stream of 250 reports\<close>

definition a_stream :: telemetry_env where
  "a_stream = \<lparr> te_query = \<lparr> qe_net = \<lparr> nt_key_pair = (\<lambda>_ _. True), nt_connect = (\<lambda>_. True) \<rparr>, qe_io = io_ok, qe_xdg = an_xdg,
       qe_now = 0, qe_request = (\<lambda>_ _ _. No_answer) \<rparr>,
     te_jetstream = True, te_stream = True, te_info = Some (250, 250), te_consumer = True,
     te_messages = (\<lambda>i. \<lparr> tm_data = ''{}'', tm_json = Some (JObj []), tm_seq = Some (Suc i) \<rparr>), te_serve = (\<lambda>_. Some 100) \<rparr>"

lemma a_stream_facts: "ordered_stream a_stream" "te_serve a_stream 0 = Some 100"
  "unmarshal dec_tr (tm_json (te_messages a_stream i)) = Some zero_tr" "fetch_limit 250 = 100"
  by (simp_all add: ordered_stream_def a_stream_def unmarshal_def dec_tr_def dec_struct_def fetch_limit_def)


theorem telemetry_fetch_confined_witness:
  "\<exists>res. fetch_reports a_stream (abs_dir [''tmp'', ''out'']) (fetch_limit 250) 250 Map.empty = Some res
    \<and> (\<forall>num fs'. res = Inr (num, fs') \<longrightarrow> fs' ''/etc/passwd'' = None)"
proof -
  let ?ws = "[''tmp'', ''out'']"
  have ws: "?ws \<noteq> []" "\<forall>w \<in> set ?ws. plain w" by (simp_all add: plain_def)
  have "''/etc/passwd'' \<noteq> abs_dir (?ws @ [w])" for w by (simp add: abs_dir_def)
  moreover obtain res where "fetch_reports a_stream (abs_dir ?ws) (fetch_limit 250) 250 Map.empty = Some res"
    "let fs' = (case res of Inl (p, fs') \<Rightarrow> fs' | Inr (num, fs') \<Rightarrow> fs') in
       \<forall>p. fs' p \<noteq> None \<longrightarrow> (\<exists>w. plain w \<and> p = abs_dir (?ws @ [w]))"
    using telemetry_fetch_confined [OF a_stream_facts(1), of 250 ?ws 250 Map.empty] ws
    by (simp add: a_stream_facts(3) zero_tr_def Let_def) blast
  ultimately show ?thesis by (auto simp: Let_def) (metis option.exhaust)
qed

end
