(* ===== verification/ConfigCmd.thy ===== *)
theory ConfigCmd
  imports Daemon McpStores
begin

text \<open>
  The config command (cli/internal/command/config.go): the settings as JSON, \<^verbatim>\<open>init\<close>, which writes a
  template, and \<^verbatim>\<open>list\<close>, which prints the registry of parameters.
\<close>

section \<open>The settings as JSON\<close>

definition e_bool :: "string \<Rightarrow> bool \<Rightarrow> entries" where
  "e_bool k b = [(k, JBool b)]"

definition e_int :: "string \<Rightarrow> int \<Rightarrow> entries" where
  "e_int k i = [(k, JNum i)]"

definition e_bool_opt :: "string \<Rightarrow> bool \<Rightarrow> entries" where
  "e_bool_opt k b = (if b then [(k, JBool b)] else [])"

definition e_dur :: "string \<Rightarrow> duration \<Rightarrow> entries" where
  "e_dur k d = [(k, Duration_MarshalJSON d)]"

definition enc_broker :: "BrokerConfig \<Rightarrow> json" where
  "enc_broker b = JObj (e_bool ''enabled'' (bc_Enabled b) @ e_str ''tcp_host'' (bc_TCPHost b) @ e_int ''tcp_port'' (bc_TCPPort b)
     @ e_str ''wss_host'' (bc_WSSHost b) @ e_int ''wss_port'' (bc_WSSPort b) @ e_str ''cert_file'' (bc_CertFile b)
     @ e_str ''key_file'' (bc_KeyFile b))"

definition enc_jetstream :: "JetStreamConfig \<Rightarrow> json" where
  "enc_jetstream j = JObj (e_dur ''max_age'' (js_MaxAge j) @ e_int ''max_bytes'' (js_MaxBytes j)
     @ e_int ''max_msg_size'' (js_MaxMsgSize j) @ e_int ''max_msgs_per_subj'' (js_MaxMsgsPerSubj j)
     @ e_dur ''dup_window'' (js_DupWindow j))"

definition enc_shared :: "SharedBrokerConfig \<Rightarrow> json" where
  "enc_shared s = JObj (e_str ''url'' (sb_URL s) @ e_str_opt ''username'' (sb_Username s) @ e_str_opt ''password'' (sb_Password s)
     @ e_str_opt ''token'' (sb_Token s) @ e_bool_opt ''tls_enabled'' (sb_TLSEnabled s) @ e_str_opt ''ca_cert'' (sb_CACert s)
     @ e_str_opt ''client_cert'' (sb_ClientCert s) @ e_str_opt ''client_key'' (sb_ClientKey s))"

definition enc_config :: "Config \<Rightarrow> json" where
  "enc_config c = JObj (
     e_str ''username'' (cf_Username c) @
     [(''broker'', enc_broker (cf_Broker c)),
      (''mcp'', JObj (e_bool ''enabled'' (mc_Enabled (cf_MCP c)) @ e_str ''host'' (mc_Host (cf_MCP c))
         @ e_int ''port'' (mc_Port (cf_MCP c)))),
      (''jetstream'', enc_jetstream (cf_JetStream c)),
      (''shared_broker'', enc_shared (cf_SharedBroker c)),
      (''rate_limit'', JObj (e_int ''notifications_per_minute'' (rl_NotificationsPerMinute (cf_RateLimit c)))),
      (''reaping'', JObj (e_dur ''grace_period'' (rp_GracePeriod (cf_Reaping c)) @ e_dur ''interval'' (rp_Interval (cf_Reaping c)))),
      (''timeout'', JObj (e_dur ''default_ask_timeout'' (to_DefaultAskTimeout (cf_Timeout c))
         @ e_dur ''ask_grace_period'' (to_AskGracePeriod (cf_Timeout c)))),
      (''heartbeat'', JObj (e_dur ''interval'' (hc_Interval (cf_Heartbeat c)))),
      (''interjection'', JObj (e_dur ''debounce_window'' (ic_DebounceWindow (cf_Interjection c)))),
      (''device_presence'', JObj (e_dur ''stale_threshold'' (dp_StaleThreshold (cf_DevicePresence c))
         @ e_dur ''heartbeat_interval'' (dp_HeartbeatInterval (cf_DevicePresence c)))),
      (''daemon'', JObj (e_bool ''foreground'' (dc_Foreground (cf_Daemon c)) @ e_str ''log_level'' (dc_LogLevel (cf_Daemon c))
         @ e_str ''log_file'' (dc_LogFile (cf_Daemon c)) @ e_str ''db_path'' (dc_DBPath (cf_Daemon c))))])"

definition marshalMinimalConfig :: "xdg_env \<Rightarrow> string option \<Rightarrow> json" where
  "marshalMinimalConfig xe u = JObj [(''username'', JStr (cf_Username (Default xe u)))]"

definition marshalFullConfig :: "xdg_env \<Rightarrow> string option \<Rightarrow> json" where
  "marshalFullConfig xe u = enc_config (Default xe u)"

section \<open>config init\<close>

datatype config_cmd_error = File_exists string | Write_config string

text \<open>
  The directory to create is the path without its last fourteen bytes, the length of
  \<^verbatim>\<open>/settings.json\<close>; slicing a shorter path panics. The list is the directories \<^verbatim>\<open>os.MkdirAll\<close> is
  called for; its error is ignored.
\<close>

definition settings_suffix :: string where
  "settings_suffix = ''/settings.json''"

definition init_path :: "xdg_env \<Rightarrow> string \<Rightarrow> string" where
  "init_path xe output = (if output = '''' then ConfigFilePath xe else output)"

definition config_init ::
    "io \<Rightarrow> xdg_env \<Rightarrow> string option \<Rightarrow> bool \<Rightarrow> bool \<Rightarrow> string \<Rightarrow> host \<Rightarrow>
     (config_cmd_error go_error option \<times> string list \<times> host) outcome" where
  "config_init e xe u full force output h =
     (let path = init_path xe output in
      if \<not> force \<and> ho_fs h path \<noteq> None \<and> \<not> stat_err e path then Ret (Some (CodedError Error (File_exists path)), [], h)
      else
        let data = (if full then marshalFullConfig xe u else marshalMinimalConfig xe u) in
        if length path < length settings_suffix then Panic
        else
          let dir = take (length path - length settings_suffix) path in
          case write_err e path of
            Some junk \<Rightarrow>
              Ret (Some (CodedError Error (Write_config path)), [dir], h\<lparr> ho_fs := put_file (ho_fs h) path junk perm600 \<rparr>)
          | None \<Rightarrow>
              Ret (None, [dir], host_err (''Config written to '' @ path)
                (h\<lparr> ho_fs := put_file (ho_fs h) path (JsonText data) perm600 \<rparr>)))"

section \<open>config list\<close>

definition writeConfigListText :: "Config \<Rightarrow> host \<Rightarrow> host" where
  "writeConfigListText cfg h = h\<lparr> ho_stdout := ho_stdout h @ Row [''KEY'', ''TYPE'', ''DEFAULT'', ''ENV VAR'', ''DESCRIPTION'']
     # map (\<lambda>p. Row [pi_Key p, pi_Type p, FormatDefault p cfg, pi_EnvVar p, pi_Description p]) ConfigRegistry \<rparr>"

definition configListEntry :: "Config \<Rightarrow> ParamInfo \<Rightarrow> json" where
  "configListEntry cfg p = JObj (e_str ''key'' (pi_Key p) @ e_str ''type'' (pi_Type p) @ e_str ''default'' (FormatDefault p cfg)
     @ e_str ''env_var'' (pi_EnvVar p) @ e_str ''description'' (pi_Description p))"

definition writeConfigListJSON :: "Config \<Rightarrow> host \<Rightarrow> host" where
  "writeConfigListJSON cfg h = h\<lparr> ho_stdout := ho_stdout h @ [Json (JArr (map (configListEntry cfg) ConfigRegistry))] \<rparr>"

definition config_list :: "xdg_env \<Rightarrow> string option \<Rightarrow> string \<Rightarrow> host \<Rightarrow> host" where
  "config_list xe u format = (if format = ''json'' then writeConfigListJSON else writeConfigListText) (Default xe u)"

section \<open>The template and the registry\<close>

text \<open>The dotted keys of a settings file, as Viper sees them.\<close>

fun flatten :: "string \<Rightarrow> json \<Rightarrow> (string \<times> json) list" and flatten_entries :: "string \<Rightarrow> (string \<times> json) list \<Rightarrow> (string \<times> json) list" where
  "flatten k (JObj kvs) = flatten_entries (if k = '''' then '''' else k @ ''.'') kvs"
| "flatten k j = [(k, j)]"
| "flatten_entries p [] = []"
| "flatten_entries p ((k, v) # kvs) = flatten (p @ k) v @ flatten_entries p kvs"

fun value_json :: "config_value \<Rightarrow> json" where
  "value_json (CStr s) = JStr s"
| "value_json (CBool b) = JBool b"
| "value_json (CInt i) = JNum i"
| "value_json (CDuration d) = JStr (duration_string d)"

text \<open>
  C38 (equivalence): the template of \<^verbatim>\<open>config init --full\<close> is the registry: its keys are those of
  \<^verbatim>\<open>config list\<close>, in that order, each with the value \<^verbatim>\<open>setDefaults\<close> registers for it; one is missing,
  \<^verbatim>\<open>shared_broker.tls_enabled\<close>, which is left out when it is false.
\<close>

theorem full_template:
  "flatten '''' (marshalFullConfig xe u)
     = map (\<lambda>(k, v). (k, value_json v)) (filter (\<lambda>(k, _). k \<noteq> ''shared_broker.tls_enabled'') (setDefaults (Default xe u)))"
  by (simp add: marshalFullConfig_def enc_config_def enc_broker_def enc_jetstream_def enc_shared_def setDefaults_def
      registry_defs param_def viper_default_def Default_def e_str_def e_int_def e_bool_def e_bool_opt_def e_str_opt_def
      e_dur_def Duration_MarshalJSON_def)


section \<open>Where the template goes\<close>

lemma split_slash_slash: "split_slash (a @ CHR ''/'' # b) = split_slash a @ split_slash b"
  by (induction a) (auto split: list.split)

lemma clean_last: "plain w \<Longrightarrow> fold (clean_step r) (ws @ [w]) out = w # fold (clean_step r) ws out"
  by (simp add: plain_def)

lemma join_last: "\<exists>p. join_slash (ws @ [w]) = p @ w \<and> (ws \<noteq> [] \<longrightarrow> (\<exists>q. p = q @ ''/''))"
proof (cases "ws = []")
  case False
  then show ?thesis using join_slash_snoc [of ws w] by (intro exI [of _ "join_slash ws @ ''/''"]) simp
qed simp

text \<open>A plain name joined to anything is the last element of the result.\<close>

lemma Clean_last:
  assumes "plain w"
  shows "\<exists>ws r. filepath_Clean (b @ CHR ''/'' # w) = (if r then ''/'' else '''') @ join_slash (ws @ [w])
     \<and> (\<forall>v. plain v \<and> (\<exists>p. b = p @ v \<and> (p = '''' \<or> last p = CHR ''/'')) \<longrightarrow> ws \<noteq> [])"
proof -
  let ?p = "b @ CHR ''/'' # w"
  let ?r = "hd ?p = CHR ''/''"
  let ?ws = "rev (fold (clean_step ?r) (split_slash b) [])"
  have sp: "split_slash ?p = split_slash b @ [w]" using assms by (simp add: split_slash_slash split_slash_word plain_def)
  have "filepath_Clean ?p = (if ?r then ''/'' else '''') @ join_slash (?ws @ [w])"
    unfolding filepath_Clean_def Let_def sp clean_last [OF assms] by simp
  moreover have "?ws \<noteq> []" if "plain v" "b = p @ v" "p = '''' \<or> last p = CHR ''/''" for v p
  proof -
    have "\<exists>us. split_slash b = us @ [v]"
    proof (cases p rule: rev_cases)
      case Nil
      with that show ?thesis by (simp add: split_slash_word plain_def)
    next
      case (snoc q c)
      with that have "b = q @ CHR ''/'' # v" by auto
      with that show ?thesis by (simp add: split_slash_slash split_slash_word plain_def)
    qed
    then obtain us where us: "split_slash b = us @ [v]" ..
    show ?thesis unfolding us clean_last [OF that(1)] by simp
  qed
  ultimately show ?thesis by blast
qed

lemma Join_last:
  assumes "plain w"
  obtains p where "filepath_Join [b, w] = p @ w" and "p = '''' \<or> last p = CHR ''/''"
    and "\<And>v q. plain v \<Longrightarrow> b = q @ v \<Longrightarrow> q = '''' \<or> last q = CHR ''/'' \<Longrightarrow> p \<noteq> '''' \<and> last p = CHR ''/''"
proof (cases "b = ''''")
  case True
  have w: "w \<noteq> ''''" "CHR ''/'' \<notin> set w" using assms by (simp_all add: plain_def)
  then have "hd w \<noteq> CHR ''/''" by (cases w) auto
  then have "filepath_Join [b, w] = '''' @ w" using True w assms
    by (simp add: filepath_Join_def filepath_Clean_def split_slash_word Let_def plain_def)
  then show thesis by (rule that) (use True in \<open>auto simp: plain_def\<close>)
next
  case False
  from Clean_last [OF assms, of b] obtain ws r where
    c: "filepath_Clean (b @ CHR ''/'' # w) = (if r then ''/'' else '''') @ join_slash (ws @ [w])"
    and ne: "\<And>v p. plain v \<Longrightarrow> b = p @ v \<Longrightarrow> p = '''' \<or> last p = CHR ''/'' \<Longrightarrow> ws \<noteq> []" by blast
  from join_last [of ws w] obtain p where p: "join_slash (ws @ [w]) = p @ w" "ws \<noteq> [] \<longrightarrow> (\<exists>q. p = q @ ''/'')" by blast
  have p0: "ws = [] \<Longrightarrow> p = ''''" using p(1) by simp
  have "filepath_Join [b, w] = ((if r then ''/'' else '''') @ p) @ w"
    using False assms by (simp add: filepath_Join_def plain_def c p(1))
  then show thesis by (rule that) (use p(2) p0 ne in \<open>auto\<close>)
qed

lemma ConfigFilePath_suffix: "\<exists>q. ConfigFilePath xe = q @ settings_suffix"
proof -
  have pl: "plain appName" "plain ''settings.json''" by (simp_all add: plain_def appName_def)
  obtain base where b: "ConfigHome xe = filepath_Join [base, appName]" by (auto simp: ConfigHome_def Let_def)
  obtain p where p: "ConfigHome xe = p @ appName" "p = '''' \<or> last p = CHR ''/''"
    using Join_last [OF pl(1), of base] b by metis
  obtain p' where p': "ConfigFilePath xe = p' @ ''settings.json''" "p' \<noteq> ''''" "last p' = CHR ''/''"
    using Join_last [OF pl(2), of "ConfigHome xe"] pl(1) p unfolding ConfigFilePath_def by metis
  then have "ConfigFilePath xe = butlast p' @ settings_suffix"
    using append_butlast_last_id [OF p'(2)] by (simp add: settings_suffix_def)
  then show ?thesis by blast
qed

text \<open>
  C37 (error): \<^verbatim>\<open>config init\<close> and what is there already. Without \<^verbatim>\<open>--force\<close> a file that is there is
  never touched; in every other case only the file at the path is written, for its owner alone when
  it is new. The command panics exactly when it would write to a path shorter than
  \<^verbatim>\<open>/settings.json\<close>; the default path never is, and then the directory created is the one the file
  is in.
\<close>

theorem config_init_safe:
  "(config_init e xe u full force output h = Panic \<longleftrightarrow>
        length (init_path xe output) < 14 \<and> (force \<or> ho_fs h (init_path xe output) = None \<or> stat_err e (init_path xe output)))
    \<and> config_init e xe u full force '''' h \<noteq> Panic
    \<and> (\<forall>er dirs h'. config_init e xe u full force output h = Ret (er, dirs, h') \<longrightarrow>
          (\<forall>p. p \<noteq> init_path xe output \<longrightarrow> ho_fs h' p = ho_fs h p)
        \<and> (ho_fs h (init_path xe output) \<noteq> None \<and> \<not> force \<and> \<not> stat_err e (init_path xe output) \<longrightarrow> ho_fs h' = ho_fs h \<and> dirs = [] \<and> er \<noteq> None)
        \<and> (er = None \<longrightarrow> (\<exists>f. ho_fs h' (init_path xe output) = Some f
              \<and> f_content f = JsonText (if full then marshalFullConfig xe u else marshalMinimalConfig xe u)
              \<and> (ho_fs h (init_path xe output) = None \<longrightarrow> f_mode f = perm600)))
        \<and> (output = '''' \<and> dirs \<noteq> [] \<longrightarrow> dirs = [dir_of (ConfigFilePath xe)]))"
proof -
  obtain q where q: "ConfigFilePath xe = q @ settings_suffix" using ConfigFilePath_suffix by blast
  then have len: "\<not> length (ConfigFilePath xe) < length settings_suffix" by simp
  have "last_index_byte (CHR ''/'') (q @ settings_suffix) = Some (length q)"
    unfolding settings_suffix_def by (rule last_index_byte_append) simp
  then have dir: "dir_of (ConfigFilePath xe) = q" using q by (simp add: dir_of_def)
  have suf: "length settings_suffix = 14" by (simp add: settings_suffix_def)
  let ?p = "init_path xe output"
  have panic: "config_init e xe u full force o' h = Panic \<longleftrightarrow> length (init_path xe o') < 14
      \<and> (force \<or> ho_fs h (init_path xe o') = None \<or> stat_err e (init_path xe o'))" for o'
    by (auto simp: config_init_def Let_def suf split: option.splits)
  then have default: "config_init e xe u full force '''' h \<noteq> Panic" using len by (simp add: init_path_def suf)
  have rest: "(\<forall>p. p \<noteq> ?p \<longrightarrow> ho_fs h' p = ho_fs h p)
      \<and> (ho_fs h ?p \<noteq> None \<and> \<not> force \<and> \<not> stat_err e ?p \<longrightarrow> ho_fs h' = ho_fs h \<and> dirs = [] \<and> er \<noteq> None)
      \<and> (er = None \<longrightarrow> (\<exists>f. ho_fs h' ?p = Some f
            \<and> f_content f = JsonText (if full then marshalFullConfig xe u else marshalMinimalConfig xe u)
            \<and> (ho_fs h ?p = None \<longrightarrow> f_mode f = perm600)))
      \<and> (output = '''' \<and> dirs \<noteq> [] \<longrightarrow> dirs = [dir_of (ConfigFilePath xe)])"
    if "config_init e xe u full force output h = Ret (er, dirs, h')" for er dirs h'
    using that unfolding config_init_def Let_def dir
    by (auto simp: put_file_def host_err_def suf init_path_def q split: if_splits option.splits)
  show ?thesis using panic default rest by blast
qed

definition a_blank_host :: host where
  "a_blank_host = \<lparr> ho_fs = Map.empty, ho_signals = [], ho_stdout = [], ho_stderr = [] \<rparr>"

theorem config_init_safe_witness:
  "config_init io_ok an_xdg (Some ''alice'') False False ''a.json'' a_blank_host = Panic
    \<and> (\<exists>dirs h'. config_init io_ok an_xdg (Some ''alice'') False False '''' a_blank_host = Ret (None, dirs, h')
        \<and> dirs = [dir_of (ConfigFilePath an_xdg)])"
proof -
  have "config_init io_ok an_xdg (Some ''alice'') False False ''a.json'' a_blank_host = Panic"
    using config_init_safe [of io_ok an_xdg "Some ''alice''" False False "''a.json''" a_blank_host]
    by (simp add: init_path_def a_blank_host_def)
  moreover have "\<exists>dirs h'. config_init io_ok an_xdg (Some ''alice'') False False '''' a_blank_host = Ret (None, dirs, h')
        \<and> dirs = [dir_of (ConfigFilePath an_xdg)]"
  proof -
    let ?c = "config_init io_ok an_xdg (Some ''alice'') False False '''' a_blank_host"
    note safe = config_init_safe [of io_ok an_xdg "Some ''alice''" False False "''''" a_blank_host]
    from safe have "?c \<noteq> Panic" by blast
    then obtain er dirs h' where r: "?c = Ret (er, dirs, h')" by (cases ?c) auto
    then have "er = None" "dirs \<noteq> []"
      by (auto simp: config_init_def Let_def a_blank_host_def io_ok_def split: if_splits)
    moreover have "dirs \<noteq> [] \<longrightarrow> dirs = [dir_of (ConfigFilePath an_xdg)]" using safe r by blast
    ultimately show ?thesis using r by blast
  qed
  ultimately show ?thesis by blast
qed

end
