(* ===== verification/ConfigLoad.thy ===== *)
theory ConfigLoad
  imports Config
begin

text \<open>
  \<^verbatim>\<open>Load\<close> of package config (cli/internal/config/load.go): the settings file, the environment and the
  compiled defaults become one configuration; and how the root command (cli/internal/command/root.go)
  loads it and ends the process. Viper, which merges the three sources, and the decoder mapstructure
  are arguments; what the code relies on of them is stated as \<open>viper_ok\<close> and \<open>mapstructure_ok\<close>.
\<close>

section \<open>The fields of the configuration\<close>

text \<open>A field of the struct, by the key its tags give it; an integer with its width.\<close>

datatype field =
    Str_field "string \<Rightarrow> Config \<Rightarrow> Config"
  | Bool_field "bool \<Rightarrow> Config \<Rightarrow> Config"
  | Int_field nat "int \<Rightarrow> Config \<Rightarrow> Config"
  | Duration_field "duration \<Rightarrow> Config \<Rightarrow> Config"

definition service_fields :: "(string \<times> field) list" where
  "service_fields =
    [(''username'', Str_field (\<lambda>v c. c\<lparr> cf_Username := v \<rparr>)),
     (''broker.enabled'', Bool_field (\<lambda>v c. c\<lparr> cf_Broker := (cf_Broker c)\<lparr> bc_Enabled := v \<rparr> \<rparr>)),
     (''broker.tcp_host'', Str_field (\<lambda>v c. c\<lparr> cf_Broker := (cf_Broker c)\<lparr> bc_TCPHost := v \<rparr> \<rparr>)),
     (''broker.tcp_port'', Int_field 64 (\<lambda>v c. c\<lparr> cf_Broker := (cf_Broker c)\<lparr> bc_TCPPort := v \<rparr> \<rparr>)),
     (''broker.wss_host'', Str_field (\<lambda>v c. c\<lparr> cf_Broker := (cf_Broker c)\<lparr> bc_WSSHost := v \<rparr> \<rparr>)),
     (''broker.wss_port'', Int_field 64 (\<lambda>v c. c\<lparr> cf_Broker := (cf_Broker c)\<lparr> bc_WSSPort := v \<rparr> \<rparr>)),
     (''broker.cert_file'', Str_field (\<lambda>v c. c\<lparr> cf_Broker := (cf_Broker c)\<lparr> bc_CertFile := v \<rparr> \<rparr>)),
     (''broker.key_file'', Str_field (\<lambda>v c. c\<lparr> cf_Broker := (cf_Broker c)\<lparr> bc_KeyFile := v \<rparr> \<rparr>)),
     (''mcp.enabled'', Bool_field (\<lambda>v c. c\<lparr> cf_MCP := (cf_MCP c)\<lparr> mc_Enabled := v \<rparr> \<rparr>)),
     (''mcp.host'', Str_field (\<lambda>v c. c\<lparr> cf_MCP := (cf_MCP c)\<lparr> mc_Host := v \<rparr> \<rparr>)),
     (''mcp.port'', Int_field 64 (\<lambda>v c. c\<lparr> cf_MCP := (cf_MCP c)\<lparr> mc_Port := v \<rparr> \<rparr>)),
     (''jetstream.max_age'', Duration_field (\<lambda>v c. c\<lparr> cf_JetStream := (cf_JetStream c)\<lparr> js_MaxAge := v \<rparr> \<rparr>)),
     (''jetstream.max_bytes'', Int_field 64 (\<lambda>v c. c\<lparr> cf_JetStream := (cf_JetStream c)\<lparr> js_MaxBytes := v \<rparr> \<rparr>)),
     (''jetstream.max_msg_size'', Int_field 32 (\<lambda>v c. c\<lparr> cf_JetStream := (cf_JetStream c)\<lparr> js_MaxMsgSize := v \<rparr> \<rparr>)),
     (''jetstream.max_msgs_per_subj'',
        Int_field 64 (\<lambda>v c. c\<lparr> cf_JetStream := (cf_JetStream c)\<lparr> js_MaxMsgsPerSubj := v \<rparr> \<rparr>)),
     (''jetstream.dup_window'', Duration_field (\<lambda>v c. c\<lparr> cf_JetStream := (cf_JetStream c)\<lparr> js_DupWindow := v \<rparr> \<rparr>))]"

definition credential_fields :: "(string \<times> field) list" where
  "credential_fields =
    [(''shared_broker.username'', Str_field (\<lambda>v c. c\<lparr> cf_SharedBroker := (cf_SharedBroker c)\<lparr> sb_Username := v \<rparr> \<rparr>)),
     (''shared_broker.password'', Str_field (\<lambda>v c. c\<lparr> cf_SharedBroker := (cf_SharedBroker c)\<lparr> sb_Password := v \<rparr> \<rparr>)),
     (''shared_broker.token'', Str_field (\<lambda>v c. c\<lparr> cf_SharedBroker := (cf_SharedBroker c)\<lparr> sb_Token := v \<rparr> \<rparr>)),
     (''shared_broker.ca_cert'', Str_field (\<lambda>v c. c\<lparr> cf_SharedBroker := (cf_SharedBroker c)\<lparr> sb_CACert := v \<rparr> \<rparr>)),
     (''shared_broker.client_cert'', Str_field (\<lambda>v c. c\<lparr> cf_SharedBroker := (cf_SharedBroker c)\<lparr> sb_ClientCert := v \<rparr> \<rparr>)),
     (''shared_broker.client_key'', Str_field (\<lambda>v c. c\<lparr> cf_SharedBroker := (cf_SharedBroker c)\<lparr> sb_ClientKey := v \<rparr> \<rparr>))]"

definition runtime_fields :: "(string \<times> field) list" where
  "runtime_fields =
    [(''shared_broker.url'', Str_field (\<lambda>v c. c\<lparr> cf_SharedBroker := (cf_SharedBroker c)\<lparr> sb_URL := v \<rparr> \<rparr>)),
     (''shared_broker.tls_enabled'', Bool_field (\<lambda>v c. c\<lparr> cf_SharedBroker := (cf_SharedBroker c)\<lparr> sb_TLSEnabled := v \<rparr> \<rparr>)),
     (''rate_limit.notifications_per_minute'',
        Int_field 64 (\<lambda>v c. c\<lparr> cf_RateLimit := (cf_RateLimit c)\<lparr> rl_NotificationsPerMinute := v \<rparr> \<rparr>)),
     (''reaping.grace_period'', Duration_field (\<lambda>v c. c\<lparr> cf_Reaping := (cf_Reaping c)\<lparr> rp_GracePeriod := v \<rparr> \<rparr>)),
     (''reaping.interval'', Duration_field (\<lambda>v c. c\<lparr> cf_Reaping := (cf_Reaping c)\<lparr> rp_Interval := v \<rparr> \<rparr>)),
     (''timeout.default_ask_timeout'', Duration_field (\<lambda>v c. c\<lparr> cf_Timeout := (cf_Timeout c)\<lparr> to_DefaultAskTimeout := v \<rparr> \<rparr>)),
     (''timeout.ask_grace_period'', Duration_field (\<lambda>v c. c\<lparr> cf_Timeout := (cf_Timeout c)\<lparr> to_AskGracePeriod := v \<rparr> \<rparr>)),
     (''heartbeat.interval'', Duration_field (\<lambda>v c. c\<lparr> cf_Heartbeat := (cf_Heartbeat c)\<lparr> hc_Interval := v \<rparr> \<rparr>)),
     (''interjection.debounce_window'',
        Duration_field (\<lambda>v c. c\<lparr> cf_Interjection := (cf_Interjection c)\<lparr> ic_DebounceWindow := v \<rparr> \<rparr>)),
     (''device_presence.stale_threshold'',
        Duration_field (\<lambda>v c. c\<lparr> cf_DevicePresence := (cf_DevicePresence c)\<lparr> dp_StaleThreshold := v \<rparr> \<rparr>)),
     (''device_presence.heartbeat_interval'',
        Duration_field (\<lambda>v c. c\<lparr> cf_DevicePresence := (cf_DevicePresence c)\<lparr> dp_HeartbeatInterval := v \<rparr> \<rparr>)),
     (''daemon.foreground'', Bool_field (\<lambda>v c. c\<lparr> cf_Daemon := (cf_Daemon c)\<lparr> dc_Foreground := v \<rparr> \<rparr>)),
     (''daemon.log_level'', Str_field (\<lambda>v c. c\<lparr> cf_Daemon := (cf_Daemon c)\<lparr> dc_LogLevel := v \<rparr> \<rparr>)),
     (''daemon.log_file'', Str_field (\<lambda>v c. c\<lparr> cf_Daemon := (cf_Daemon c)\<lparr> dc_LogFile := v \<rparr> \<rparr>)),
     (''daemon.db_path'', Str_field (\<lambda>v c. c\<lparr> cf_Daemon := (cf_Daemon c)\<lparr> dc_DBPath := v \<rparr> \<rparr>))]"

definition config_fields :: "(string \<times> field) list" where
  "config_fields = service_fields @ credential_fields @ runtime_fields"

section \<open>Decoding\<close>

datatype kind = Str_kind | Bool_kind | Int_kind nat | Duration_kind

fun kind_of :: "field \<Rightarrow> kind" where
  "kind_of (Str_field _) = Str_kind"
| "kind_of (Bool_field _) = Bool_kind"
| "kind_of (Int_field n _) = Int_kind n"
| "kind_of (Duration_field _) = Duration_kind"

text \<open>Storing a decoded value; a value of another kind does not fit.\<close>

fun store :: "field \<Rightarrow> config_value \<Rightarrow> Config \<Rightarrow> Config option" where
  "store (Str_field f) (CStr s) c = Some (f s c)"
| "store (Bool_field f) (CBool b) c = Some (f b c)"
| "store (Int_field _ f) (CInt i) c = Some (f i c)"
| "store (Duration_field f) (CDuration d) c = Some (f d c)"
| "store _ _ _ = None"

text \<open>
  The hook of \<^verbatim>\<open>Load\<close>, then the decoder's conversion to the kind of the field (an environment variable
  is text, whatever it is for). Viper's own hooks concern other types.
\<close>

type_synonym conversion = "kind \<Rightarrow> config_value \<Rightarrow> config_value option"

definition read_value :: "float_mult \<Rightarrow> conversion \<Rightarrow> kind \<Rightarrow> config_value \<Rightarrow> config_value option" where
  "read_value fl conv k v = Option.bind (stringToDurationHook fl (k = Duration_kind) v) (conv k)"

fun decode_config ::
    "float_mult \<Rightarrow> conversion \<Rightarrow> (string \<Rightarrow> config_value option) \<Rightarrow> (string \<times> field) list \<Rightarrow> Config \<Rightarrow> Config option" where
  "decode_config fl conv settings [] c = Some c"
| "decode_config fl conv settings ((k, f) # fs) c =
     (case settings k of
        None \<Rightarrow> decode_config fl conv settings fs c
      | Some v \<Rightarrow> Option.bind (Option.bind (read_value fl conv (kind_of f) v) (\<lambda>w. store f w c))
          (decode_config fl conv settings fs))"

section \<open>Load\<close>

text \<open>Where the settings file is, and what reading it gives; its settings are by key.\<close>

datatype config_source = File_at string | Settings_in string

datatype config_file = Not_found | Unreadable string | Settings "string \<Rightarrow> config_value option"

text \<open>
  Viper: the defaults, the file, the prefix and the replaced characters of environment variables
  and the environment give the settings to decode.
\<close>

type_synonym viper = "(string \<times> config_value) list \<Rightarrow> (string \<Rightarrow> config_value option) \<Rightarrow> string \<Rightarrow> char \<times> char \<Rightarrow>
  (string \<Rightarrow> string option) \<Rightarrow> string \<Rightarrow> config_value option"

datatype load_error = Read_config string | Decode_config

definition Load ::
    "float_mult \<Rightarrow> conversion \<Rightarrow> viper \<Rightarrow> (config_source \<Rightarrow> config_file) \<Rightarrow> (string \<Rightarrow> string option) \<Rightarrow>
     xdg_env \<Rightarrow> string option \<Rightarrow> string \<Rightarrow> load_error + Config" where
  "Load fl conv vp read_in getenv e user configPath =
     (let cfg = Default e user;
          defaults = setDefaults cfg;
          source = (if configPath \<noteq> '''' then File_at configPath else Settings_in (ConfigHome e));
          merge = (\<lambda>file. case decode_config fl conv (vp defaults file ''RENOTIFY'' (CHR ''.'', CHR ''_'') getenv) config_fields cfg of
                     None \<Rightarrow> Inl Decode_config | Some c \<Rightarrow> Inr c)
      in case read_in source of
           Unreadable err \<Rightarrow> Inl (Read_config err)
         | Not_found \<Rightarrow> merge (\<lambda>_. None)
         | Settings file \<Rightarrow> merge file)"

section \<open>What Load relies on\<close>

text \<open>
  The variable Viper looks up for a key: prefix and key, with the character replaced, in upper
  case. A setting is known when it has a default or the file has it; its value is that of the
  variable when it is set and not empty, else that of the file, else the default.
\<close>

definition upper :: "char \<Rightarrow> char" where
  "upper c = (case map_of (zip ''abcdefghijklmnopqrstuvwxyz'' ''ABCDEFGHIJKLMNOPQRSTUVWXYZ'') c of None \<Rightarrow> c | Some d \<Rightarrow> d)"

definition viper_variable :: "string \<Rightarrow> char \<times> char \<Rightarrow> string \<Rightarrow> string" where
  "viper_variable prefix' replace k =
     map upper (prefix' @ ''_'' @ map (\<lambda>c. if c = fst replace then snd replace else c) k)"

definition precedence ::
    "(string \<Rightarrow> string option) \<Rightarrow> string \<Rightarrow> config_value option \<Rightarrow> config_value option \<Rightarrow> config_value option" where
  "precedence getenv var file_value dflt =
     (if file_value = None \<and> dflt = None then None
      else case getenv var of
        Some s \<Rightarrow> if s \<noteq> '''' then Some (CStr s) else (case file_value of Some v \<Rightarrow> Some v | None \<Rightarrow> dflt)
      | None \<Rightarrow> (case file_value of Some v \<Rightarrow> Some v | None \<Rightarrow> dflt))"

definition viper_ok :: "viper \<Rightarrow> bool" where
  "viper_ok vp \<longleftrightarrow> (\<forall>defaults file prefix' replace getenv k.
     vp defaults file prefix' replace getenv k
       = precedence getenv (viper_variable prefix' replace k) (file k) (map_of defaults k))"

text \<open>The conversion gives values of the kind asked for, and leaves those that have it.\<close>

fun has_kind :: "kind \<Rightarrow> config_value \<Rightarrow> bool" where
  "has_kind Str_kind (CStr _) = True"
| "has_kind Bool_kind (CBool _) = True"
| "has_kind (Int_kind n) (CInt i) = (- (2 ^ (n - 1)) \<le> i \<and> i < 2 ^ (n - 1))"
| "has_kind Duration_kind (CDuration _) = True"
| "has_kind _ _ = False"

definition mapstructure_ok :: "conversion \<Rightarrow> bool" where
  "mapstructure_ok conv \<longleftrightarrow> (\<forall>k v. has_kind k v \<longrightarrow> conv k v = Some v) \<and> (\<forall>k v w. conv k v = Some w \<longrightarrow> has_kind k w)"

section \<open>The fields and the registry\<close>

text \<open>A field stores what its parameter reads, and touches no other parameter.\<close>

definition kind_of_type :: "string \<Rightarrow> kind" where
  "kind_of_type t =
     (if t = ''bool'' then Bool_kind else if t = ''duration'' then Duration_kind
      else if t = ''int'' \<or> t = ''int64'' then Int_kind 64 else if t = ''int32'' then Int_kind 32 else Str_kind)"

definition stores :: "field \<Rightarrow> ParamInfo \<Rightarrow> bool" where
  "stores f p \<longleftrightarrow> kind_of f = kind_of_type (pi_Type p) \<and> (\<forall>v c c'. store f v c = Some c' \<longrightarrow> pi_Resolve p c' = v)"

definition spares :: "field \<Rightarrow> (Config \<Rightarrow> 'a) \<Rightarrow> bool" where
  "spares f get \<longleftrightarrow> (\<forall>v c c'. store f v c = Some c' \<longrightarrow> get c' = get c)"

lemma spares_field [simp]:
  "spares (Str_field g) get \<longleftrightarrow> (\<forall>s c. get (g s c) = get c)"
  "spares (Bool_field h) get \<longleftrightarrow> (\<forall>b c. get (h b c) = get c)"
  "spares (Int_field n i) get \<longleftrightarrow> (\<forall>x c. get (i x c) = get c)"
  "spares (Duration_field j) get \<longleftrightarrow> (\<forall>x c. get (j x c) = get c)"
proof -
  have "store f v c = Some c' \<longleftrightarrow> (case (f, v) of (Str_field g, CStr s) \<Rightarrow> c' = g s c | (Bool_field g, CBool b) \<Rightarrow> c' = g b c
      | (Int_field n g, CInt i) \<Rightarrow> c' = g i c | (Duration_field g, CDuration d) \<Rightarrow> c' = g d c | _ \<Rightarrow> False)" for f v c c'
    by (cases f; cases v) auto
  note s = this
  show "spares (Str_field g) get \<longleftrightarrow> (\<forall>s c. get (g s c) = get c)"
    "spares (Bool_field h) get \<longleftrightarrow> (\<forall>b c. get (h b c) = get c)"
    "spares (Int_field n i) get \<longleftrightarrow> (\<forall>x c. get (i x c) = get c)"
    "spares (Duration_field j) get \<longleftrightarrow> (\<forall>x c. get (j x c) = get c)"
    by (auto simp: spares_def s split: config_value.splits)
qed

lemma stores_field [simp]:
  "stores (Str_field g) p \<longleftrightarrow> Str_kind = kind_of_type (pi_Type p) \<and> (\<forall>s c. pi_Resolve p (g s c) = CStr s)"
  "stores (Bool_field h) p \<longleftrightarrow> Bool_kind = kind_of_type (pi_Type p) \<and> (\<forall>b c. pi_Resolve p (h b c) = CBool b)"
  "stores (Int_field n i) p \<longleftrightarrow> Int_kind n = kind_of_type (pi_Type p) \<and> (\<forall>x c. pi_Resolve p (i x c) = CInt x)"
  "stores (Duration_field j) p \<longleftrightarrow> Duration_kind = kind_of_type (pi_Type p) \<and> (\<forall>x c. pi_Resolve p (j x c) = CDuration x)"
proof -
  have "store f v c = Some c' \<longleftrightarrow> (case (f, v) of (Str_field g, CStr s) \<Rightarrow> c' = g s c | (Bool_field g, CBool b) \<Rightarrow> c' = g b c
      | (Int_field n g, CInt i) \<Rightarrow> c' = g i c | (Duration_field g, CDuration d) \<Rightarrow> c' = g d c | _ \<Rightarrow> False)" for f v c c'
    by (cases f; cases v) auto
  note s = this
  show "stores (Str_field g) p \<longleftrightarrow> Str_kind = kind_of_type (pi_Type p) \<and> (\<forall>s c. pi_Resolve p (g s c) = CStr s)"
    "stores (Bool_field h) p \<longleftrightarrow> Bool_kind = kind_of_type (pi_Type p) \<and> (\<forall>b c. pi_Resolve p (h b c) = CBool b)"
    "stores (Int_field n i) p \<longleftrightarrow> Int_kind n = kind_of_type (pi_Type p) \<and> (\<forall>x c. pi_Resolve p (i x c) = CInt x)"
    "stores (Duration_field j) p \<longleftrightarrow> Duration_kind = kind_of_type (pi_Type p) \<and> (\<forall>x c. pi_Resolve p (j x c) = CDuration x)"
    by (auto simp: stores_def s split: config_value.splits)
qed

text \<open>The registry has the fields in order, but for the credentials.\<close>

definition fits :: "(string \<times> field) \<Rightarrow> ParamInfo \<Rightarrow> bool" where
  "fits kf p \<longleftrightarrow> fst kf = pi_Key p \<and> stores (snd kf) p"

lemma registry_fields:
  "list_all2 fits (service_fields @ runtime_fields) ConfigRegistry"
  by (simp add: fits_def service_fields_def runtime_fields_def registry_defs param_def kind_of_type_def)

lemma fields_keys: "distinct (map fst config_fields)"
  by (simp add: config_fields_def service_fields_def credential_fields_def runtime_fields_def)

text \<open>A list of fields that leaves what \<open>get\<close> reads alone, but for the field of one key.\<close>

definition all_spare :: "(string \<times> field) list \<Rightarrow> string \<Rightarrow> (Config \<Rightarrow> 'a) \<Rightarrow> bool" where
  "all_spare fs key get \<longleftrightarrow> list_all (\<lambda>(k, f). k = key \<or> spares f get) fs"

lemma service_spare: "list_all (\<lambda>p. all_spare service_fields (pi_Key p) (pi_Resolve p)) ConfigRegistry"
  by (simp add: all_spare_def service_fields_def registry_defs param_def)

lemma credential_spare: "list_all (\<lambda>p. all_spare credential_fields (pi_Key p) (pi_Resolve p)) ConfigRegistry"
  by (simp add: all_spare_def credential_fields_def registry_defs param_def)

lemma runtime_spare: "list_all (\<lambda>p. all_spare runtime_fields (pi_Key p) (pi_Resolve p)) ConfigRegistry"
  by (simp add: all_spare_def runtime_fields_def registry_defs param_def)

lemma fields_spare: "p \<in> set ConfigRegistry \<Longrightarrow> all_spare config_fields (pi_Key p) (pi_Resolve p)"
  using service_spare credential_spare runtime_spare by (simp add: list_all_iff all_spare_def config_fields_def ball_Un)

text \<open>The credentials, each with its key.\<close>

definition credentials :: "(string \<times> (SharedBrokerConfig \<Rightarrow> string)) list" where
  "credentials = [(''shared_broker.username'', sb_Username), (''shared_broker.password'', sb_Password),
     (''shared_broker.token'', sb_Token), (''shared_broker.ca_cert'', sb_CACert),
     (''shared_broker.client_cert'', sb_ClientCert), (''shared_broker.client_key'', sb_ClientKey)]"

lemma credentials_spare:
  "list_all (\<lambda>(k, get). all_spare config_fields k (\<lambda>c. get (cf_SharedBroker c))) credentials"
  by (simp add: credentials_def all_spare_def config_fields_def service_fields_def credential_fields_def runtime_fields_def)

lemma credentials_unregistered:
  "list_all (\<lambda>(k, get). map_of (setDefaults c) k = None) credentials"
  by (simp add: credentials_def setDefaults_def registry_defs param_def)

section \<open>Decoding all fields\<close>

lemma decode_spares:
  "decode_config fl conv settings fs c = Some c' \<Longrightarrow> \<forall>(k, f) \<in> set fs. settings k = None \<or> spares f get \<Longrightarrow> get c' = get c"
proof (induction fs arbitrary: c)
  case (Cons kf fs)
  obtain k f where kf: "kf = (k, f)" by force
  show ?case
  proof (cases "settings k")
    case None
    with Cons kf show ?thesis by simp
  next
    case (Some v)
    with Cons.prems(1) kf obtain w c1 where c1: "store f w c = Some c1" "decode_config fl conv settings fs c1 = Some c'"
      by (auto simp: bind_eq_Some_conv)
    moreover have "spares f get" using Cons.prems(2) kf Some by simp
    ultimately have "get c1 = get c" by (auto simp: spares_def)
    with Cons.IH [OF c1(2)] Cons.prems(2) kf show ?thesis by simp
  qed
qed simp

lemma decode_stores:
  assumes "decode_config fl conv settings fs c = Some c'" and "distinct (map fst fs)" and "(k, f) \<in> set fs"
    and "settings k = Some v" and "all_spare fs k get" and "\<And>w c c'. store f w c = Some c' \<Longrightarrow> get c' = w"
  shows "read_value fl conv (kind_of f) v = Some (get c')"
  using assms(1-3,5)
proof (induction fs arbitrary: c)
  case (Cons kf fs)
  obtain k' f' where kf: "kf = (k', f')" by force
  show ?case
  proof (cases "k' = k")
    case True
    with Cons.prems(2,3) kf have "f' = f" by (force simp: image_iff)
    with True Cons.prems(1) kf assms(4) obtain w c1 where w: "read_value fl conv (kind_of f) v = Some w" "store f w c = Some c1"
      "decode_config fl conv settings fs c1 = Some c'" by (auto simp: bind_eq_Some_conv)
    have "\<forall>(j, g) \<in> set fs. settings j = None \<or> spares g get"
      using Cons.prems(2,4) True kf by (force simp: all_spare_def list_all_iff image_iff)
    from decode_spares [OF w(3) this] w(1) assms(6) [OF w(2)] show ?thesis by simp
  next
    case False
    with Cons.prems kf obtain c1 where "decode_config fl conv settings fs c1 = Some c'"
      by (cases "settings k'") (auto simp: bind_eq_Some_conv)
    with Cons.IH Cons.prems False kf show ?thesis by (auto simp: all_spare_def)
  qed
qed simp

lemma registered_field:
  assumes "p \<in> set ConfigRegistry"
  obtains f where "(pi_Key p, f) \<in> set config_fields" "stores f p"
proof -
  from assms obtain i where i: "i < length ConfigRegistry" "p = ConfigRegistry ! i" by (auto simp: in_set_conv_nth)
  have "i < length (service_fields @ runtime_fields)" using i(1) list_all2_lengthD [OF registry_fields] by simp
  moreover from this have "fits ((service_fields @ runtime_fields) ! i) p"
    using list_all2_nthD [OF registry_fields] i(2) by blast
  ultimately obtain f where "(pi_Key p, f) \<in> set (service_fields @ runtime_fields)" "stores f p"
    by (metis fits_def nth_mem prod.collapse)
  then show ?thesis by (intro that) (auto simp: config_fields_def)
qed

lemma default_of:
  "p \<in> set ConfigRegistry \<Longrightarrow> map_of (setDefaults c) (pi_Key p) = Some (viper_default (pi_Resolve p c))"
  using registry_keys by (intro map_of_is_SomeI) (auto simp: setDefaults_def o_def)

lemma variable_of_key: "viper_variable ''RENOTIFY'' (CHR ''.'', CHR ''_'') k = env_of_key k"
proof -
  have char: "upper (if c = CHR ''.'' then CHR ''_'' else c) = env_char c" for c
    by (cases "c = CHR ''.''") (simp_all add: upper_def env_char_def)
  have "map upper ''RENOTIFY_'' = ''RENOTIFY_''" by (simp add: upper_def)
  moreover have "map upper (map (\<lambda>c. if c = CHR ''.'' then CHR ''_'' else c) k) = map env_char k"
    unfolding map_map o_def char ..
  ultimately show ?thesis unfolding viper_variable_def env_of_key_def fst_conv snd_conv by simp
qed

lemma registry_variables:
  "p \<in> set ConfigRegistry \<Longrightarrow> viper_variable ''RENOTIFY'' (CHR ''.'', CHR ''_'') (pi_Key p) = pi_EnvVar p"
  using registry_env by (simp add: variable_of_key list_all_iff)

lemma precedence_known: "\<exists>v. precedence getenv var file_value (Some d) = Some v"
  by (auto simp: precedence_def split: option.split)

text \<open>The settings of the file that a source gives; none when there is no file.\<close>

definition file_settings :: "config_file \<Rightarrow> string \<Rightarrow> config_value option" where
  "file_settings r k = (case r of Settings file \<Rightarrow> file k | _ \<Rightarrow> None)"

definition config_source_of :: "xdg_env \<Rightarrow> string \<Rightarrow> config_source" where
  "config_source_of e path = (if path \<noteq> '''' then File_at path else Settings_in (ConfigHome e))"

lemma Load_decodes:
  assumes "Load fl conv vp read_in getenv e user path = Inr cfg"
  shows "decode_config fl conv (vp (setDefaults (Default e user)) (file_settings (read_in (config_source_of e path)))
    ''RENOTIFY'' (CHR ''.'', CHR ''_'') getenv) config_fields (Default e user) = Some cfg"
proof -
  have "file_settings (Settings f) = f" "file_settings Not_found = (\<lambda>_. None)" for f
    by (simp_all add: file_settings_def fun_eq_iff)
  then show ?thesis using assms
    by (auto simp: Load_def Let_def config_source_of_def split: config_file.splits option.splits if_splits)
qed

text \<open>Without a file and variables, what loads are the compiled defaults.\<close>

lemma stored_same:
  "list_all2 (\<lambda>(k, f) p. store f (pi_Resolve p c) c = Some c) (service_fields @ runtime_fields) ConfigRegistry"
  by (simp add: service_fields_def runtime_fields_def registry_defs param_def)

lemma default_kinds:
  "list_all (\<lambda>p. has_kind (kind_of_type (pi_Type p)) (pi_Resolve p (Default e user))) ConfigRegistry"
  by (simp add: registry_defs param_def kind_of_type_def Default_def)

lemma default_durations: "durations_ok (Default e user)"
  by (simp add: durations_ok_def registry_defs param_def Default_def int64_def)

lemma decode_same:
  assumes "\<And>k f. (k, f) \<in> set fs \<Longrightarrow> settings k = None
      \<or> (\<exists>v w. settings k = Some v \<and> read_value fl conv (kind_of f) v = Some w \<and> store f w c = Some c)"
  shows "decode_config fl conv settings fs c = Some c"
  using assms
proof (induction fs)
  case (Cons kf fs)
  obtain k f where kf: "kf = (k, f)" by force
  from Cons.prems [of k f] kf Cons.IH Cons.prems show ?case by (cases "settings k") auto
qed simp

lemma default_reads:
  assumes "mapstructure_ok conv" and "exact_fraction fl" and p: "p \<in> set ConfigRegistry"
  shows "read_value fl conv (kind_of_type (pi_Type p)) (viper_default (pi_Resolve p (Default e user)))
    = Some (pi_Resolve p (Default e user))"
proof -
  let ?k = "kind_of_type (pi_Type p)" and ?v = "pi_Resolve p (Default e user)"
  have k: "has_kind ?k ?v" using default_kinds [of e user] p by (simp add: list_all_iff)
  then have "conv ?k ?v = Some ?v" using assms(1) by (simp add: mapstructure_ok_def)
  moreover have "stringToDurationHook fl (?k = Duration_kind) (viper_default ?v) = Some ?v"
  proof (rule hook_default [OF assms(2)])
    show "case ?v of CDuration d \<Rightarrow> ?k = Duration_kind \<and> int64 d | CStr s \<Rightarrow> \<not> ?k = Duration_kind | _ \<Rightarrow> True"
      using k p default_durations [of e user]
      by (cases ?k; cases ?v) (auto simp: durations_ok_def list_all_iff split: config_value.splits)
  qed
  ultimately show ?thesis by (simp add: read_value_def)
qed

lemma field_registered:
  assumes "(k, f) \<in> set config_fields"
  obtains "k \<in> fst ` set credentials"
  | p where "p \<in> set ConfigRegistry" "fits (k, f) p" "\<And>c. store f (pi_Resolve p c) c = Some c"
proof (cases "(k, f) \<in> set credential_fields")
  case True
  then have "k \<in> fst ` set credentials" by (auto simp: credentials_def credential_fields_def)
  then show ?thesis by (rule that(1))
next
  case False
  with assms have "(k, f) \<in> set (service_fields @ runtime_fields)" by (auto simp: config_fields_def)
  then obtain i where i: "i < length (service_fields @ runtime_fields)" "(service_fields @ runtime_fields) ! i = (k, f)"
    by (metis in_set_conv_nth)
  show ?thesis
  proof (rule that(2) [of "ConfigRegistry ! i"])
    show "ConfigRegistry ! i \<in> set ConfigRegistry" using i(1) list_all2_lengthD [OF registry_fields] by simp
    show "fits (k, f) (ConfigRegistry ! i)" using list_all2_nthD [OF registry_fields i(1)] by (simp add: i(2))
    show "store f (pi_Resolve (ConfigRegistry ! i) c) c = Some c" for c
      using list_all2_nthD [OF stored_same i(1), of c] by (simp add: i(2))
  qed
qed

theorem load_defaults:
  assumes "viper_ok vp" and "mapstructure_ok conv" and "exact_fraction fl"
    and "read_in (config_source_of e path) = Not_found" and "\<And>var. getenv var = None"
  shows "Load fl conv vp read_in getenv e user path = Inr (Default e user)"
proof -
  let ?c = "Default e user"
  let ?S = "vp (setDefaults ?c) (\<lambda>_. None) ''RENOTIFY'' (CHR ''.'', CHR ''_'') getenv"
  have "?S k = precedence getenv (viper_variable ''RENOTIFY'' (CHR ''.'', CHR ''_'') k) None (map_of (setDefaults ?c) k)" for k
    using assms(1) by (simp add: viper_ok_def)
  then have S: "?S k = map_of (setDefaults ?c) k" for k by (simp add: precedence_def assms(5) split: option.split)
  have "decode_config fl conv ?S config_fields ?c = Some ?c"
  proof (rule decode_same)
    fix k f assume kf: "(k, f) \<in> set config_fields"
    show "?S k = None \<or> (\<exists>v w. ?S k = Some v \<and> read_value fl conv (kind_of f) v = Some w \<and> store f w ?c = Some ?c)"
    proof (rule field_registered [OF kf])
      assume "k \<in> fst ` set credentials"
      then show ?thesis using credentials_unregistered [of ?c] by (force simp: S list_all_iff)
    next
      fix p assume p: "p \<in> set ConfigRegistry" "fits (k, f) p" "\<And>c. store f (pi_Resolve p c) c = Some c"
      have "?S k = Some (viper_default (pi_Resolve p ?c))" using p(2) by (simp add: S fits_def default_of [OF p(1)])
      with p default_reads [OF assms(2,3) p(1), of e user] show ?thesis by (auto simp: fits_def stores_def)
    qed
  qed
  then show ?thesis by (simp add: Load_def Let_def assms(4) flip: config_source_of_def)
qed

text \<open>Loading fails only on a file that cannot be read and on a value that cannot be decoded.\<close>

lemma decode_succeeds:
  assumes "mapstructure_ok conv"
    and "\<forall>(k, f) \<in> set fs. \<forall>v. settings k = Some v \<longrightarrow> read_value fl conv (kind_of f) v \<noteq> None"
  shows "\<exists>c'. decode_config fl conv settings fs c = Some c'"
  using assms(2)
proof (induction fs arbitrary: c)
  case (Cons kf fs)
  obtain k f where kf: "kf = (k, f)" by force
  show ?case
  proof (cases "settings k")
    case None
    with Cons kf show ?thesis by simp
  next
    case (Some v)
    with Cons.prems kf obtain w where w: "read_value fl conv (kind_of f) v = Some w" by auto
    then have "has_kind (kind_of f) w" using assms(1) by (auto simp: read_value_def mapstructure_ok_def bind_eq_Some_conv)
    then obtain c1 where "store f w c = Some c1" by (cases f; cases w) auto
    with Cons Some w kf show ?thesis by simp
  qed
qed simp


text \<open>A merge and a conversion that do what is relied on, and a file that sets one port.\<close>

definition a_viper :: viper where
  "a_viper defaults file prefix' replace getenv k =
     precedence getenv (viper_variable prefix' replace k) (file k) (map_of defaults k)"

definition strict_conversion :: conversion where
  "strict_conversion k v = (if has_kind k v then Some v else None)"

definition a_settings_file :: config_file where
  "a_settings_file = Settings (\<lambda>k. if k = ''broker.tcp_port'' then Some (CInt 5222) else None)"

definition a_home :: xdg_env where
  "a_home = \<lparr> xe_config = '''', xe_state = '''', xe_home = ''/home/alice'' \<rparr>"

lemma a_viper_ok: "viper_ok a_viper" "mapstructure_ok strict_conversion" "exact_fraction exact_mult"
  by (auto simp: viper_ok_def a_viper_def mapstructure_ok_def strict_conversion_def exact_fraction_def exact_mult_def)

definition a_load :: "load_error + Config" where
  "a_load = Load exact_mult strict_conversion a_viper (\<lambda>_. a_settings_file) (map_of [(''RENOTIFY_MCP_HOST'', ''::1'')])
     a_home (Some ''alice'') ''''"

lemma a_load_succeeds: "\<exists>cfg. a_load = Inr cfg"
proof -
  let ?c = "Default a_home (Some ''alice'')" and ?env = "map_of [(''RENOTIFY_MCP_HOST'', ''::1'')]"
  let ?file = "\<lambda>k. if k = ''broker.tcp_port'' then Some (CInt 5222) else None"
  let ?S = "a_viper (setDefaults ?c) ?file ''RENOTIFY'' (CHR ''.'', CHR ''_'') ?env"
  have "read_value exact_mult strict_conversion (kind_of f) v \<noteq> None"
    if kf: "(k, f) \<in> set config_fields" and v: "?S k = Some v" for k f v
  proof (rule field_registered [OF kf])
    assume "k \<in> fst ` set credentials"
    then have "?file k = None" "map_of (setDefaults ?c) k = None"
      using credentials_unregistered [of ?c] by (auto simp: credentials_def list_all_iff)
    with v show ?thesis by (simp add: a_viper_def precedence_def)
  next
    fix p assume p: "p \<in> set ConfigRegistry" "fits (k, f) p"
    then have k: "k = pi_Key p" "kind_of f = kind_of_type (pi_Type p)" by (simp_all add: fits_def stores_def)
    have prec: "precedence ?env (pi_EnvVar p) (?file (pi_Key p)) (Some (viper_default (pi_Resolve p ?c))) = Some v"
      using v by (simp add: a_viper_def k registry_variables [OF p(1)] default_of [OF p(1)])
    have types: "list_all (\<lambda>p. pi_EnvVar p = ''RENOTIFY_MCP_HOST'' \<longrightarrow> pi_Type p = ''string'') ConfigRegistry"
      "list_all (\<lambda>p. pi_Key p = ''broker.tcp_port'' \<longrightarrow> pi_Type p = ''int'') ConfigRegistry"
      by (simp_all add: registry_defs param_def)
    consider (variable) "pi_EnvVar p = ''RENOTIFY_MCP_HOST''" "v = CStr ''::1''" | (port) "pi_Key p = ''broker.tcp_port''" "v = CInt 5222"
      | (other) "v = viper_default (pi_Resolve p ?c)"
      using prec by (auto simp: precedence_def split: if_splits)
    then show ?thesis
    proof cases
      case other
      with default_reads [OF a_viper_ok(2,3) p(1)] show ?thesis by (simp add: k)
    qed (use types p(1) in \<open>simp_all add: list_all_iff k kind_of_type_def read_value_def stringToDurationHook_def strict_conversion_def\<close>)
  qed
  then have "\<exists>c'. decode_config exact_mult strict_conversion ?S config_fields ?c = Some c'"
    by (intro decode_succeeds [OF a_viper_ok(2)]) auto
  then show ?thesis by (auto simp: a_load_def Load_def Let_def a_settings_file_def)
qed


section \<open>root.go\<close>

text \<open>
  The command line is Cobra's to parse: it finds a command with its \<^verbatim>\<open>RunE\<close>, or fails with an error
  of its own, which is no \<^verbatim>\<open>CodedError\<close>. \<^verbatim>\<open>PersistentPreRunE\<close> runs before every command that is run,
  also before \<^verbatim>\<open>version\<close>, which has no need of a configuration; help is printed without it.
\<close>

datatype 'm root_error = Config_failed load_error | Cobra_error string | Command_error 'm

datatype 'm parsed = Bad_usage string | Help | Run string "Config \<Rightarrow> 'm go_error option"

definition PersistentPreRunE :: "(string \<Rightarrow> load_error + Config) \<Rightarrow> string \<Rightarrow> 'm root_error go_error + Config" where
  "PersistentPreRunE load configPath =
     (case load configPath of Inl err \<Rightarrow> Inl (CodedError Error (Config_failed err)) | Inr cfg \<Rightarrow> Inr cfg)"

definition wrap_error :: "'m go_error \<Rightarrow> 'm root_error go_error" where
  "wrap_error e = (case e of CodedError c m \<Rightarrow> CodedError c (Command_error m) | OtherError m \<Rightarrow> OtherError (Command_error m))"

text \<open>The command carries the value of \<^verbatim>\<open>--config\<close>.\<close>

definition root_Execute :: "(string \<Rightarrow> load_error + Config) \<Rightarrow> 'm parsed \<Rightarrow> 'm root_error go_error option" where
  "root_Execute load cmd =
     (case cmd of
        Bad_usage err \<Rightarrow> Some (OtherError (Cobra_error err))
      | Help \<Rightarrow> None
      | Run configPath body \<Rightarrow>
          (case PersistentPreRunE load configPath of
             Inl err \<Rightarrow> Some err
           | Inr cfg \<Rightarrow> map_option wrap_error (body cfg)))"

text \<open>The errors printed to standard error, and the exit code of the process.\<close>

definition Execute :: "'m root_error go_error option \<Rightarrow> 'm root_error go_error list \<times> int" where
  "Execute result = (case result of None \<Rightarrow> ([], Success) | Some err \<Rightarrow> ([err], ExitCode (Some err)))"

text \<open>
  A command line that Cobra rejects ends with the general error code, not with that for usage errors;
  a failed load ends before the command; else the command's error decides.
\<close>

lemma exit_codes:
  "snd (Execute (root_Execute load (Bad_usage err))) = Error"
  "load path = Inl e \<Longrightarrow> snd (Execute (root_Execute load (Run path body))) = Error"
  "load path = Inr cfg \<Longrightarrow> snd (Execute (root_Execute load (Run path body))) = ExitCode (body cfg)"
  by (simp_all add: Execute_def root_Execute_def PersistentPreRunE_def wrap_error_def split: option.split go_error.split)

end
