(* ===== verification/Serve.thy ===== *)
theory Serve
  imports Netutil Daemon Relay McpServer
begin

text \<open>
  The small commands around the client application (cli/internal/command: apk.go, version.go), and
  the daemon's HTTP server (cli/internal/httpserver) as a subsystem. Listening, the embedded file
  and the build information are arguments; serving a request is the HTTP library.
\<close>

section \<open>apk.go\<close>

datatype apk_error = No_apk | Write_apk string | Listen_apk

definition loadAPK :: "string option \<Rightarrow> apk_error + string" where
  "loadAPK embedded = (case embedded of None \<Rightarrow> Inl No_apk | Some data \<Rightarrow> Inr data)"


definition apk_extract :: "io \<Rightarrow> string option \<Rightarrow> string \<Rightarrow> host \<Rightarrow> apk_error option \<times> host" where
  "apk_extract e embedded output h =
     (case loadAPK embedded of
        Inl er \<Rightarrow> (Some er, h)
      | Inr data \<Rightarrow>
          (case write_err e output of
             Some junk \<Rightarrow> (Some (Write_apk output), h\<lparr> ho_fs := put_file (ho_fs h) output junk perm644 \<rparr>)
           | None \<Rightarrow> (None, host_out (''APK written to '' @ output @ '' ('' @ itoa (int (length data)) @ '' bytes)'')
                (h\<lparr> ho_fs := put_file (ho_fs h) output (Text data) perm644 \<rparr>))))"

text \<open>The address to bind: the flag, or the preferred address of the machine.\<close>

definition bind_address :: "interface list option \<Rightarrow> string \<Rightarrow> string" where
  "bind_address ifaces addr =
     (if addr = '''' then IP_String (PreferredIP (case DiscoverIPs ifaces of None \<Rightarrow> [] | Some ips \<Rightarrow> ips)) else addr)"

text \<open>The text after the last colon.\<close>

definition port_of :: "string \<Rightarrow> string" where
  "port_of a = (case last_index_byte (CHR '':'') a of None \<Rightarrow> '''' | Some i \<Rightarrow> drop (Suc i) a)"

text \<open>
  \<open>listen\<close> is \<^verbatim>\<open>net.Listen\<close> with the address it got; the QR code is drawn from the URL. The command
  ends with the interrupt, its result that of closing the server.
\<close>

definition apk_serve ::
    "(string \<Rightarrow> string option) \<Rightarrow> bool \<Rightarrow> string option \<Rightarrow> interface list option \<Rightarrow> string \<Rightarrow> int \<Rightarrow> host \<Rightarrow>
     apk_error option \<times> host" where
  "apk_serve listen linux embedded ifaces addr port h =
     (case loadAPK embedded of
        Inl er \<Rightarrow> (Some er, h)
      | Inr data \<Rightarrow>
          (case listen (bind_address ifaces addr @ '':'' @ itoa port) of
             None \<Rightarrow> (Some Listen_apk, h)
           | Some listenAddr \<Rightarrow>
               let url = ''http://'' @ listenAddr @ ''/renotify.apk'' in
               (None, fold host_out
                 ([''Serving APK at: '' @ url, ''Scan the QR code to download:'', '''', url]
                  @ (if linux then ['''', ''Firewall: allow temporary access then remove after download:'',
                       ''  sudo ufw allow '' @ port_of listenAddr @ ''/tcp comment '' @ [CHR 0x27] @ ''renotify apk serve'' @ [CHR 0x27],
                       ''  sudo ufw delete allow '' @ port_of listenAddr @ ''/tcp''] else [])
                  @ ['''', ''Press Ctrl-C to stop.'', '''', ''Shutting down.'']) h)))"

section \<open>version.go\<close>

text \<open>The build settings, as key and value, when there are any.\<close>

fun vcs_settings :: "(string \<times> string) list \<Rightarrow> string \<Rightarrow> bool \<Rightarrow> string \<times> bool" where
  "vcs_settings [] commit dirty = (commit, dirty)"
| "vcs_settings ((k, v) # kvs) commit dirty =
     (if k = ''vcs.revision'' then vcs_settings kvs v dirty
      else if k = ''vcs.modified'' then vcs_settings kvs commit (v = ''true'')
      else vcs_settings kvs commit dirty)"

definition vcsInfo :: "(string \<times> string) list option \<Rightarrow> string \<times> bool" where
  "vcsInfo info =
     (case info of
        None \<Rightarrow> (''unknown'', False)
      | Some settings \<Rightarrow>
          (case vcs_settings settings '''' False of (commit, dirty) \<Rightarrow>
             if commit = '''' then (''unknown'', False) else (take 7 commit, dirty)))"

definition version_cmd :: "(string \<times> string) list option \<Rightarrow> host \<Rightarrow> host" where
  "version_cmd info h =
     (case vcsInfo info of (commit, dirty) \<Rightarrow>
        host_out (''renotify '' @ commit @ (if dirty then '' (dirty)'' else '''')) h)"

section \<open>httpserver/server.go\<close>

record http_server =
  hs_host :: string
  hs_port :: int
  hs_patterns :: "string list"
  hs_addr :: string
  hs_serving :: bool

definition new_http_server :: "string \<Rightarrow> int \<Rightarrow> http_server" where
  "new_http_server host' port = \<lparr> hs_host = host', hs_port = port, hs_patterns = [], hs_addr = '''', hs_serving = False \<rparr>"

definition http_Handle :: "string \<Rightarrow> http_server \<Rightarrow> http_server" where
  "http_Handle pattern s = s\<lparr> hs_patterns := hs_patterns s @ [pattern] \<rparr>"

text \<open>\<^verbatim>\<open>Start\<close>: the answer as the controller sees it, an error of \<^verbatim>\<open>Start\<close> coming before the signal.\<close>

definition http_Start :: "(string \<Rightarrow> string option) \<Rightarrow> http_server \<Rightarrow> sub_answer \<times> http_server" where
  "http_Start listen s =
     (case listen (hs_host s @ '':'' @ itoa (hs_port s)) of
        None \<Rightarrow> (Start_fails, s)
      | Some addr \<Rightarrow> (Becomes_ready, s\<lparr> hs_addr := addr, hs_serving := True \<rparr>))"

definition http_Stop :: "http_server \<Rightarrow> http_server" where
  "http_Stop s = s\<lparr> hs_serving := False \<rparr>"

text \<open>
  \<^verbatim>\<open>Start\<close> and \<^verbatim>\<open>Stop\<close> of the MCP server as a subsystem: its client, the interjection consumer and the
  stdio relay (both only with a user name), then its two paths on the HTTP server. The arguments
  say what succeeds; \<open>nc\<close> is whether there is a connection.
\<close>

definition mcp_Start ::
    "bool \<Rightarrow> bool \<Rightarrow> bool \<Rightarrow> bool \<Rightarrow> bool \<Rightarrow> relay \<Rightarrow> http_server \<Rightarrow> sub_answer \<times> relay \<times> http_server" where
  "mcp_Start nc js_ok consumer_ok open_ok close_ok r s =
     (let paths = http_Handle ''/sse'' (http_Handle ''/mcp'' s) in
      if \<not> nc then (Becomes_ready, r, paths)
      else if \<not> js_ok then (Start_fails, r, s)
      else if rl_username r = '''' then (Becomes_ready, r, paths)
      else if \<not> consumer_ok then (Start_fails, r, s)
      else case startStdioRelay open_ok close_ok r of
        (False, r1) \<Rightarrow> (Start_fails, r1, s)
      | (True, r1) \<Rightarrow> (Becomes_ready, r1, paths))"

definition mcp_Stop :: "Server \<Rightarrow> relay \<Rightarrow> Server \<times> relay" where
  "mcp_Stop srv r =
     (let (ns, m) = CancelAll (sv_subscribers srv)
      in (cancel_goroutines ns (srv\<lparr> sv_subscribers := m \<rparr>), stopStdioRelay r))"

text \<open>The response writer of the logging middleware: the status it reports is the one written, 200 if none.\<close>

definition logged_status :: "int list \<Rightarrow> int" where
  "logged_status written = fold (\<lambda>code _. code) written 200"

lemma logged_last: "logged_status written = (if written = [] then 200 else last written)"
proof -
  have "fold (\<lambda>code _. code) ws c = (if ws = [] then c else last ws)" for ws and c :: int by (induction ws arbitrary: c) auto
  then show ?thesis by (simp add: logged_status_def)
qed

end
