(* ===== verification/Spec2Isabelle.thy ===== *)
theory Spec2Isabelle
  imports Crockford RegistryLaws Migrate McpLaws Config CommandLaws ControllerLaws
    Pairing Relay StateBus Telemetry ConfigCmd ConfigLoad Serve
begin

text \<open>
  Verification development for renotify, the notification system that puts a person in the loop of
  scripts and agents: the Go program under cli (command line and daemon in one binary). The Kotlin
  client under clients/android is not part of it.

  \<^bold>\<open>The program.\<close> The daemon (cli/internal/daemon) runs an embedded NATS server (cli/internal/broker)
  with one account for itself and one for each paired phone, and its subsystems in order: the
  ledger (SQLite), the HTTP server, the MCP server for agents, the heartbeat, the presence tracker,
  the registry of active flows. A flow is a script or agent session; it posts notifications and asks
  questions over JetStream subjects, the phone answers, the registry records everything in the
  ledger and answers queries. The commands (cli/internal/command) are clients of the same broker,
  or work on the files under the state directory (cli/internal/state).

  \<^bold>\<open>How the model is built.\<close> Each operation is one function with the name it has in the source; a
  clash with another package's name is resolved by a prefix or suffix. State is passed explicitly in
  records with the fields of the Go struct. Errors are values of a datatype in a sum or option.
  What the program asks of the outside is an argument: which system calls, statements and
  publications fail, random bytes, UUIDs, hashes, the clock, what the NATS server answers, how a
  sorting routine orders equal elements. Functions that lock are one step; goroutines, timers and
  handlers that interleave are step relations. JSON messages are values, not texts; times are
  nanoseconds on the Unix time line; text is bytes. Durations and other 64-bit integers are
  integers, with the bounds where the source can overflow or truncate; bytes are 8-bit words.

  \<^bold>\<open>Foundations.\<close>
  \<^item> Prelude: Go maps as association lists, byte searches, TrimSpace, durations, sorting.
  \<^item> GoTime, GoDuration, Duration: RFC 3339 formatting and parsing, time.Duration.String,
    time.ParseDuration with its overflow checks (cli/internal/config/duration.go); round trips.
  \<^item> Json: encoding/json on values: struct decoding, omitempty, null, key folding.
  \<^item> Paths: filepath.Clean and Join, cli/internal/xdg.

  \<^bold>\<open>Data.\<close>
  \<^item> Crockford (cli/internal/crockford): encoder and decoder bit by bit; round trip, errors.
  \<^item> Payload (cli/internal/payload), Statesvc (cli/internal/statesvc): the messages and queries with
    their codecs; round trips.
  \<^item> StateFiles (cli/internal/state): a file system whose calls may fail, atomic writes, the device
    registry, the daemon id, the migration of the single token; crash safety of the registry, the
    operations as a map, what each identifier looks like.

  \<^bold>\<open>Broker and daemon.\<close>
  \<^item> Broker (cli/internal/broker: subjects.go, auth.go, jetstream.go; cli/internal/exitcode): which
    subjects a phone may use and that it can reach no other phone's; the streams.
  \<^item> Controller, ControllerLaws (cli/internal/daemon, broker/embedded.go, client.go): a run as a trace;
    what is started is stopped; a revoked device is locked out by the reload.
  \<^item> Daemon (command/daemon.go, signal.go): the PID file, start, stop, status, reload.
  \<^item> Netutil, Tlsgen, Pairing (cli/internal/netutil, tlsgen, pairing, command/pair.go, pairings.go,
    revoke.go, silent.go): the addresses, the certificate, the pairing and what it changes, revoking;
    the code pins the certificate that was made for the addresses found.
  \<^item> Serve (httpserver, mcpserver/server.go Start and Stop, command/apk.go, version.go).

  \<^bold>\<open>Ledger and registry.\<close>
  \<^item> Ledger, History, Migrate (cli/internal/ledger): tables as lists of rows with their constraints,
    every statement with a fault at any point of its transaction, the timeline and its pages, the
    schema migration; constraints are kept, redelivery changes nothing, a migration can be resumed.
  \<^item> FlowStore: the interface the registry uses of the ledger, as locales with their laws, interpreted
    on the ledger's statements; the other locales are the keyed tables of Ledger and the contract
    between a command and an endpoint in QueryLaws.
  \<^item> Heartbeat, Presence (cli/internal/heartbeat, presence), Registry, RegistryLaws
    (cli/internal/registry): the consumer, the reaper, the snapshot, the endpoints; the flow table
    refines a map, every message is acknowledged, the heartbeat matches the table in every
    reachable state, the reaper's own events change nothing.
  \<^item> Endpoints: which handler answers on which subject of a registry that has started; the commands
    and the MCP server reach the registry through it.

  \<^bold>\<open>MCP server.\<close>
  \<^item> McpStores, McpServer, McpTools (cli/internal/mcpserver): channels in a heap that knows which are
    closed, the tools, the response subscribers and timers as steps.
  \<^item> McpLaws: nothing panics as long as no stop arrives, a question ends, and how a stop followed by
    an answer closes a channel twice.
  \<^item> StateBus: the MCP server and the registry together. The calls of the state client and the messages
    of the stream reach one ledger; in every interleaving, with messages delivered again, a question
    and its answer are recorded once.
  \<^item> Relay (stdio_relay.go, nats_transport.go, command/mcp.go): sessions and connections as a step
    relation; an open that completes after the stop panics.

  \<^bold>\<open>Commands.\<close>
  \<^item> Config, ConfigCmd (cli/internal/config, command/config.go): settings, validation, registry of
    parameters, init and list.
  \<^item> ConfigLoad (config/load.go, command/root.go): the settings file, the environment and the defaults
    become the fields of the configuration, with the documented precedence; what is relied on of Viper
    and mapstructure is stated there. How an error ends the process.
  \<^item> Command, CommandLaws (ask, post, answer, interject), Dispatch (hooks of the agent): an ask ends,
    an answer ends it, nothing is allowed without the user.
  \<^item> Queries, QueryLaws (flows, flow, history, devices): against the registry's endpoints, each
    an instance of one contract (a reply decodes to the answer), a lookup finds the right flows and
    the history shows the rows of its page; the time left that is shown agrees with the reaper.
  \<^item> Telemetry (telemetry list and fetch): the pull loop ends; which files fetch writes.

  \<^bold>\<open>Recursion and bounds.\<close> There is no fuel. Loops over data are structural or have a measure; the
  loop of ask recurses over the list of events of its select, the daemon's over what happens to it,
  and not returning is None or the end of the list. The pull loop of telemetry is a partial
  function, proved to return on a stream whose sequence numbers increase. The daemon's stop looks
  twenty times, as the code does. The relay's scanner has its buffer of 1 MiB as a number.

  \<^bold>\<open>Not modelled.\<close> Viper and mapstructure beyond what ConfigLoad states of them, Cobra, its flags and
  the tree of commands, the primitives of crypto and x509, the
  SQLite driver, the NATS server and client and the MCP library beyond what is stated of them, the
  serving of HTTP requests, logging, the drawing of QR codes, the alignment of columns, the test
  helpers. The offset a time was written with is dropped, as is the text syntax of JSON; reading a
  duration as hours, minutes or seconds goes through a float in Go, and is exact here.
\<close>

end
